(* ===== verification/Prelude.thy ===== *)
theory Prelude
  imports Main "HOL-Library.Word"
begin

text \<open>
  Shared vocabulary of the development.

  The program is C, so an operation can go wrong in ways its return value does not show:
  a null pointer is dereferenced, an array is indexed past its end, freed memory is read.
  Every such event is a value of \<open>ub\<close>, and an operation that can run into one returns
  \<open>ub + 'a\<close>: \<open>Inl\<close> the undefined behaviour, \<open>Inr\<close> the value. \<open>rbind\<close> sequences such
  operations. Fixed-size C arrays are lists read and written through \<open>arr_get\<close> and
  \<open>arr_set\<close>, which check the bounds the C code does not.
\<close>

datatype ub =
    NullDeref
  | OutOfBounds
  | UseAfterFree
  | DivByZero
  | Uninitialised
  | NotLocked

unbundle bit_operations_syntax

type_synonym 'a result = "ub + 'a"

type_synonym u8 = "8 word"
type_synonym u16 = "16 word"
type_synonym u32 = "32 word"
type_synonym u64 = "64 word"

text \<open>Facts about \<open>result\<close> values, collected for the component proofs.\<close>

named_theorems result_simps

definition rbind :: "'a result \<Rightarrow> ('a \<Rightarrow> 'b result) \<Rightarrow> 'b result" where
  "rbind r f = (case r of Inl e \<Rightarrow> Inl e | Inr x \<Rightarrow> f x)"

lemma rbind_Inl [simp]: "rbind (Inl e) f = Inl e"
  by (simp add: rbind_def)

lemma rbind_Inr [simp]: "rbind (Inr x) f = f x"
  by (simp add: rbind_def)

lemma rbind_cong [fundef_cong]:
  "r = r' \<Longrightarrow> (\<And>x. r' = Inr x \<Longrightarrow> f x = g x) \<Longrightarrow> rbind r f = rbind r' g"
  by (cases r') (simp_all add: rbind_def)

lemma rbind_eq_Inr [result_simps]:
  "rbind r f = Inr y \<longleftrightarrow> (\<exists>x. r = Inr x \<and> f x = Inr y)"
  by (cases r) simp_all

lemma rbind_eq_Inl [result_simps]:
  "rbind r f = Inl e \<longleftrightarrow> r = Inl e \<or> (\<exists>x. r = Inr x \<and> f x = Inl e)"
  by (cases r) auto

lemma rbind_assoc: "rbind (rbind r f) g = rbind r (\<lambda>x. rbind (f x) g)"
  by (cases r) simp_all

lemma rbind_if [result_simps]:
  "rbind (if b then r else s) f = (if b then rbind r f else rbind s f)"
  by simp

text \<open>Running an operation over a list of inputs, from the first to the last.\<close>

fun foldm :: "('a \<Rightarrow> 's \<Rightarrow> 's result) \<Rightarrow> 'a list \<Rightarrow> 's \<Rightarrow> 's result" where
  "foldm f [] s = Inr s"
| "foldm f (x # xs) s = rbind (f x s) (foldm f xs)"

lemma foldm_append: "foldm f (xs @ ys) s = rbind (foldm f xs s) (foldm f ys)"
  by (induction xs arbitrary: s) (auto simp: rbind_assoc intro!: rbind_cong)

section \<open>Computations that may not end\<close>

text \<open>\<open>None\<close> is a computation that does not return.\<close>

definition tbind :: "'a result option \<Rightarrow> ('a \<Rightarrow> 'b result option) \<Rightarrow> 'b result option" where
  "tbind r f = (case r of None \<Rightarrow> None | Some (Inl e) \<Rightarrow> Some (Inl e) | Some (Inr x) \<Rightarrow> f x)"

lemma tbind_simps [simp]:
  "tbind None f = None" "tbind (Some (Inl e)) f = Some (Inl e)" "tbind (Some (Inr x)) f = f x"
  by (simp_all add: tbind_def)

lemma tbind_eq_Inr: "tbind r f = Some (Inr y) \<longleftrightarrow> (\<exists>x. r = Some (Inr x) \<and> f x = Some (Inr y))"
  by (auto simp: tbind_def split: option.split sum.split)

section \<open>Fixed-size arrays\<close>

definition arr_get :: "'a list \<Rightarrow> int \<Rightarrow> 'a result" where
  "arr_get xs i = (if 0 \<le> i \<and> i < int (length xs) then Inr (xs ! nat i) else Inl OutOfBounds)"

definition arr_set :: "'a list \<Rightarrow> int \<Rightarrow> 'a \<Rightarrow> 'a list result" where
  "arr_set xs i x =
     (if 0 \<le> i \<and> i < int (length xs) then Inr (xs[nat i := x]) else Inl OutOfBounds)"

lemma arr_get_nat [simp]: "n < length xs \<Longrightarrow> arr_get xs (int n) = Inr (xs ! n)"
  by (simp add: arr_get_def)

lemma arr_get_neg [simp]: "i < 0 \<Longrightarrow> arr_get xs i = Inl OutOfBounds"
  by (simp add: arr_get_def)

lemma arr_set_nat [simp]: "n < length xs \<Longrightarrow> arr_set xs (int n) x = Inr (xs[n := x])"
  by (simp add: arr_set_def)

lemma arr_get_eq_Inr [result_simps]:
  "arr_get xs i = Inr x \<longleftrightarrow> 0 \<le> i \<and> i < int (length xs) \<and> x = xs ! nat i"
  by (auto simp: arr_get_def)

lemma arr_set_eq_Inr [result_simps]:
  "arr_set xs i x = Inr ys \<longleftrightarrow> 0 \<le> i \<and> i < int (length xs) \<and> ys = xs[nat i := x]"
  by (auto simp: arr_set_def)

section \<open>Lists\<close>

lemma take_Suc_concat:
  "e < length xs \<Longrightarrow> concat (take (Suc e) xs) = concat (take e xs) @ xs ! e"
  by (simp add: take_Suc_conv_app_nth)

lemma concat_take_drop: "concat (take e xs) @ concat (drop e xs) = concat xs"
  by (metis append_take_drop_id concat_append)

lemma concat_split_nth:
  "e < length xs \<Longrightarrow> concat xs = concat (take e xs) @ xs ! e @ concat (drop (Suc e) xs)"
  by (metis concat.simps(2) concat_append id_take_nth_drop)

lemma takeWhile_length_less: "\<exists>x \<in> set xs. \<not> P x \<Longrightarrow> length (takeWhile P xs) < length xs"
  by (induction xs) auto

end
