(* ===== verification/Simulation.thy ===== *)
theory Simulation
  imports Prelude
begin

text \<open>
  Runs of a component and of its abstract specification. A component is a step function from
  operations and states to a state and an output, or undefined behaviour; the specification is
  a total function. The locale \<open>simulation\<close> is the contract of a component that implements its
  specification as long as it does not run into undefined behaviour, \<open>total_simulation\<close> the
  contract of one that never does. Both are interpreted by the components.
\<close>

fun run_steps :: "('op \<Rightarrow> 's \<Rightarrow> ('s \<times> 'o) result) \<Rightarrow> 'op list \<Rightarrow> 's \<Rightarrow> ('s \<times> 'o list) result" where
  "run_steps step [] s = Inr (s, [])"
| "run_steps step (op # ops) s =
     rbind (step op s) (\<lambda>(s', out).
       rbind (run_steps step ops s') (\<lambda>(s'', outs). Inr (s'', out # outs)))"

fun run_spec :: "('op \<Rightarrow> 'a \<Rightarrow> 'a \<times> 'o) \<Rightarrow> 'op list \<Rightarrow> 'a \<Rightarrow> 'a \<times> 'o list" where
  "run_spec spec [] a = (a, [])"
| "run_spec spec (op # ops) a =
     (case spec op a of (a', out) \<Rightarrow> (case run_spec spec ops a' of (a'', outs) \<Rightarrow> (a'', out # outs)))"

lemma run_steps_append:
  "run_steps step (xs @ ys) s =
     rbind (run_steps step xs s) (\<lambda>(s', o1).
       rbind (run_steps step ys s') (\<lambda>(s'', o2). Inr (s'', o1 @ o2)))"
  by (induction xs arbitrary: s)
    (auto simp: rbind_assoc split_beta prod.case_eq_if rbind_def split: sum.splits)

text \<open>
  A component and its specification related by \<open>rel\<close>: each step that goes through is a step of
  the specification with the same output.
\<close>

locale rel_simulation =
  fixes rel :: "'s \<Rightarrow> 'a \<Rightarrow> bool"
    and ok :: "'op \<Rightarrow> bool"
    and step :: "'op \<Rightarrow> 's \<Rightarrow> ('s \<times> 'o) result"
    and spec :: "'op \<Rightarrow> 'a \<Rightarrow> 'a \<times> 'o"
  assumes step_rel: "rel s a \<Longrightarrow> ok op \<Longrightarrow> step op s = Inr (s', out) \<Longrightarrow>
    \<exists>a'. spec op a = (a', out) \<and> rel s' a'"
begin

lemma run_rel:
  "rel s a \<Longrightarrow> \<forall>op \<in> set ops. ok op \<Longrightarrow> run_steps step ops s = Inr (s', outs) \<Longrightarrow>
   \<exists>a'. run_spec spec ops a = (a', outs) \<and> rel s' a'"
proof (induction ops arbitrary: s a outs)
  case (Cons op ops)
  then obtain s1 out1 outs2 where s1: "step op s = Inr (s1, out1)"
    and r: "run_steps step ops s1 = Inr (s', outs2)" and o: "outs = out1 # outs2"
    by (auto simp: result_simps split: prod.splits)
  obtain a1 where a1: "spec op a = (a1, out1)" "rel s1 a1"
    using step_rel [OF Cons.prems(1) _ s1] Cons.prems(2) by auto
  show ?case using Cons.IH [OF a1(2) _ r] Cons.prems(2) a1(1) o by auto
qed simp

end

text \<open>The relation may be an invariant together with an abstraction function.\<close>

locale simulation =
  fixes inv :: "'s \<Rightarrow> bool"
    and ok :: "'op \<Rightarrow> bool"
    and abs :: "'s \<Rightarrow> 'a"
    and step :: "'op \<Rightarrow> 's \<Rightarrow> ('s \<times> 'o) result"
    and spec :: "'op \<Rightarrow> 'a \<Rightarrow> 'a \<times> 'o"
  assumes step_inv: "inv s \<Longrightarrow> ok op \<Longrightarrow> step op s = Inr (s', out) \<Longrightarrow> inv s'"
    and step_spec: "inv s \<Longrightarrow> ok op \<Longrightarrow> step op s = Inr (s', out) \<Longrightarrow> spec op (abs s) = (abs s', out)"

sublocale simulation \<subseteq> rel_simulation "\<lambda>s a. inv s \<and> abs s = a" ok step spec
  by unfold_locales (auto dest: step_inv step_spec)

context simulation
begin

lemma run_refines:
  "inv s \<Longrightarrow> \<forall>op \<in> set ops. ok op \<Longrightarrow> run_steps step ops s = Inr (s', outs) \<Longrightarrow>
   inv s' \<and> run_spec spec ops (abs s) = (abs s', outs)"
  using run_rel [of s "abs s" ops s' outs] by auto

end

locale total_simulation = simulation +
  assumes step_ok: "inv s \<Longrightarrow> ok op \<Longrightarrow> \<exists>r. step op s = Inr r"
begin

lemma run_total:
  "inv s \<Longrightarrow> \<forall>op \<in> set ops. ok op \<Longrightarrow>
   \<exists>s' outs. run_steps step ops s = Inr (s', outs) \<and> inv s' \<and>
     run_spec spec ops (abs s) = (abs s', outs)"
proof (induction ops arbitrary: s)
  case (Cons op ops)
  then obtain s1 out1 where s1: "step op s = Inr (s1, out1)"
    using step_ok [of s op] by auto
  have i: "inv s1" "spec op (abs s) = (abs s1, out1)"
    using Cons.prems s1 step_inv step_spec by auto
  then show ?case using Cons.IH [of s1] Cons.prems s1 by auto
qed simp

end

end
