(* ===== verification/CString.thy ===== *)
theory CString
  imports Prelude
begin

text \<open>
  The parts of the C string library the program uses. A C string is a \<open>string\<close> (a list
  of bytes) without its terminating NUL; a \<open>char *\<close> that may be null is a
  \<open>string option\<close>. Characters are signed, as on the x86-64 Linux target.
\<close>

named_theorems cstring_simps

definition NUL :: char where
  "NUL = CHR 0x00"

text \<open>A buffer of \<open>n\<close> zero bytes, as \<open>calloc\<close> returns it.\<close>

definition zero_buf :: "nat \<Rightarrow> char list" where
  "zero_buf n = replicate n NUL"

lemma length_zero_buf [simp]: "length (zero_buf n) = n"
  by (simp add: zero_buf_def)

text \<open>The string a buffer holds: its bytes up to the first NUL.\<close>

definition c_str :: "char list \<Rightarrow> string" where
  "c_str buf = takeWhile (\<lambda>c. c \<noteq> NUL) buf"

text \<open>A buffer read as a string; without a NUL the reader runs out of it.\<close>

definition read_str :: "char list \<Rightarrow> string result" where
  "read_str buf = (if NUL \<in> set buf then Inr (c_str buf) else Inl OutOfBounds)"

text \<open>A \<open>char\<close> read as an \<open>int\<close>: values from 128 on are negative.\<close>

definition char_int :: "char \<Rightarrow> int" where
  "char_int c = (let n = (of_char c :: int) in if n \<ge> 128 then n - 256 else n)"

definition c_tolower :: "int \<Rightarrow> int" where
  "c_tolower n = (if 65 \<le> n \<and> n \<le> 90 then n + 32 else n)"

section \<open>strtok\<close>

text \<open>
  \<open>strtok s d\<close> skips delimiters, takes the longest run of other characters and ends it by
  overwriting one delimiter; the saved pointer is behind that. The result is the token
  (\<open>None\<close> for a null pointer) and the string at the saved pointer, from which
  \<open>strtok (NULL, d)\<close> goes on.
\<close>

definition strtok :: "string \<Rightarrow> string \<Rightarrow> string option \<times> string" where
  "strtok s d =
     (let s' = dropWhile (\<lambda>c. c \<in> set d) s in
      if s' = [] then (None, [])
      else (Some (takeWhile (\<lambda>c. c \<notin> set d) s'),
            drop 1 (dropWhile (\<lambda>c. c \<notin> set d) s')))"

lemma strtok_Nil [simp]: "strtok [] d = (None, [])"
  by (simp add: strtok_def)

lemma strtok_shorter: "strtok s d = (Some t, r) \<Longrightarrow> length r < length s"
proof -
  assume a: "strtok s d = (Some t, r)"
  let ?s = "dropWhile (\<lambda>c. c \<in> set d) s"
  from a have ne: "?s \<noteq> []" and r: "r = drop 1 (dropWhile (\<lambda>c. c \<notin> set d) ?s)"
    by (auto simp: strtok_def Let_def split: if_splits)
  from ne have "hd ?s \<notin> set d" by (rule hd_dropWhile)
  with ne have "length (dropWhile (\<lambda>c. c \<notin> set d) ?s) < length ?s"
    by (cases ?s) (auto simp: le_imp_less_Suc length_dropWhile_le)
  also have "\<dots> \<le> length s" by (rule length_dropWhile_le)
  finally show ?thesis by (simp add: r)
qed

text \<open>All tokens of a string for one delimiter set: the loop \<open>while ((t = strtok (\<dots>)))\<close>.\<close>

function strtok_all :: "string \<Rightarrow> string \<Rightarrow> string list" where
  "strtok_all d s =
     (case strtok s d of (None, r) \<Rightarrow> [] | (Some t, r) \<Rightarrow> t # strtok_all d r)"
  by pat_completeness auto
termination
  by (relation "measure (\<lambda>(d, s). length s)") (auto dest: strtok_shorter [OF sym])

declare strtok_all.simps [simp del]

lemma strtok_token:
  "strtok s d = (Some t, r) \<Longrightarrow> t \<noteq> [] \<and> set t \<inter> set d = {} \<and> set t \<subseteq> set s \<and> length t \<le> length s"
proof -
  assume a: "strtok s d = (Some t, r)"
  let ?s = "dropWhile (\<lambda>c. c \<in> set d) s"
  from a have ne: "?s \<noteq> []" and t: "t = takeWhile (\<lambda>c. c \<notin> set d) ?s"
    by (auto simp: strtok_def Let_def split: if_splits)
  from ne have "hd ?s \<notin> set d" by (rule hd_dropWhile)
  with ne t have "t \<noteq> []" by (cases ?s) auto
  moreover have "set t \<inter> set d = {}" using t by (auto dest: set_takeWhileD)
  moreover have "set t \<subseteq> set s"
    using t by (auto dest!: set_takeWhileD set_dropWhileD)
  moreover have "length t \<le> length s"
    using t by (metis le_trans length_dropWhile_le length_takeWhile_le)
  ultimately show ?thesis by blast
qed

lemma strtok_all_nonempty: "t \<in> set (strtok_all d s) \<Longrightarrow> t \<noteq> [] \<and> set t \<inter> set d = {}"
proof (induction d s rule: strtok_all.induct)
  case (1 d s)
  show ?case
  proof (cases "strtok s d")
    case (Pair x r)
    show ?thesis
    proof (cases x)
      case None
      with "1.prems" Pair show ?thesis by (simp add: strtok_all.simps [of d s])
    next
      case (Some u)
      then have "strtok s d = (Some u, r)" using Pair by simp
      from "1.prems" this have "t = u \<or> t \<in> set (strtok_all d r)"
        by (simp add: strtok_all.simps [of d s])
      then show ?thesis
        using strtok_token [OF \<open>strtok s d = (Some u, r)\<close>] "1.IH" Pair Some by metis
    qed
  qed
qed

lemma strtok_all_length: "t \<in> set (strtok_all d s) \<Longrightarrow> length t \<le> length s"
proof (induction d s rule: strtok_all.induct)
  case (1 d s)
  show ?case
  proof (cases "strtok s d")
    case (Pair a r)
    then show ?thesis
      using 1 strtok_token [of s d] strtok_shorter [of s d]
      by (subst (asm) (2) strtok_all.simps) (fastforce split: option.splits)
  qed
qed

section \<open>Case-insensitive comparison\<close>

text \<open>\<open>int strcicmp(const char *a, const char *b)\<close>, with \<open>[]\<close> for a pointer at the NUL.\<close>

fun strcicmp_str :: "string \<Rightarrow> string \<Rightarrow> int" where
  "strcicmp_str [] [] = 0"
| "strcicmp_str [] (b # bs) = c_tolower 0 - c_tolower (char_int b)"
| "strcicmp_str (a # as) [] = c_tolower (char_int a) - c_tolower 0"
| "strcicmp_str (a # as) (b # bs) =
     (let d = c_tolower (char_int a) - c_tolower (char_int b) in
      if d \<noteq> 0 then d else strcicmp_str as bs)"

definition strcicmp :: "string option \<Rightarrow> string \<Rightarrow> int result" where
  "strcicmp a b = (case a of None \<Rightarrow> Inl NullDeref | Some s \<Rightarrow> Inr (strcicmp_str s b))"

lemma of_char_int_range: "0 \<le> (of_char c :: int)" "(of_char c :: int) < 256"
proof -
  show "0 \<le> (of_char c :: int)"
    by (metis of_nat_0_le_iff of_nat_of_char)
  have "of_char c < (256 :: nat)" by (rule nat_of_char_less_256)
  then show "(of_char c :: int) < 256"
    by (metis of_nat_less_iff of_nat_numeral of_nat_of_char)
qed

lemma char_int_eq_iff: "char_int a = char_int b \<longleftrightarrow> a = b"
proof
  assume "char_int a = char_int b"
  then have "(of_char a :: int) = of_char b"
    using of_char_int_range [of a] of_char_int_range [of b]
    by (auto simp: char_int_def Let_def split: if_splits)
  then show "a = b" by (simp only: of_char_eq_iff)
qed simp

lemma char_int_NUL [simp]: "char_int NUL = 0"
  by (simp add: char_int_def NUL_def)

lemma char_int_0: "char_int c = 0 \<longleftrightarrow> c = NUL"
  using char_int_eq_iff [of c NUL] by simp

lemma c_tolower_0: "c_tolower n = c_tolower 0 \<longleftrightarrow> n = 0"
  by (simp add: c_tolower_def)

text \<open>
  The comparison answers 0 exactly when the two strings have the same characters up to the
  case of ASCII letters.
\<close>

lemma strcicmp_str_0:
  "NUL \<notin> set a \<Longrightarrow> NUL \<notin> set b \<Longrightarrow>
   strcicmp_str a b = 0 \<longleftrightarrow> map (c_tolower \<circ> char_int) a = map (c_tolower \<circ> char_int) b"
  by (induction a b rule: strcicmp_str.induct)
    (auto simp: Let_def c_tolower_0 char_int_0 dest: sym)

section \<open>Splitting known text\<close>

lemma strtok_word:
  assumes "t \<noteq> []" and "set t \<inter> set d = {}" and "c \<in> set d"
  shows "strtok (t @ c # rest) d = (Some t, rest)"
proof -
  have t: "\<forall>x \<in> set t. x \<notin> set d" using assms(2) by auto
  obtain x t' where x: "t = x # t'" using assms(1) by (cases t) auto
  have "dropWhile (\<lambda>c. c \<in> set d) (t @ c # rest) = t @ c # rest"
    using t by (simp add: x)
  moreover have "takeWhile (\<lambda>c. c \<notin> set d) (t @ c # rest) = t"
    using t assms(3) by (simp add: takeWhile_append2)
  moreover have "dropWhile (\<lambda>c. c \<notin> set d) (t @ c # rest) = c # rest"
    using t assms(3) by (simp add: dropWhile_append2)
  ultimately show ?thesis by (simp add: strtok_def x)
qed

lemma strtok_last_word:
  assumes "t \<noteq> []" and "set t \<inter> set d = {}"
  shows "strtok t d = (Some t, [])"
proof -
  have t: "\<forall>x \<in> set t. x \<notin> set d" using assms(2) by auto
  have "takeWhile (\<lambda>c. c \<notin> set d) t = t" "dropWhile (\<lambda>c. c \<notin> set d) t = []"
    using t by (simp_all add: takeWhile_eq_all_conv dropWhile_eq_Nil_conv)
  moreover have "dropWhile (\<lambda>c. c \<in> set d) t = t"
    using t assms(1) by (cases t) auto
  ultimately show ?thesis using assms(1) by (simp only: strtok_def Let_def if_False drop_Nil)
qed

lemma strtok_delims: "set s \<subseteq> set d \<Longrightarrow> strtok s d = (None, [])"
proof -
  assume "set s \<subseteq> set d"
  then have "dropWhile (\<lambda>c. c \<in> set d) s = []" by (auto simp: dropWhile_eq_Nil_conv)
  then show ?thesis by (simp add: strtok_def)
qed

text \<open>Leading delimiters are skipped.\<close>

lemma strtok_skip: "set w \<subseteq> set d \<Longrightarrow> strtok (w @ s) d = strtok s d"
  by (simp add: strtok_def dropWhile_append2 subset_eq)

section \<open>Decimal numbers\<close>

definition is_digit :: "char \<Rightarrow> bool" where
  "is_digit c \<longleftrightarrow> 48 \<le> (of_char c :: nat) \<and> (of_char c :: nat) \<le> 57"

definition digit_value :: "char \<Rightarrow> int" where
  "digit_value c = of_char c - 48"

definition is_space :: "char \<Rightarrow> bool" where
  "is_space c \<longleftrightarrow> c = CHR '' '' \<or> 9 \<le> (of_char c :: nat) \<and> (of_char c :: nat) \<le> 13"

definition digits_value :: "string \<Rightarrow> int" where
  "digits_value s = foldl (\<lambda>n c. 10 * n + digit_value c) 0 s"

text \<open>Conversion of an \<open>int\<close> value to 32 bits, two's complement.\<close>

definition int32 :: "int \<Rightarrow> int" where
  "int32 n = (let m = n mod 2 ^ 32 in if m \<ge> 2 ^ 31 then m - 2 ^ 32 else m)"

text \<open>
  \<open>atoi\<close> of glibc: \<open>(int) strtol(s, NULL, 10)\<close>, where \<open>strtol\<close> skips white space, takes an
  optional sign and the digits, and saturates at 64 bits.
\<close>

definition atoi :: "string \<Rightarrow> int" where
  "atoi s =
     (let s1 = dropWhile is_space s;
          neg = (case s1 of [] \<Rightarrow> False | c # _ \<Rightarrow> c = CHR ''-'');
          s2 = (case s1 of [] \<Rightarrow> [] | c # r \<Rightarrow> if c = CHR ''-'' \<or> c = CHR ''+'' then r else s1);
          v = digits_value (takeWhile is_digit s2);
          l = max (- (2 ^ 63)) (min (2 ^ 63 - 1) (if neg then - v else v))
      in int32 l)"

text \<open>\<open>sprintf("%d")\<close>.\<close>

definition digit_char :: "nat \<Rightarrow> char" where
  "digit_char n = char_of (48 + n)"

fun show_nat :: "nat \<Rightarrow> string" where
  "show_nat n = (if n < 10 then [digit_char n] else show_nat (n div 10) @ [digit_char (n mod 10)])"

declare show_nat.simps [simp del]

definition show_int :: "int \<Rightarrow> string" where
  "show_int n = (if n < 0 then CHR ''-'' # show_nat (nat (- n)) else show_nat (nat n))"

lemma of_digit_char: "n < 10 \<Longrightarrow> (of_char (digit_char n) :: nat) = 48 + n"
  by (simp add: digit_char_def)

lemma digit_char_digit: "n < 10 \<Longrightarrow> is_digit (digit_char n) \<and> digit_value (digit_char n) = int n"
proof -
  assume n: "n < 10"
  have "(of_char (digit_char n) :: int) = int (of_char (digit_char n))"
    by (rule of_nat_of_char [symmetric])
  then show ?thesis using of_digit_char [OF n] n by (simp add: is_digit_def digit_value_def)
qed

lemma show_nat_digits: "show_nat n \<noteq> [] \<and> (\<forall>c \<in> set (show_nat n). is_digit c)"
proof (induction n rule: show_nat.induct)
  case (1 n)
  then show ?case using digit_char_digit by (subst (1 2) show_nat.simps) auto
qed

lemma digits_value_show: "digits_value (show_nat n) = int n"
proof (induction n rule: show_nat.induct)
  case (1 n)
  show ?case
  proof (cases "n < 10")
    case True
    then show ?thesis using digit_char_digit by (simp add: show_nat.simps [of n] digits_value_def)
  next
    case False
    then have "digits_value (show_nat n) = 10 * digits_value (show_nat (n div 10)) + int (n mod 10)"
      using digit_char_digit [of "n mod 10"]
      by (simp add: show_nat.simps [of n] digits_value_def)
    then show ?thesis using "1.IH" [OF False] by (simp add: zmod_int zdiv_int)
  qed
qed

lemma is_digit_not_space: "is_digit c \<Longrightarrow> \<not> is_space c \<and> c \<noteq> CHR ''-'' \<and> c \<noteq> CHR ''+''"
  by (auto simp: is_digit_def is_space_def)

lemma is_digit_NUL: "is_digit c \<Longrightarrow> c \<noteq> NUL"
  by (auto simp: is_digit_def NUL_def)

lemma int32_id: "- (2 ^ 31) \<le> n \<Longrightarrow> n < 2 ^ 31 \<Longrightarrow> int32 n = n"
proof (cases "n < 0")
  case True
  assume a: "- (2 ^ 31) \<le> n"
  have "n mod 2 ^ 32 = (n + 2 ^ 32) mod 2 ^ 32" by simp
  also have "\<dots> = n + 2 ^ 32" using True a by (intro mod_pos_pos_trivial) auto
  finally show ?thesis using True a by (simp add: int32_def)
qed (simp add: int32_def mod_pos_pos_trivial)

lemma takeWhile_show_nat: "takeWhile is_digit (show_nat n) = show_nat n"
  using show_nat_digits by (simp add: takeWhile_eq_all_conv)

lemma show_nat_Cons: "\<exists>c r. show_nat n = c # r \<and> is_digit c"
  using show_nat_digits [of n] by (cases "show_nat n") auto

lemma atoi_show_int:
  assumes "- (2 ^ 31) \<le> n" and "n < 2 ^ 31"
  shows "atoi (show_int n) = n"
proof (cases "n < 0")
  case True
  have d: "dropWhile is_space (show_int n) = CHR ''-'' # show_nat (nat (- n))"
    using True by (simp add: show_int_def is_space_def)
  have "atoi (show_int n) = int32 (max (- (2 ^ 63)) (min (2 ^ 63 - 1) n))"
    using True unfolding atoi_def d by (simp add: takeWhile_show_nat digits_value_show)
  also have "\<dots> = int32 n" using assms by simp
  finally show ?thesis using int32_id [OF assms] by simp
next
  case False
  obtain c r where cr: "show_nat (nat n) = c # r" "is_digit c" using show_nat_Cons by blast
  have s: "show_int n = show_nat (nat n)" using False by (simp add: show_int_def)
  have d: "dropWhile is_space (show_int n) = c # r"
    using cr is_digit_not_space by (simp add: s)
  have "takeWhile is_digit (c # r) = show_nat (nat n)"
    using takeWhile_show_nat [of "nat n"] cr by simp
  then have "atoi (show_int n) = int32 (max (- (2 ^ 63)) (min (2 ^ 63 - 1) n))"
    using False is_digit_not_space [OF cr(2)] digits_value_show [of "nat n"]
    unfolding atoi_def d by (simp del: takeWhile.simps)
  also have "\<dots> = int32 n" using assms by simp
  finally show ?thesis using int32_id [OF assms] by simp
qed

end
