(* ===== verification/Fnmatch.thy ===== *)
theory Fnmatch
  imports CString
begin

text \<open>
  Path patterns (\<open>src/monitors/fnmatch.c\<close>): the node list a path or a pattern is translated
  into, the translation \<open>fn_translate\<close> and the matcher \<open>fn_match\<close>.

  A node list keeps the characters of all components one after the other, without the
  slashes, in \<open>str\<close>; component \<open>i\<close> is the slice from \<open>offsets ! i\<close> to \<open>offsets ! (i + 1)\<close>.
  The offsets are \<open>uint8_t\<close>, so they are stored \<open>mod 256\<close>. The arrays have 13 and 256
  entries and the code checks neither bound: a write past the end is \<open>OutOfBounds\<close>.
\<close>

definition MAX_PATH_LEN :: nat where
  "MAX_PATH_LEN = 256"

definition MAX_DIR_LEVEL :: nat where
  "MAX_DIR_LEVEL = 13"

datatype node_t =
    NODE_INVALID
  | NODE_CHARACTER
  | NODE_STAR
  | NODE_DOUBLE_STAR
  | NODE_MIXED_STAR

record nodelist =
  node_cnt :: nat
  cur_node :: nat
  offsets :: "nat list"
  nodetypes :: "node_t list"
  str :: "char list"

text \<open>What \<open>calloc(1, sizeof(nodelist_t))\<close> returns.\<close>

definition calloc_nodelist :: nodelist where
  "calloc_nodelist =
     \<lparr>node_cnt = 0, cur_node = 0,
      offsets = replicate MAX_DIR_LEVEL 0,
      nodetypes = replicate MAX_DIR_LEVEL NODE_INVALID,
      str = zero_buf MAX_PATH_LEN\<rparr>"

definition is_slash :: "char \<Rightarrow> bool" where
  "is_slash c \<longleftrightarrow> c = CHR ''/'' \<or> c = CHR 0x5C"

section \<open>fn\_translate\<close>

text \<open>
  The \<open>while (*strPtr)\<close> loop. The first argument is the string at \<open>strPtr\<close>; \<open>strPtr\<close>,
  \<open>last_slash\<close> and \<open>destPtr\<close> are the three pointers, as offsets into their strings
  (\<open>last_slash\<close> is \<open>-1\<close> where the path does not start with a slash). \<open>Inr None\<close> is the jump
  to \<open>error\<close>.
\<close>

fun translate_loop ::
  "string \<Rightarrow> int \<Rightarrow> int \<Rightarrow> int \<Rightarrow> nodelist \<Rightarrow> (nodelist \<times> int) option result" where
  "translate_loop [] strPtr last_slash destPtr pat = Inr (Some (pat, destPtr))"
| "translate_loop (ch # rest) strPtr last_slash destPtr pat =
     (if is_slash ch then
        (if strPtr - last_slash = 1 then Inr None
         else translate_loop rest (strPtr + 1) strPtr destPtr pat)
      else if strPtr - last_slash = 1 then
        rbind (arr_set (offsets pat) (int (node_cnt pat)) (nat destPtr mod 256)) (\<lambda>offs.
        rbind (arr_set (str pat) destPtr ch) (\<lambda>buf.
          translate_loop rest (strPtr + 1) last_slash (destPtr + 1)
            (pat\<lparr>offsets := offs, str := buf, node_cnt := node_cnt pat + 1\<rparr>)))
      else
        rbind (arr_set (str pat) destPtr ch) (\<lambda>buf.
          translate_loop rest (strPtr + 1) last_slash (destPtr + 1) (pat\<lparr>str := buf\<rparr>)))"

text \<open>\<open>_find_node_type\<close>: the \<open>uint8_t\<close> bounds always index inside the 256 characters.\<close>

definition find_node_type :: "char list \<Rightarrow> nat \<Rightarrow> nat \<Rightarrow> node_t" where
  "find_node_type s start end =
     (let len = int end - int start in
      if len = 1 \<and> s ! start = CHR ''*'' then NODE_STAR
      else if len = 2 \<and> s ! start = CHR ''*'' \<and> s ! (start + 1) = CHR ''*''
        then NODE_DOUBLE_STAR
      else if (\<exists>i \<in> set [start ..< end]. s ! i = CHR ''*'') then NODE_MIXED_STAR
      else NODE_CHARACTER)"

definition set_nodetypes :: "nodelist \<Rightarrow> nodelist" where
  "set_nodetypes pat =
     pat\<lparr>nodetypes :=
       map (\<lambda>i. find_node_type (str pat) (offsets pat ! i) (offsets pat ! (i + 1)))
         [0 ..< node_cnt pat] @ drop (node_cnt pat) (nodetypes pat)\<rparr>"

definition fn_translate :: "string \<Rightarrow> bool \<Rightarrow> nodelist option result" where
  "fn_translate s is_pattern =
     (let lead = (case s of [] \<Rightarrow> False | c # _ \<Rightarrow> is_slash c);
          strPtr = (if lead then 1 else 0);
          last_slash = (if lead then 0 else -1) in
      rbind (translate_loop (if lead then drop 1 s else s) strPtr last_slash 0 calloc_nodelist)
        (\<lambda>r. case r of
           None \<Rightarrow> Inr None
         | Some (pat, destPtr) \<Rightarrow>
             rbind (arr_set (offsets pat) (int (node_cnt pat)) (nat destPtr mod 256)) (\<lambda>offs.
               let pat' = pat\<lparr>offsets := offs\<rparr> in
               Inr (Some (if is_pattern then set_nodetypes pat' else pat')))))"

section \<open>Matching one node\<close>

text \<open>\<open>strncmp(a + i, b + j, n) == 0\<close> on the two character buffers.\<close>

fun strncmp_eq :: "char list \<Rightarrow> int \<Rightarrow> char list \<Rightarrow> int \<Rightarrow> nat \<Rightarrow> bool result" where
  "strncmp_eq a i b j 0 = Inr True"
| "strncmp_eq a i b j (Suc n) =
     rbind (arr_get a i) (\<lambda>x. rbind (arr_get b j) (\<lambda>y.
       if x \<noteq> y then Inr False
       else if x = NUL then Inr True
       else strncmp_eq a (i + 1) b (j + 1) n))"

text \<open>\<open>for (pptr = end; pptr > start; pptr--, fptr--) if (*pptr != *fptr) return 0;\<close>\<close>

function cmp_down :: "char list \<Rightarrow> char list \<Rightarrow> int \<Rightarrow> int \<Rightarrow> int \<Rightarrow> bool result" where
  "cmp_down pstr fstr start pptr fptr =
     (if pptr > start then
        rbind (arr_get pstr pptr) (\<lambda>x. rbind (arr_get fstr fptr) (\<lambda>y.
          if x \<noteq> y then Inr False else cmp_down pstr fstr start (pptr - 1) (fptr - 1)))
      else Inr True)"
  by pat_completeness auto
termination
  by (relation "measure (\<lambda>(pstr, fstr, start, pptr, fptr). nat (pptr - start))") auto

text \<open>\<open>for (pptr = start; pptr < end; pptr++, fptr++) if (*pptr != *fptr) return 0;\<close>\<close>

function cmp_up :: "char list \<Rightarrow> char list \<Rightarrow> int \<Rightarrow> int \<Rightarrow> int \<Rightarrow> bool result" where
  "cmp_up pstr fstr end pptr fptr =
     (if pptr < end then
        rbind (arr_get pstr pptr) (\<lambda>x. rbind (arr_get fstr fptr) (\<lambda>y.
          if x \<noteq> y then Inr False else cmp_up pstr fstr end (pptr + 1) (fptr + 1)))
      else Inr True)"
  by pat_completeness auto
termination
  by (relation "measure (\<lambda>(pstr, fstr, end, pptr, fptr). nat (end - pptr))") auto

text \<open>\<open>while (*pptr != '*') { if (*pptr != *fptr) return 0; pptr++; fptr++; }\<close>\<close>

function cmp_up_star :: "char list \<Rightarrow> char list \<Rightarrow> int \<Rightarrow> int \<Rightarrow> bool result" where
  "cmp_up_star pstr fstr pptr fptr =
     rbind (arr_get pstr pptr) (\<lambda>x.
       if x = CHR ''*'' then Inr True
       else rbind (arr_get fstr fptr) (\<lambda>y.
         if x \<noteq> y then Inr False else cmp_up_star pstr fstr (pptr + 1) (fptr + 1)))"
  by pat_completeness auto
termination
  by (relation "measure (\<lambda>(pstr, fstr, pptr, fptr). nat (int (length pstr) - pptr))")
    (auto simp: result_simps)

text \<open>The same loop with \<open>pptr--\<close> and \<open>fptr--\<close>.\<close>

function cmp_down_star :: "char list \<Rightarrow> char list \<Rightarrow> int \<Rightarrow> int \<Rightarrow> bool result" where
  "cmp_down_star pstr fstr pptr fptr =
     rbind (arr_get pstr pptr) (\<lambda>x.
       if x = CHR ''*'' then Inr True
       else rbind (arr_get fstr fptr) (\<lambda>y.
         if x \<noteq> y then Inr False else cmp_down_star pstr fstr (pptr - 1) (fptr - 1)))"
  by pat_completeness auto
termination
  by (relation "measure (\<lambda>(pstr, fstr, pptr, fptr). nat (pptr + 1))") (auto simp: result_simps)

declare cmp_down.simps [simp del] cmp_up.simps [simp del]
declare cmp_up_star.simps [simp del] cmp_down_star.simps [simp del]

definition node_addr :: "nodelist \<Rightarrow> nat \<Rightarrow> int" where
  "node_addr l i = int (offsets l ! i)"

definition node_len :: "nodelist \<Rightarrow> nat \<Rightarrow> int" where
  "node_len l i = int (offsets l ! (i + 1)) - int (offsets l ! i)"

text \<open>
  \<open>_match_cur_node\<close>; \<open>p\<close> and \<open>e\<close> are the \<open>cur_node\<close> fields of the two lists, which \<open>_match\<close>
  keeps below their \<open>node_cnt\<close> here. \<open>strncmp\<close> takes its length as a \<open>size_t\<close>.
\<close>

definition match_cur_node :: "nodelist \<Rightarrow> nodelist \<Rightarrow> nat \<Rightarrow> nat \<Rightarrow> bool result" where
  "match_cur_node pat exp p e =
     (case nodetypes pat ! p of
        NODE_CHARACTER \<Rightarrow>
          (let plen = node_len pat p; flen = node_len exp e in
           if plen = flen
           then strncmp_eq (str pat) (node_addr pat p) (str exp) (node_addr exp e)
                  (nat (plen mod 2 ^ 64))
           else Inr False)
      | NODE_STAR \<Rightarrow> Inr True
      | NODE_MIXED_STAR \<Rightarrow>
          (let start = node_addr pat p; end = node_addr pat (p + 1) - 1 in
           rbind (arr_get (str pat) start) (\<lambda>s.
             if s = CHR ''*'' then
               cmp_down (str pat) (str exp) start end (node_addr exp (e + 1) - 1)
             else rbind (arr_get (str pat) end) (\<lambda>t.
               if t = CHR ''*'' then
                 cmp_up (str pat) (str exp) end start (node_addr exp e)
               else
                 rbind (cmp_up_star (str pat) (str exp) start (node_addr exp e)) (\<lambda>b.
                   if \<not> b then Inr False
                   else cmp_down_star (str pat) (str exp) end (node_addr exp (e + 1) - 1)))))
      | _ \<Rightarrow> Inr False)"

section \<open>The matcher\<close>

text \<open>
  \<open>_match\<close>. It reads the two lists and writes only their \<open>cur_node\<close> cursors, which are
  threaded as \<open>p\<close> (pattern) and \<open>e\<close> (path); the result carries the cursors as the call
  leaves them, because the caller goes on from there after a failed recursive call:
  \<open>NODE_BACK\<close> steps the pattern back by one from wherever the recursion stopped, and the
  path is not stepped back at all.
\<close>

function match_nodes ::
  "nodelist \<Rightarrow> nodelist \<Rightarrow> nat \<Rightarrow> nat \<Rightarrow> (bool \<times> nat \<times> nat) result" where
  "match_nodes pat exp p e =
     (if node_cnt exp \<le> e \<and> node_cnt pat \<le> p then Inr (True, p, e)
      else if node_cnt exp \<le> e then Inr (False, p, e)
      else if node_cnt pat \<le> p then Inr (False, p, e)
      else if nodetypes pat ! p = NODE_DOUBLE_STAR then
        rbind (match_nodes pat exp (p + 1) (e + 1)) (\<lambda>r.
          case r of (m, p', e') \<Rightarrow>
            if m then Inr (True, p', e') else match_nodes pat exp (p' - 1) e')
      else rbind (match_cur_node pat exp p e) (\<lambda>m.
          if \<not> m then Inr (False, p, e) else match_nodes pat exp (p + 1) (e + 1)))"
  by pat_completeness auto

text \<open>The recursive call only moves the cursors forward, so the loop after it makes progress.\<close>

definition forward :: "nat \<Rightarrow> nat \<Rightarrow> (bool \<times> nat \<times> nat) result \<Rightarrow> bool" where
  "forward p e r \<longleftrightarrow> (\<forall>m p' e'. r = Inr (m, p', e') \<longrightarrow> p \<le> p' \<and> e \<le> e')"

lemma forward_trans: "forward p e r \<Longrightarrow> p0 \<le> p \<Longrightarrow> e0 \<le> e \<Longrightarrow> forward p0 e0 r"
  by (fastforce simp: forward_def)

lemma forward_Suc: "forward (Suc p) (Suc e) r \<Longrightarrow> forward p e r"
  by (erule forward_trans) simp_all

lemma forward_rbind:
  "(\<And>x. r = Inr x \<Longrightarrow> forward p e (f x)) \<Longrightarrow> forward p e (rbind r f)"
  by (cases r) (simp_all add: forward_def)

lemma forward_here [simp]: "forward p e (Inr (b, p, e))"
  by (simp add: forward_def)

lemma match_nodes_forward_dom:
  assumes "match_nodes_dom (pat, exp, p, e)"
  shows "forward p e (match_nodes pat exp p e)"
  using assms
proof (induction pat exp p e rule: match_nodes.pinduct)
  case (1 pat exp p e)
  have ds: "forward p e (rbind (match_nodes pat exp (p + 1) (e + 1)) (\<lambda>r. case r of (m, p', e') \<Rightarrow>
      if m then Inr (True, p', e') else match_nodes pat exp (p' - 1) e'))"
    if c: "\<not> (node_cnt exp \<le> e \<and> node_cnt pat \<le> p)" "\<not> node_cnt exp \<le> e" "\<not> node_cnt pat \<le> p"
      "nodetypes pat ! p = NODE_DOUBLE_STAR"
  proof (rule forward_rbind)
    fix r assume r: "match_nodes pat exp (p + 1) (e + 1) = Inr r"
    obtain m p' e' where mpe: "r = (m, p', e')" by (cases r)
    have le: "p + 1 \<le> p'" "e + 1 \<le> e'"
      using "1.IH"(1) [OF c] r mpe by (auto simp: forward_def)
    have "\<not> m \<Longrightarrow> forward (p' - 1) e' (match_nodes pat exp (p' - 1) e')"
      using "1.IH"(2) [OF c r] mpe by blast
    then show "forward p e (case r of (m, p', e') \<Rightarrow>
        if m then Inr (True, p', e') else match_nodes pat exp (p' - 1) e')"
      using le mpe by (auto simp: forward_def [of p e "Inr _"] intro: forward_trans)
  qed
  have other: "forward p e (rbind (match_cur_node pat exp p e) (\<lambda>m.
      if \<not> m then Inr (False, p, e) else match_nodes pat exp (p + 1) (e + 1)))"
    if c: "\<not> (node_cnt exp \<le> e \<and> node_cnt pat \<le> p)" "\<not> node_cnt exp \<le> e" "\<not> node_cnt pat \<le> p"
      "nodetypes pat ! p \<noteq> NODE_DOUBLE_STAR"
    using "1.IH"(3) [OF c] by (intro forward_rbind) (auto intro: forward_Suc)
  show ?case using ds other by (simp add: match_nodes.psimps [OF "1.hyps"])
qed

termination match_nodes
proof (relation "measure (\<lambda>(pat, exp, p, e). node_cnt exp - e)", goal_cases)
  case (3 pat exp p e r m y p' e')
  then have "e + 1 \<le> e'"
    using match_nodes_forward_dom [of pat exp "p + 1" "e + 1"] by (auto simp: forward_def)
  with 3 show ?case by auto
qed auto

declare match_nodes.simps [simp del]

definition MATCH :: int where "MATCH = 0"
definition NO_MATCH :: int where "NO_MATCH = 1"

text \<open>
  \<open>fn_match\<close>: both cursors are reset first; the result is the code's return value and the
  two lists with the cursors the walk left in them.
\<close>

definition fn_match :: "nodelist \<Rightarrow> nodelist \<Rightarrow> (int \<times> nodelist \<times> nodelist) result" where
  "fn_match pat exp =
     rbind (match_nodes pat exp 0 0) (\<lambda>r. case r of (m, p, e) \<Rightarrow>
       Inr (if m then MATCH else NO_MATCH, pat\<lparr>cur_node := p\<rparr>, exp\<lparr>cur_node := e\<rparr>))"

end
