(* ===== verification/Fnmatch_Translate.thy ===== *)
theory Fnmatch_Translate
  imports Fnmatch
begin

text \<open>
  What \<open>fn_translate\<close> computes. \<open>split_path\<close> is the specification: the list of components of
  a path, or none where two slashes meet. \<open>nl_wf l cs\<close> says that the node list \<open>l\<close> represents
  the components \<open>cs\<close>.
\<close>

section \<open>Specification\<close>

text \<open>\<open>comps cur s\<close> splits \<open>s\<close>, with \<open>cur\<close> the part of the current component read so far.\<close>

fun comps :: "string \<Rightarrow> string \<Rightarrow> string list option" where
  "comps cur [] = Some (if cur = [] then [] else [cur])"
| "comps cur (c # s) =
     (if is_slash c then (if cur = [] then None else map_option ((#) cur) (comps [] s))
      else comps (cur @ [c]) s)"

definition path_body :: "string \<Rightarrow> string" where
  "path_body s = (case s of [] \<Rightarrow> [] | c # r \<Rightarrow> if is_slash c then r else s)"

definition split_path :: "string \<Rightarrow> string list option" where
  "split_path s = comps [] (path_body s)"

text \<open>The length of the text in front of component \<open>i\<close>.\<close>

definition pos :: "string list \<Rightarrow> nat \<Rightarrow> nat" where
  "pos cs i = length (concat (take i cs))"

text \<open>The kind of a pattern component.\<close>

definition comp_type :: "string \<Rightarrow> node_t" where
  "comp_type c =
     (if c = ''*'' then NODE_STAR
      else if c = ''**'' then NODE_DOUBLE_STAR
      else if CHR ''*'' \<in> set c then NODE_MIXED_STAR
      else NODE_CHARACTER)"

text \<open>The layout without the end mark, which the loop maintains, and with it.\<close>

definition layout :: "nodelist \<Rightarrow> string list \<Rightarrow> bool" where
  "layout l cs \<longleftrightarrow>
     node_cnt l = length cs \<and> cur_node l = 0 \<and>
     length (offsets l) = MAX_DIR_LEVEL \<and> length (nodetypes l) = MAX_DIR_LEVEL \<and>
     (\<forall>i < length cs. offsets l ! i = pos cs i) \<and>
     str l = concat cs @ zero_buf (MAX_PATH_LEN - length (concat cs)) \<and>
     length (concat cs) \<le> MAX_PATH_LEN \<and> length cs \<le> MAX_DIR_LEVEL"

definition nl_wf :: "nodelist \<Rightarrow> string list \<Rightarrow> bool" where
  "nl_wf l cs \<longleftrightarrow>
     node_cnt l = length cs \<and> length cs < MAX_DIR_LEVEL \<and>
     length (offsets l) = MAX_DIR_LEVEL \<and> length (nodetypes l) = MAX_DIR_LEVEL \<and>
     (\<forall>i \<le> length cs. offsets l ! i = pos cs i) \<and>
     str l = concat cs @ zero_buf (MAX_PATH_LEN - length (concat cs)) \<and>
     length (concat cs) < MAX_PATH_LEN \<and>
     (\<forall>c \<in> set cs. c \<noteq> [] \<and> NUL \<notin> set c)"

definition pat_wf :: "nodelist \<Rightarrow> string list \<Rightarrow> bool" where
  "pat_wf l cs \<longleftrightarrow> nl_wf l cs \<and> (\<forall>i < length cs. nodetypes l ! i = comp_type (cs ! i))"

section \<open>Positions and layouts\<close>

lemma pos_0 [simp]: "pos cs 0 = 0"
  by (simp add: pos_def)

lemma pos_Suc: "i < length cs \<Longrightarrow> pos cs (Suc i) = pos cs i + length (cs ! i)"
  by (simp add: pos_def take_Suc_conv_app_nth)

lemma pos_length [simp]: "pos cs (length cs) = length (concat cs)"
  by (simp add: pos_def)

lemma pos_append [simp]: "i \<le> length cs \<Longrightarrow> pos (cs @ ds) i = pos cs i"
  by (simp add: pos_def)

lemma pos_le: "pos cs i \<le> length (concat cs)"
  by (metis concat_take_drop le_add1 length_append pos_def)

lemma pos_mono: "i \<le> j \<Longrightarrow> pos cs i \<le> pos cs j"
proof -
  assume "i \<le> j"
  then have "take i cs = take i (take j cs)" by (simp add: min_absorb1)
  then show ?thesis unfolding pos_def
    by (metis concat_take_drop le_add1 length_append)
qed

lemma layout_calloc: "layout calloc_nodelist []"
  by (simp add: layout_def calloc_nodelist_def)

lemma zero_buf_Suc: "zero_buf (Suc n) = NUL # zero_buf n"
  by (simp add: zero_buf_def)

lemma put_char:
  assumes "length xs < n"
  shows "(xs @ zero_buf (n - length xs))[length xs := c]
    = (xs @ [c]) @ zero_buf (n - length (xs @ [c]))"
proof -
  obtain m where "n - length xs = Suc m" using assms by (metis Suc_diff_Suc)
  moreover from this have "n - Suc (length xs) = m" by simp
  ultimately show ?thesis by (simp add: zero_buf_Suc list_update_append)
qed

text \<open>The two kinds of step of the loop on a layout: open a component, extend the last one.\<close>

lemma layout_open:
  assumes "layout l cs" and "length cs < MAX_DIR_LEVEL" and "length (concat cs) < MAX_PATH_LEN"
  shows "layout (l\<lparr>offsets := (offsets l)[length cs := length (concat cs)],
      str := (str l)[length (concat cs) := c], node_cnt := node_cnt l + 1\<rparr>) (cs @ [[c]])"
proof -
  have "(offsets l)[length cs := length (concat cs)] ! i = pos (cs @ [[c]]) i"
    if "i < length (cs @ [[c]])" for i
  proof (cases "i = length cs")
    case True
    then show ?thesis using assms by (simp add: layout_def)
  next
    case False
    then show ?thesis using assms that by (simp add: layout_def)
  qed
  then show ?thesis
    using assms put_char [of "concat cs" MAX_PATH_LEN c] by (simp add: layout_def)
qed

lemma layout_extend:
  assumes "layout l (cs @ [d])" and "length (concat (cs @ [d])) < MAX_PATH_LEN"
  shows "layout (l\<lparr>str := (str l)[length (concat (cs @ [d])) := c]\<rparr>) (cs @ [d @ [c]])"
proof -
  have "pos (cs @ [d]) i = pos (cs @ [d @ [c]]) i" if "i < length (cs @ [d])" for i
    using that by simp
  then show ?thesis
    using assms put_char [of "concat (cs @ [d])" MAX_PATH_LEN c] by (simp add: layout_def)
qed

section \<open>The loop computes the components\<close>

text \<open>
  \<open>D\<close> are the finished components and \<open>cur\<close> the open one (empty right behind a slash).
  \<open>room D cur s\<close> says that what is still to be read certainly fits into the two arrays.
\<close>

definition room :: "string list \<Rightarrow> string \<Rightarrow> string \<Rightarrow> bool" where
  "room D cur s \<longleftrightarrow>
     length (concat D) + length cur + length s < MAX_PATH_LEN \<and>
     length D + length (filter is_slash s) + 1 < MAX_DIR_LEVEL"

definition loop_post ::
  "string list \<Rightarrow> string \<Rightarrow> string \<Rightarrow> (nodelist \<times> int) option result \<Rightarrow> bool" where
  "loop_post D cur s r \<longleftrightarrow>
     r = Inl OutOfBounds \<and> \<not> room D cur s \<or>
     (case comps cur s of
        None \<Rightarrow> r = Inr None
      | Some cs \<Rightarrow> \<exists>l'. r = Inr (Some (l', int (length (concat (D @ cs))))) \<and> layout l' (D @ cs))"

lemma loop_post_slash:
  "loop_post (D @ [cur]) [] s r \<Longrightarrow> cur \<noteq> [] \<Longrightarrow> is_slash c \<Longrightarrow> loop_post D cur (c # s) r"
  by (auto simp: loop_post_def room_def split: option.splits)

lemma loop_post_char:
  "loop_post D (cur @ [c]) s r \<Longrightarrow> \<not> is_slash c \<Longrightarrow> loop_post D cur (c # s) r"
  by (auto simp: loop_post_def room_def)

lemma translate_loop_start:
  assumes l: "layout l D" and d: "destPtr = int (length (concat D))"
    and c: "\<not> is_slash c" and gap: "strPtr - last_slash = 1"
  shows "(\<not> room D [] (c # s) \<and>
      translate_loop (c # s) strPtr last_slash destPtr l = Inl OutOfBounds) \<or>
    (\<exists>l'. layout l' (D @ [[c]]) \<and> translate_loop (c # s) strPtr last_slash destPtr l
      = translate_loop s (strPtr + 1) last_slash (destPtr + 1) l')"
proof (cases "length D < MAX_DIR_LEVEL \<and> length (concat D) < MAX_PATH_LEN")
  case True
  let ?l = "l\<lparr>offsets := (offsets l)[length D := length (concat D)],
    str := (str l)[length (concat D) := c], node_cnt := node_cnt l + 1\<rparr>"
  have "layout ?l (D @ [[c]])"
    using l True by (intro layout_open) auto
  moreover have "translate_loop (c # s) strPtr last_slash destPtr l
      = translate_loop s (strPtr + 1) last_slash (destPtr + 1) ?l"
    using l d c gap True by (simp add: layout_def MAX_PATH_LEN_def)
  ultimately show ?thesis by blast
next
  case False
  then show ?thesis
    using l d c gap by (auto simp: layout_def room_def arr_set_def)
qed

lemma translate_loop_inner:
  assumes l: "layout l (D @ [cur])" and d: "destPtr = int (length (concat D) + length cur)"
    and c: "\<not> is_slash c" and gap: "strPtr - last_slash \<noteq> 1"
  shows "(\<not> room D cur (c # s) \<and>
      translate_loop (c # s) strPtr last_slash destPtr l = Inl OutOfBounds) \<or>
    (\<exists>l'. layout l' (D @ [cur @ [c]]) \<and> translate_loop (c # s) strPtr last_slash destPtr l
      = translate_loop s (strPtr + 1) last_slash (destPtr + 1) l')"
proof (cases "length (concat (D @ [cur])) < MAX_PATH_LEN")
  case True
  let ?l = "l\<lparr>str := (str l)[length (concat (D @ [cur])) := c]\<rparr>"
  have "layout ?l (D @ [cur @ [c]])"
    using l True by (intro layout_extend) auto
  moreover have "arr_set (str l) destPtr c = Inr ((str l)[length (concat (D @ [cur])) := c])"
    using l d True arr_set_nat [of "length (concat (D @ [cur]))" "str l" c]
    by (simp add: layout_def)
  ultimately show ?thesis using c gap by auto
next
  case False
  then show ?thesis using l d c gap by (auto simp: layout_def room_def arr_set_def)
qed

lemma translate_loop_comps:
  assumes "layout l (D @ (if cur = [] then [] else [cur]))"
    and "destPtr = int (length (concat D) + length cur)"
    and "(strPtr - last_slash = 1) = (cur = [])"
    and "strPtr - last_slash \<ge> 1"
  shows "loop_post D cur s (translate_loop s strPtr last_slash destPtr l)"
  using assms
proof (induction s arbitrary: D cur l destPtr strPtr last_slash)
  case Nil
  then show ?case by (auto simp: loop_post_def)
next
  case (Cons c s)
  show ?case
  proof (cases "is_slash c")
    case slash: True
    show ?thesis
    proof (cases "cur = []")
      case True
      then show ?thesis using Cons.prems slash by (simp add: loop_post_def)
    next
      case False
      have "loop_post (D @ [cur]) [] s (translate_loop s (strPtr + 1) strPtr destPtr l)"
        by (rule Cons.IH) (use Cons.prems False in auto)
      then show ?thesis using Cons.prems False slash by (simp add: loop_post_slash)
    qed
  next
    case char: False
    have "(\<not> room D cur (c # s) \<and>
        translate_loop (c # s) strPtr last_slash destPtr l = Inl OutOfBounds) \<or>
      (\<exists>l'. layout l' (D @ [cur @ [c]]) \<and> translate_loop (c # s) strPtr last_slash destPtr l
        = translate_loop s (strPtr + 1) last_slash (destPtr + 1) l')"
    proof (cases "cur = []")
      case True
      then show ?thesis
        using translate_loop_start [of l D destPtr c strPtr last_slash s] Cons.prems char by simp
    next
      case False
      then show ?thesis
        using translate_loop_inner [of l D cur destPtr c strPtr last_slash s] Cons.prems char
        by simp
    qed
    then show ?thesis
    proof
      assume "\<not> room D cur (c # s) \<and>
        translate_loop (c # s) strPtr last_slash destPtr l = Inl OutOfBounds"
      then show ?thesis by (simp add: loop_post_def)
    next
      assume "\<exists>l'. layout l' (D @ [cur @ [c]]) \<and>
        translate_loop (c # s) strPtr last_slash destPtr l
          = translate_loop s (strPtr + 1) last_slash (destPtr + 1) l'"
      then obtain l' where l': "layout l' (D @ [cur @ [c]])" and
        eq: "translate_loop (c # s) strPtr last_slash destPtr l
          = translate_loop s (strPtr + 1) last_slash (destPtr + 1) l'" by blast
      have "loop_post D (cur @ [c]) s (translate_loop s (strPtr + 1) last_slash (destPtr + 1) l')"
        by (rule Cons.IH) (use l' Cons.prems in auto)
      then show ?thesis unfolding eq using char by (rule loop_post_char)
    qed
  qed
qed

section \<open>Components of a path\<close>

lemma comps_elems:
  "comps cur s = Some cs \<Longrightarrow> NUL \<notin> set cur \<Longrightarrow> NUL \<notin> set s \<Longrightarrow>
   \<forall>c \<in> set cs. c \<noteq> [] \<and> NUL \<notin> set c"
  by (induction cur s arbitrary: cs rule: comps.induct) (auto split: if_splits)

lemma comps_length:
  "comps cur s = Some cs \<Longrightarrow>
   length (concat cs) + length (filter is_slash s) = length cur + length s"
  by (induction cur s arbitrary: cs rule: comps.induct) (auto split: if_splits)

lemma comps_count:
  "comps cur s = Some cs \<Longrightarrow> length cs \<le> Suc (length (filter is_slash s))"
  by (induction cur s arbitrary: cs rule: comps.induct) (auto split: if_splits)

lemma set_path_body: "set (path_body s) \<subseteq> set s"
  by (auto simp: path_body_def split: list.splits if_splits)

lemma split_path_elems:
  "split_path s = Some cs \<Longrightarrow> NUL \<notin> set s \<Longrightarrow> \<forall>c \<in> set cs. c \<noteq> [] \<and> NUL \<notin> set c"
  using comps_elems [of "[]" "path_body s" cs] set_path_body [of s]
  by (auto simp: split_path_def)

lemma comps_append_plain:
  "\<forall>c \<in> set t. \<not> is_slash c \<Longrightarrow> comps cur (t @ s) = comps (cur @ t) s"
  by (induction t arbitrary: cur) auto

text \<open>Rendering components as an absolute path, and splitting it again.\<close>

definition render :: "string list \<Rightarrow> string" where
  "render cs = concat (map (\<lambda>c. ''/'' @ c) cs)"

definition good_comp :: "string \<Rightarrow> bool" where
  "good_comp c \<longleftrightarrow> c \<noteq> [] \<and> NUL \<notin> set c \<and> (\<forall>x \<in> set c. \<not> is_slash x)"

lemma comps_render:
  "\<forall>c \<in> set cs. good_comp c \<Longrightarrow> cur \<noteq> [] \<Longrightarrow> comps cur (render cs) = Some (cur # cs)"
proof (induction cs arbitrary: cur)
  case Nil
  then show ?case by (simp add: render_def)
next
  case (Cons c cs)
  have "comps [] (c @ render cs) = comps c (render cs)"
    using Cons.prems(1) comps_append_plain [of c "[]" "render cs"] by (simp add: good_comp_def)
  also have "\<dots> = Some (c # cs)"
    using Cons by (simp add: good_comp_def)
  finally show ?case
    using Cons.prems(2) by (simp add: render_def is_slash_def)
qed

lemma split_path_render:
  assumes "\<forall>c \<in> set cs. good_comp c"
  shows "split_path (render cs) = Some cs"
proof (cases cs)
  case Nil
  then show ?thesis by (simp add: split_path_def path_body_def render_def)
next
  case (Cons c ds)
  have "split_path (render cs) = comps [] (c @ render ds)"
    by (simp add: Cons split_path_def path_body_def render_def is_slash_def)
  also have "\<dots> = comps c (render ds)"
    using assms Cons comps_append_plain [of c "[]" "render ds"] by (simp add: good_comp_def)
  also have "\<dots> = Some cs"
    using assms Cons comps_render [of ds c] by (simp add: good_comp_def)
  finally show ?thesis .
qed

section \<open>The whole translation\<close>

lemma find_node_type_comp:
  assumes "i < length cs" and "c = cs ! i"
    and s: "s = concat cs @ zs"
  shows "find_node_type s (pos cs i) (pos cs (Suc i)) = comp_type c"
proof -
  have slice: "s ! (pos cs i + j) = c ! j" if "j < length c" for j
  proof -
    have "concat cs = concat (take i cs) @ c @ concat (drop (Suc i) cs)"
      using assms(1,2) concat_split_nth by blast
    then show ?thesis using that by (simp add: s pos_def nth_append)
  qed
  have end_pos: "pos cs (Suc i) = pos cs i + length c"
    using assms(1,2) by (simp add: pos_Suc)
  have mem: "(\<exists>k \<in> set [pos cs i ..< pos cs (Suc i)]. s ! k = x) \<longleftrightarrow> x \<in> set c" for x
  proof
    assume "\<exists>k \<in> set [pos cs i ..< pos cs (Suc i)]. s ! k = x"
    then obtain j where "j < length c" and "s ! (pos cs i + j) = x"
      unfolding end_pos by (metis add_less_cancel_left atLeastLessThan_iff le_Suc_ex set_upt)
    then show "x \<in> set c" using slice by (metis nth_mem)
  next
    assume "x \<in> set c"
    then obtain j where j: "j < length c" "c ! j = x" by (metis in_set_conv_nth)
    then have "pos cs i + j \<in> set [pos cs i ..< pos cs (Suc i)]" by (simp add: end_pos)
    then show "\<exists>k \<in> set [pos cs i ..< pos cs (Suc i)]. s ! k = x"
      using j slice by blast
  qed
  have one: "length c = 1 \<and> s ! pos cs i = CHR ''*'' \<longleftrightarrow> c = ''*''"
    using slice [of 0] by (cases c) auto
  have two: "length c = 2 \<and> s ! pos cs i = CHR ''*'' \<and> s ! (pos cs i + 1) = CHR ''*''
      \<longleftrightarrow> c = ''**''"
    using slice [of 0] slice [of 1]
    by (auto simp: numeral_2_eq_2 length_Suc_conv)
  show ?thesis
    unfolding find_node_type_def comp_type_def Let_def mem
    using one two by (simp add: end_pos)
qed

lemma set_nodetypes_pat_wf:
  assumes "nl_wf l cs"
  shows "pat_wf (set_nodetypes l) cs"
proof -
  have "find_node_type (str l) (offsets l ! i) (offsets l ! (i + 1)) = comp_type (cs ! i)"
    if "i < length cs" for i
    using that assms find_node_type_comp [of i cs "cs ! i" "str l"] by (simp add: nl_wf_def)
  then show ?thesis
    using assms by (auto simp: pat_wf_def nl_wf_def set_nodetypes_def nth_append)
qed

text \<open>What \<open>fn_translate\<close> does with a path: the three possible outcomes.\<close>

definition translate_post :: "string \<Rightarrow> bool \<Rightarrow> nodelist option result \<Rightarrow> bool" where
  "translate_post s is_pattern r \<longleftrightarrow>
     (case split_path s of
        None \<Rightarrow> r = Inr None
      | Some cs \<Rightarrow> \<exists>l. r = Inr (Some l) \<and> cur_node l = 0 \<and>
          (if is_pattern then pat_wf l cs else nl_wf l cs))"

text \<open>
  \<open>last_slash\<close> and \<open>strPtr\<close> as \<open>fn_translate\<close> sets them differ by one, whether or not the
  path starts with a slash.
\<close>

lemma fn_translate_unfold:
  "\<exists>strPtr last_slash. strPtr - last_slash = 1 \<and>
     fn_translate s is_pattern =
      rbind (translate_loop (path_body s) strPtr last_slash 0 calloc_nodelist)
        (\<lambda>r. case r of
           None \<Rightarrow> Inr None
         | Some (pat, destPtr) \<Rightarrow>
             rbind (arr_set (offsets pat) (int (node_cnt pat)) (nat destPtr mod 256)) (\<lambda>offs.
               let pat' = pat\<lparr>offsets := offs\<rparr> in
               Inr (Some (if is_pattern then set_nodetypes pat' else pat'))))"
proof (cases "\<exists>c r. s = c # r \<and> is_slash c")
  case True
  then show ?thesis
    by (intro exI [of _ 1] exI [of _ 0]) (auto simp: fn_translate_def path_body_def)
next
  case False
  then show ?thesis
    by (intro exI [of _ 0] exI [of _ "-1"])
      (auto simp: fn_translate_def path_body_def split: list.splits)
qed

lemma layout_end_mark:
  assumes "layout l cs" and "length cs < MAX_DIR_LEVEL" and "length (concat cs) < MAX_PATH_LEN"
    and "\<forall>c \<in> set cs. c \<noteq> [] \<and> NUL \<notin> set c"
  shows "nl_wf (l\<lparr>offsets := (offsets l)[length cs := length (concat cs)]\<rparr>) cs"
  using assms by (auto simp: layout_def nl_wf_def nth_list_update)

lemma fn_translate_cases:
  assumes nul: "NUL \<notin> set s"
  shows "translate_post s is_pattern (fn_translate s is_pattern) \<or>
    fn_translate s is_pattern = Inl OutOfBounds \<and> \<not> room [] [] (path_body s) \<or>
    (\<exists>cs. split_path s = Some cs \<and> length (concat cs) = MAX_PATH_LEN)"
proof -
  obtain strPtr last_slash where gap: "strPtr - last_slash = 1" and
    eq: "fn_translate s is_pattern =
      rbind (translate_loop (path_body s) strPtr last_slash 0 calloc_nodelist)
        (\<lambda>r. case r of
           None \<Rightarrow> Inr None
         | Some (pat, destPtr) \<Rightarrow>
             rbind (arr_set (offsets pat) (int (node_cnt pat)) (nat destPtr mod 256)) (\<lambda>offs.
               let pat' = pat\<lparr>offsets := offs\<rparr> in
               Inr (Some (if is_pattern then set_nodetypes pat' else pat'))))"
    using fn_translate_unfold by blast
  have post: "loop_post [] [] (path_body s)
      (translate_loop (path_body s) strPtr last_slash 0 calloc_nodelist)"
    by (rule translate_loop_comps) (use gap layout_calloc in auto)
  show ?thesis
  proof (cases "split_path s")
    case None
    then show ?thesis
      using post by (auto simp: eq loop_post_def split_path_def translate_post_def)
  next
    case (Some cs)
    have elems: "\<forall>c \<in> set cs. c \<noteq> [] \<and> NUL \<notin> set c"
      using split_path_elems [OF Some nul] .
    from post Some consider
      (oob) "translate_loop (path_body s) strPtr last_slash 0 calloc_nodelist = Inl OutOfBounds"
        "\<not> room [] [] (path_body s)"
    | (ok) l where "translate_loop (path_body s) strPtr last_slash 0 calloc_nodelist
        = Inr (Some (l, int (length (concat cs))))" "layout l cs"
      by (auto simp: loop_post_def split_path_def)
    then show ?thesis
    proof cases
      case oob
      then show ?thesis by (simp add: eq)
    next
      case ok
      show ?thesis
      proof (cases "length cs = MAX_DIR_LEVEL")
        case True
        have "length cs \<le> Suc (length (filter is_slash (path_body s)))"
          using Some unfolding split_path_def by (rule comps_count)
        with True ok show ?thesis
          by (simp add: eq layout_def arr_set_def room_def)
      next
        case lv: False
        show ?thesis
        proof (cases "length (concat cs) = MAX_PATH_LEN")
          case False
          with lv ok have fits: "length cs < MAX_DIR_LEVEL" "length (concat cs) < MAX_PATH_LEN"
            by (auto simp: layout_def)
          let ?l = "l\<lparr>offsets := (offsets l)[length cs := length (concat cs)]\<rparr>"
          have wf: "nl_wf ?l cs" using ok(2) fits elems by (rule layout_end_mark)
          have "fn_translate s is_pattern
              = Inr (Some (if is_pattern then set_nodetypes ?l else ?l))"
            using ok fits by (simp add: eq layout_def MAX_PATH_LEN_def)
          then show ?thesis
            using wf set_nodetypes_pat_wf [OF wf] ok(2) Some
            by (auto simp: translate_post_def layout_def set_nodetypes_def)
        qed (use Some in blast)
      qed
    qed
  qed
qed

text \<open>A path short enough for both arrays of the node list.\<close>

definition short_path :: "string \<Rightarrow> bool" where
  "short_path s \<longleftrightarrow> NUL \<notin> set s \<and> room [] [] (path_body s)"

lemma translate_short:
  assumes "short_path s"
  shows "translate_post s b (fn_translate s b)"
proof -
  have "length (concat cs) < MAX_PATH_LEN" if "split_path s = Some cs" for cs
    using that assms comps_length [of "[]" "path_body s" cs]
    by (simp add: short_path_def room_def split_path_def)
  then show ?thesis
    using assms fn_translate_cases [of s b] unfolding short_path_def by fastforce
qed

section \<open>Properties\<close>

text \<open>The components a node list holds, read back from its offsets and characters.\<close>

definition nl_components :: "nodelist \<Rightarrow> string list" where
  "nl_components l =
     map (\<lambda>i. take (offsets l ! (i + 1) - offsets l ! i) (drop (offsets l ! i) (str l)))
       [0 ..< node_cnt l]"

lemma nl_components_wf:
  assumes wf: "nl_wf l cs"
  shows "nl_components l = cs"
proof (rule nth_equalityI)
  show "length (nl_components l) = length cs" using wf by (simp add: nl_components_def nl_wf_def)
  fix i assume "i < length (nl_components l)"
  then have i: "i < length cs" using wf by (simp add: nl_components_def nl_wf_def)
  then have "offsets l ! i = pos cs i" "offsets l ! Suc i = pos cs i + length (cs ! i)"
    using wf by (auto simp: nl_wf_def pos_Suc)
  moreover have "concat cs = concat (take i cs) @ cs ! i @ concat (drop (Suc i) cs)"
    using i by (rule concat_split_nth)
  then have "drop (pos cs i) (str l) = cs ! i @ concat (drop (Suc i) cs)
      @ zero_buf (MAX_PATH_LEN - length (concat cs))"
    using wf by (simp add: nl_wf_def pos_def)
  moreover have "nl_components l ! i
      = take (offsets l ! Suc i - offsets l ! i) (drop (offsets l ! i) (str l))"
    using \<open>i < length (nl_components l)\<close> by (simp add: nl_components_def)
  ultimately show "nl_components l ! i = cs ! i" by simp
qed

text \<open>
  On a path of fewer than 256 characters and at most 12 components, \<open>fn_translate\<close>
  never writes outside its arrays; it returns null exactly for a path in which two slashes meet,
  and otherwise a list that holds the components of the path, typed when it is a pattern.
\<close>

theorem fn_translate_spec:
  assumes "NUL \<notin> set s" and "length (path_body s) < 256"
    and "length (filter is_slash (path_body s)) < 12"
  shows "case split_path s of
      None \<Rightarrow> fn_translate s is_pattern = Inr None
    | Some cs \<Rightarrow> \<exists>l. fn_translate s is_pattern = Inr (Some l) \<and> nl_components l = cs \<and>
        cur_node l = 0 \<and>
        (is_pattern \<longrightarrow> take (node_cnt l) (nodetypes l) = map comp_type cs)"
proof -
  have "short_path s"
    using assms by (simp add: short_path_def room_def MAX_PATH_LEN_def MAX_DIR_LEVEL_def)
  from translate_short [OF this, of is_pattern] show ?thesis
    unfolding translate_post_def
    by (auto split: option.splits if_splits simp: pat_wf_def nl_components_wf
        intro!: nth_equalityI) (auto simp: nl_wf_def)
qed

theorem fn_translate_spec_witness:
  "\<exists>l. fn_translate ''/home/*.txt'' True = Inr (Some l) \<and> nl_components l = [''home'', ''*.txt''] \<and>
     cur_node l = 0 \<and> take (node_cnt l) (nodetypes l) = [NODE_CHARACTER, NODE_MIXED_STAR]"
proof -
  have s: "split_path ''/home/*.txt'' = Some [''home'', ''*.txt'']" by code_simp
  have t: "map comp_type [''home'', ''*.txt''] = [NODE_CHARACTER, NODE_MIXED_STAR]" by code_simp
  have h: "NUL \<notin> set ''/home/*.txt''" "length (path_body ''/home/*.txt'') < 256"
    "length (filter is_slash (path_body ''/home/*.txt'')) < 12" by code_simp+
  show ?thesis using fn_translate_spec [OF h, of True] by (simp only: s t option.case) blast
qed

text \<open>
  Round trip: the components of a path written with slashes between them come back
  from the translated list, for at most 12 components of fewer than 256 characters in all.
\<close>

theorem fn_translate_roundtrip:
  assumes "\<forall>c \<in> set cs. good_comp c" and "length cs \<le> 12" and "length (render cs) \<le> 256"
  shows "\<exists>l. fn_translate (render cs) is_pattern = Inr (Some l) \<and> nl_components l = cs"
proof -
  have split: "split_path (render cs) = Some cs" using assms(1) by (rule split_path_render)
  have nul: "NUL \<notin> set (render cs)"
    using assms(1) by (auto simp: render_def good_comp_def NUL_def)
  have "short_path (render cs)"
  proof (cases cs)
    case Nil
    then show ?thesis
      by (simp add: render_def short_path_def room_def path_body_def MAX_PATH_LEN_def
          MAX_DIR_LEVEL_def)
  next
    case (Cons c ds)
    have body: "path_body (render cs) = c @ render ds"
      by (simp add: Cons render_def path_body_def is_slash_def)
    have none: "\<forall>d \<in> set cs. filter is_slash d = []"
      using assms(1) by (auto simp: good_comp_def filter_empty_conv)
    have "length (filter is_slash (render es)) = length es" if "set es \<subseteq> set cs" for es
      using that none by (induction es) (auto simp: render_def is_slash_def)
    then have "length (filter is_slash (render ds)) = length ds" by (auto simp: Cons)
    moreover have "length (render cs) = Suc (length c + length (render ds))"
      by (simp add: Cons render_def)
    ultimately show ?thesis
      using nul none assms(2,3) unfolding short_path_def room_def body
      by (simp add: Cons MAX_PATH_LEN_def MAX_DIR_LEVEL_def)
  qed
  from translate_short [OF this, of is_pattern] show ?thesis
    using nl_components_wf by (auto simp: translate_post_def split pat_wf_def split: if_splits)
qed

theorem fn_translate_roundtrip_witness:
  "\<exists>l. fn_translate ''/home/meo/a.txt'' False = Inr (Some l) \<and>
     nl_components l = [''home'', ''meo'', ''a.txt'']"
proof -
  have r: "render [''home'', ''meo'', ''a.txt''] = ''/home/meo/a.txt''" by code_simp
  have "\<forall>c \<in> set [''home'', ''meo'', ''a.txt'']. good_comp c" by code_simp
  from fn_translate_roundtrip [OF this, of False] show ?thesis by (simp only: r) simp
qed

text \<open>
  The arrays bound what can be translated: a path with 13 or more components
  (where the header promises 13 levels), or with more than 256 characters in its names, makes
  \<open>fn_translate\<close> write outside the node list, although a path may have 1023 characters.
\<close>

theorem fn_translate_overflow:
  assumes "split_path s = Some cs" and "NUL \<notin> set s"
    and "length cs \<ge> 13 \<and> length (concat cs) < 256 \<or> length (concat cs) > 256"
  shows "fn_translate s is_pattern = Inl OutOfBounds"
  using fn_translate_cases [OF assms(2), of is_pattern] assms(1,3)
  by (auto simp: translate_post_def pat_wf_def nl_wf_def MAX_DIR_LEVEL_def MAX_PATH_LEN_def
      split: if_splits)

theorem fn_translate_overflow_witness:
  "fn_translate ''/a/b/c/d/e/f/g/h/i/j/k/l/m'' False = Inl OutOfBounds"
proof -
  let ?cs = "[''a'', ''b'', ''c'', ''d'', ''e'', ''f'', ''g'', ''h'', ''i'', ''j'', ''k'', ''l'', ''m'']"
  have s: "split_path ''/a/b/c/d/e/f/g/h/i/j/k/l/m'' = Some ?cs" by code_simp
  have n: "NUL \<notin> set ''/a/b/c/d/e/f/g/h/i/j/k/l/m''" by code_simp
  show ?thesis by (rule fn_translate_overflow [OF s n]) simp
qed

end
