(* ===== verification/Fnmatch_Match.thy ===== *)
theory Fnmatch_Match
  imports Fnmatch_Translate "HOL-Library.Sublist"
begin

text \<open>
  What \<open>fn_match\<close> decides. \<open>glob\<close> is the meaning of a pattern component with stars;
  \<open>node_outcome\<close> is what \<open>_match_cur_node\<close> really answers, which looks at the characters of
  the neighbouring components too, because the node list keeps no separators.
\<close>

section \<open>Specification of one component\<close>

fun glob :: "string \<Rightarrow> string \<Rightarrow> bool" where
  "glob [] x = (x = [])"
| "glob (c # cs) x =
     (if c = CHR ''*'' then (\<exists>k \<in> set [0 ..< Suc (length x)]. glob cs (drop k x))
      else (case x of [] \<Rightarrow> False | y # ys \<Rightarrow> c = y \<and> glob cs ys))"

text \<open>The text in front of the first star and behind the last one.\<close>

definition lead :: "string \<Rightarrow> string" where
  "lead c = takeWhile (\<lambda>x. x \<noteq> CHR ''*'') c"

definition trail :: "string \<Rightarrow> string" where
  "trail c = rev (takeWhile (\<lambda>x. x \<noteq> CHR ''*'') (rev c))"

definition suffix_outcome :: "string \<Rightarrow> string \<Rightarrow> bool result" where
  "suffix_outcome u f =
     (if suffix u f then Inr True else if suffix f u then Inl OutOfBounds else Inr False)"

definition node_outcome :: "string \<Rightarrow> string list \<Rightarrow> nat \<Rightarrow> bool result" where
  "node_outcome c xs e =
     (let before = concat (take (Suc e) xs); after = concat (drop e xs) in
      case comp_type c of
        NODE_CHARACTER \<Rightarrow> Inr (c = xs ! e)
      | NODE_STAR \<Rightarrow> Inr True
      | NODE_MIXED_STAR \<Rightarrow>
          (if hd c = CHR ''*'' then suffix_outcome (tl c) before
           else if last c = CHR ''*'' then Inr (prefix (butlast c) after)
           else if prefix (lead c) after then suffix_outcome (trail c) before
           else Inr False)
      | _ \<Rightarrow> Inr False)"

section \<open>The comparison loops\<close>

lemma drop_nth_Cons: "drop i xs = y # ys \<Longrightarrow> i < length xs \<and> xs ! i = y \<and> drop (Suc i) xs = ys"
  by (metis drop_eq_Nil2 linorder_not_less list.distinct(1) list.inject Cons_nth_drop_Suc)

lemma arr_get_drop: "drop i xs = y # ys \<Longrightarrow> arr_get xs (int i) = Inr y"
  using drop_nth_Cons by fastforce

lemma strncmp_eq_take:
  assumes "n \<le> length (drop i a)" and "n \<le> length (drop j b)" and "NUL \<notin> set (take n (drop i a))"
  shows "strncmp_eq a (int i) b (int j) n = Inr (take n (drop i a) = take n (drop j b))"
  using assms
proof (induction n arbitrary: i j)
  case (Suc n)
  then obtain x as y bs where x: "drop i a = x # as" and y: "drop j b = y # bs"
    by (metis Zero_not_Suc le_zero_eq length_0_conv list.exhaust)
  note ax = drop_nth_Cons [OF x] and by' = drop_nth_Cons [OF y]
  have "strncmp_eq a (int (Suc i)) b (int (Suc j)) n = Inr (take n as = take n bs)"
    using Suc.IH [of "Suc i" "Suc j"] Suc.prems x y ax by' by auto
  moreover have "x \<noteq> NUL" using Suc.prems x by auto
  ultimately show ?case
    using arr_get_drop [OF x] arr_get_drop [OF y] x y by (simp add: add.commute)
qed simp

lemma cmp_up_prefix:
  assumes "take (length t) (drop i ps) = t" and "drop j fs = F @ NUL # zs" and "NUL \<notin> set t"
  shows "cmp_up ps fs (int (i + length t)) (int i) (int j) = Inr (prefix t F)"
  using assms
proof (induction t arbitrary: i j F)
  case Nil
  then show ?case by (simp add: cmp_up.simps)
next
  case (Cons c t)
  then obtain ps' where x: "drop i ps = c # ps'" and t: "take (length t) ps' = t"
    by (cases "drop i ps") auto
  note dx = drop_nth_Cons [OF x]
  show ?case
  proof (cases F)
    case Nil
    then have y: "drop j fs = NUL # zs" using Cons.prems by simp
    show ?thesis
      using arr_get_drop [OF x] arr_get_drop [OF y] Cons.prems(3) Nil
      by (subst cmp_up.simps) auto
  next
    case F: (Cons f F')
    then have y: "drop j fs = f # F' @ NUL # zs" using Cons.prems by simp
    note dy = drop_nth_Cons [OF y]
    have "cmp_up ps fs (int (Suc i + length t)) (int (Suc i)) (int (Suc j)) = Inr (prefix t F')"
      by (rule Cons.IH) (use dx dy t Cons.prems in auto)
    then show ?thesis
      using arr_get_drop [OF x] arr_get_drop [OF y] F
      by (simp add: cmp_up.simps [of ps fs _ "int i"] add.commute add.left_commute)
  qed
qed

lemma cmp_up_star_prefix:
  assumes "drop i ps = t @ CHR ''*'' # qs" and "drop j fs = F @ NUL # zs"
    and "NUL \<notin> set t" and "CHR ''*'' \<notin> set t"
  shows "cmp_up_star ps fs (int i) (int j) = Inr (prefix t F)"
  using assms
proof (induction t arbitrary: i j F)
  case Nil
  then show ?case using arr_get_drop [of i ps] by (simp add: cmp_up_star.simps)
next
  case (Cons c t)
  then have x: "drop i ps = c # (t @ CHR ''*'' # qs)" by simp
  note dx = drop_nth_Cons [OF x]
  show ?case
  proof (cases F)
    case Nil
    then have y: "drop j fs = NUL # zs" using Cons.prems by simp
    show ?thesis
      using arr_get_drop [OF x] arr_get_drop [OF y] Cons.prems(3,4) Nil
      by (subst cmp_up_star.simps) auto
  next
    case F: (Cons f F')
    then have y: "drop j fs = f # F' @ NUL # zs" using Cons.prems by simp
    note dy = drop_nth_Cons [OF y]
    have "cmp_up_star ps fs (int (Suc i)) (int (Suc j)) = Inr (prefix t F')"
      by (rule Cons.IH) (use dx dy Cons.prems in auto)
    then show ?thesis
      using arr_get_drop [OF x] arr_get_drop [OF y] F Cons.prems(4)
      by (subst cmp_up_star.simps) (auto simp: add.commute)
  qed
qed

text \<open>
  The loops that run backwards. \<open>F\<close> is everything in front of and at the path pointer; when
  \<open>F\<close> runs out before a difference was met, the pointer has left the buffer.
\<close>

lemma arr_get_last:
  "take (Suc n) xs = F @ [x] \<Longrightarrow> length F = n \<Longrightarrow> arr_get xs (int n) = Inr x"
  by (metis arr_get_nat length_append_singleton length_take lessI min_less_iff_conj nth_append_length
      nth_take)

lemma take_snocD: "take (length (F @ [f])) xs = F @ [f] \<Longrightarrow> take (length F) xs = F"
  by (metis append_take_drop_id butlast_snoc butlast_take diff_Suc_1 length_append_singleton
      length_take min.cobounded1 le_refl)

lemma suffix_snoc_snoc [simp]: "suffix (xs @ [x]) (ys @ [y]) \<longleftrightarrow> x = y \<and> suffix xs ys"
  by (auto simp: suffix_def)

lemma suffix_outcome_snoc:
  "suffix_outcome (u @ [c]) (F @ [f]) = (if c \<noteq> f then Inr False else suffix_outcome u F)"
  by (auto simp: suffix_outcome_def)

lemma cmp_down_suffix:
  assumes "take (Suc (i + length u)) ps = P @ u" and "length P = Suc i"
    and "take (length F) fs = F"
  shows "cmp_down ps fs (int i) (int (i + length u)) (int (length F) - 1) = suffix_outcome u F"
  using assms
proof (induction u arbitrary: F rule: rev_induct)
  case Nil
  then show ?case by (simp add: cmp_down.simps suffix_outcome_def)
next
  case (snoc c u)
  have x: "arr_get ps (int (i + length (u @ [c]))) = Inr c"
    by (rule arr_get_last [where F = "P @ u"]) (use snoc.prems in auto)
  have P: "take (Suc (i + length u)) ps = P @ u"
    using arg_cong [where f = butlast, OF snoc.prems(1)] snoc.prems
    by (metis (no_types, lifting) add_Suc_right append_assoc butlast_snoc butlast_take
        diff_Suc_1 length_append length_append_singleton length_take min.cobounded1 
        add.commute)
  show ?case
  proof (cases F rule: rev_cases)
    case Nil
    then show ?thesis
      using x by (simp add: cmp_down.simps [of ps fs "int i"] suffix_outcome_def)
  next
    case F: (snoc F' f)
    have y: "arr_get fs (int (length F')) = Inr f"
      by (rule arr_get_last [where F = F']) (use F snoc.prems in auto)
    have "take (length F') fs = F'"
      using snoc.prems(3) F by (metis take_snocD)
    then have "cmp_down ps fs (int i) (int (i + length u)) (int (length F') - 1)
        = suffix_outcome u F'"
      by (rule snoc.IH [OF P snoc.prems(2)])
    then show ?thesis
      using x y F
      by (subst cmp_down.simps) (simp add: suffix_outcome_snoc)
  qed
qed

text \<open>\<open>m\<close> is the text behind the first star up to the last one, so the loop stops at the last.\<close>

lemma cmp_down_star_suffix:
  assumes "take (Suc (i + length u)) ps = (P @ [CHR ''*'']) @ u" and "length P = i"
    and "CHR ''*'' \<notin> set u" and "take (length F) fs = F"
  shows "cmp_down_star ps fs (int (i + length u)) (int (length F) - 1) = suffix_outcome u F"
  using assms
proof (induction u arbitrary: F rule: rev_induct)
  case Nil
  have "arr_get ps (int i) = Inr (CHR ''*'')"
    by (rule arr_get_last [where F = P]) (use Nil.prems in auto)
  then show ?case by (simp add: cmp_down_star.simps suffix_outcome_def)
next
  case (snoc c u)
  have x: "arr_get ps (int (i + length (u @ [c]))) = Inr c"
    by (rule arr_get_last [where F = "P @ CHR ''*'' # u"]) (use snoc.prems in auto)
  have P: "take (Suc (i + length u)) ps = (P @ [CHR ''*'']) @ u"
    using arg_cong [where f = butlast, OF snoc.prems(1)] snoc.prems
    by (metis (no_types, lifting) add_Suc_right append_assoc butlast_snoc butlast_take
        diff_Suc_1 length_append length_append_singleton length_take min.cobounded1 add.commute)
  show ?case
  proof (cases F rule: rev_cases)
    case Nil
    then show ?thesis
      using x snoc.prems(3) by (subst cmp_down_star.simps) (auto simp: suffix_outcome_def)
  next
    case F: (snoc F' f)
    have y: "arr_get fs (int (length F')) = Inr f"
      by (rule arr_get_last [where F = F']) (use F snoc.prems in auto)
    have "take (length F') fs = F'"
      using snoc.prems(4) F by (metis take_snocD)
    then have "cmp_down_star ps fs (int (i + length u)) (int (length F') - 1)
        = suffix_outcome u F'"
      using snoc.prems by (intro snoc.IH [OF P]) auto
    then show ?thesis
      using x y F snoc.prems(3)
      by (subst cmp_down_star.simps) (auto simp: suffix_outcome_snoc)
  qed
qed

section \<open>One node\<close>

text \<open>Reading a well-formed list: where its components and the text around them are.\<close>

lemma nl_wf_str:
  assumes "nl_wf l cs" and "i < length cs"
  shows "drop (pos cs i) (str l)
      = cs ! i @ concat (drop (Suc i) cs) @ zero_buf (MAX_PATH_LEN - length (concat cs))"
    and "drop (pos cs i) (str l)
      = concat (drop i cs) @ zero_buf (MAX_PATH_LEN - length (concat cs))"
    and "take (pos cs (Suc i)) (str l) = concat (take (Suc i) cs)"
    and "offsets l ! i = pos cs i" and "offsets l ! Suc i = pos cs (Suc i)"
    and "pos cs (Suc i) = pos cs i + length (cs ! i)" and "cs ! i \<noteq> []" and "NUL \<notin> set (cs ! i)"
proof -
  let ?z = "zero_buf (MAX_PATH_LEN - length (concat cs))"
  have str: "str l = concat cs @ ?z" using assms by (simp add: nl_wf_def)
  have "str l = concat (take i cs) @ concat (drop i cs) @ ?z"
    by (simp add: str concat_take_drop flip: append_assoc)
  then show b: "drop (pos cs i) (str l) = concat (drop i cs) @ ?z"
    by (simp add: pos_def)
  then show "drop (pos cs i) (str l) = cs ! i @ concat (drop (Suc i) cs) @ ?z"
    using assms(2) by (metis Cons_nth_drop_Suc append_assoc concat.simps(2))
  show "take (pos cs (Suc i)) (str l) = concat (take (Suc i) cs)"
  proof -
    have "str l = concat (take (Suc i) cs) @ concat (drop (Suc i) cs) @ ?z"
      by (simp add: str concat_take_drop flip: append_assoc)
    then show ?thesis by (simp add: pos_def)
  qed
  show "offsets l ! i = pos cs i" "offsets l ! Suc i = pos cs (Suc i)"
    using assms by (auto simp: nl_wf_def)
  show "pos cs (Suc i) = pos cs i + length (cs ! i)" using assms(2) by (rule pos_Suc)
  show "cs ! i \<noteq> []" "NUL \<notin> set (cs ! i)" using assms by (auto simp: nl_wf_def)
qed

lemma zero_buf_pos: "0 < n \<Longrightarrow> zero_buf n = NUL # zero_buf (n - 1)"
  by (cases n) (auto simp: zero_buf_Suc)

lemma nl_wf_after:
  assumes "nl_wf l cs" and "i < length cs"
  shows "drop (pos cs i) (str l)
      = concat (drop i cs) @ NUL # zero_buf (MAX_PATH_LEN - length (concat cs) - 1)"
  using nl_wf_str(2) [OF assms] assms(1)
    zero_buf_pos [of "MAX_PATH_LEN - length (concat cs)"]
  by (simp add: nl_wf_def)

lemma nl_wf_at:
  assumes "nl_wf l cs" and "i < length cs" and "j < length (cs ! i)"
  shows "arr_get (str l) (int (pos cs i + j)) = Inr (cs ! i ! j)"
proof -
  have "drop j (drop (pos cs i) (str l)) = cs ! i ! j # drop (Suc j) (drop (pos cs i) (str l))"
    using assms nl_wf_str(1) [OF assms(1,2)] by (metis Cons_nth_drop_Suc drop_append nth_append
        length_append trans_less_add1)
  then show ?thesis
    using arr_get_drop [of "pos cs i + j" "str l"] by (simp add: add.commute)
qed

text \<open>What the node type says about the shape of a component.\<close>

lemma comp_type_cases:
  "comp_type c = NODE_CHARACTER \<longleftrightarrow> CHR ''*'' \<notin> set c"
  "comp_type c = NODE_STAR \<longleftrightarrow> c = ''*''"
  "comp_type c = NODE_DOUBLE_STAR \<longleftrightarrow> c = ''**''"
  "comp_type c = NODE_MIXED_STAR \<longleftrightarrow> CHR ''*'' \<in> set c \<and> c \<noteq> ''*'' \<and> c \<noteq> ''**''"
  "comp_type c \<noteq> NODE_INVALID"
  by (auto simp: comp_type_def)

lemma lead_star: "CHR ''*'' \<in> set c \<Longrightarrow> \<exists>r. c = lead c @ CHR ''*'' # r"
proof -
  assume a: "CHR ''*'' \<in> set c"
  then have "dropWhile (\<lambda>x. x \<noteq> CHR ''*'') c \<noteq> []" by auto
  then obtain x r where xr: "dropWhile (\<lambda>x. x \<noteq> CHR ''*'') c = x # r" by (meson list.exhaust)
  moreover from this have "x = CHR ''*''"
    using hd_dropWhile [of "\<lambda>x. x \<noteq> CHR ''*''" c] by simp
  ultimately show ?thesis unfolding lead_def by (metis takeWhile_dropWhile_id)
qed

lemma trail_star: "CHR ''*'' \<in> set c \<Longrightarrow> \<exists>r. c = r @ CHR ''*'' # trail c"
proof -
  assume "CHR ''*'' \<in> set c"
  then obtain r where "rev c = lead (rev c) @ CHR ''*'' # r" using lead_star [of "rev c"] by auto
  then have "c = rev r @ CHR ''*'' # rev (lead (rev c))"
    by (metis append.assoc append_Cons append_Nil rev.simps(2) rev_append rev_rev_ident)
  then show ?thesis by (auto simp: trail_def lead_def)
qed

lemma lead_trail_no_star: "CHR ''*'' \<notin> set (lead c)" "CHR ''*'' \<notin> set (trail c)"
  by (auto simp: lead_def trail_def dest: set_takeWhileD)

lemma lead_trail_subset: "set (lead c) \<subseteq> set c" "set (trail c) \<subseteq> set c"
  by (auto simp: lead_def trail_def dest!: set_takeWhileD)

lemma match_character:
  assumes "nl_wf pat ps" and "nl_wf exp xs" and "p < length ps" and "e < length xs"
  shows "(let plen = node_len pat p; flen = node_len exp e in
      if plen = flen
      then strncmp_eq (str pat) (node_addr pat p) (str exp) (node_addr exp e)
             (nat (plen mod 2 ^ 64))
      else Inr False) = Inr (ps ! p = xs ! e)"
proof -
  note P = nl_wf_str [OF assms(1,3)] and X = nl_wf_str [OF assms(2,4)]
  have plen: "node_len pat p = int (length (ps ! p))" and flen: "node_len exp e = int (length (xs ! e))"
    using P X by (simp_all add: node_len_def)
  have "length (ps ! p) \<le> length (concat ps)"
    using assms(3) concat_split_nth [of p ps] by (metis le_add1 le_add2 le_trans length_append)
  then have small: "int (length (ps ! p)) mod 2 ^ 64 = int (length (ps ! p))"
    using assms(1) by (simp add: nl_wf_def MAX_PATH_LEN_def)
  show ?thesis
  proof (cases "length (ps ! p) = length (xs ! e)")
    case True
    have "strncmp_eq (str pat) (int (pos ps p)) (str exp) (int (pos xs e)) (length (ps ! p))
        = Inr (take (length (ps ! p)) (drop (pos ps p) (str pat))
            = take (length (ps ! p)) (drop (pos xs e) (str exp)))"
      by (rule strncmp_eq_take) (use P(1,8) X(1) True in auto)
    then show ?thesis
      using P X True plen flen small by (simp add: node_addr_def)
  next
    case False
    then show ?thesis using plen flen by (auto simp: Let_def)
  qed
qed

lemma match_suffix:
  assumes "nl_wf pat ps" and "nl_wf exp xs" and "p < length ps" and "e < length xs"
    and "hd (ps ! p) = CHR ''*''"
  shows "cmp_down (str pat) (str exp) (node_addr pat p) (node_addr pat (p + 1) - 1)
      (node_addr exp (e + 1) - 1) = suffix_outcome (tl (ps ! p)) (concat (take (Suc e) xs))"
proof -
  note P = nl_wf_str [OF assms(1,3)] and X = nl_wf_str [OF assms(2,4)]
  obtain u where u: "ps ! p = CHR ''*'' # u" using P(7) assms(5) by (cases "ps ! p") auto
  have all: "take (Suc (pos ps p + length u)) (str pat) = (concat (take p ps) @ [CHR ''*'']) @ u"
    using P(3,6) u assms(3) by (simp add: take_Suc_concat)
  have "cmp_down (str pat) (str exp) (int (pos ps p)) (int (pos ps p + length u))
      (int (length (concat (take (Suc e) xs))) - 1) = suffix_outcome u (concat (take (Suc e) xs))"
    by (rule cmp_down_suffix [OF all]) (use X(3) in \<open>auto simp: pos_def\<close>)
  then show ?thesis
    using P X u by (simp add: node_addr_def pos_def)
qed

lemma match_prefix:
  assumes "nl_wf pat ps" and "nl_wf exp xs" and "p < length ps" and "e < length xs"
  shows "cmp_up (str pat) (str exp) (node_addr pat (p + 1) - 1) (node_addr pat p)
      (node_addr exp e) = Inr (prefix (butlast (ps ! p)) (concat (drop e xs)))"
proof -
  note P = nl_wf_str [OF assms(1,3)] and X = nl_wf_str [OF assms(2,4)]
  let ?t = "butlast (ps ! p)"
  have end_addr: "node_addr pat (p + 1) - 1 = int (pos ps p + length ?t)"
    using P(5,6,7) by (cases "ps ! p") (auto simp: node_addr_def)
  have "cmp_up (str pat) (str exp) (int (pos ps p + length ?t)) (int (pos ps p)) (int (pos xs e))
      = Inr (prefix ?t (concat (drop e xs)))"
  proof (rule cmp_up_prefix)
    show "take (length ?t) (drop (pos ps p) (str pat)) = ?t"
      using P(1) by (simp add: butlast_conv_take)
    show "drop (pos xs e) (str exp)
        = concat (drop e xs) @ NUL # zero_buf (MAX_PATH_LEN - length (concat xs) - 1)"
      by (rule nl_wf_after [OF assms(2,4)])
    show "NUL \<notin> set ?t" using P(8) by (meson in_set_butlastD)
  qed
  then show ?thesis unfolding end_addr using P(4) X(4) by (simp only: node_addr_def)
qed

lemma match_lead:
  assumes "nl_wf pat ps" and "nl_wf exp xs" and "p < length ps" and "e < length xs"
    and star: "CHR ''*'' \<in> set (ps ! p)"
  shows "cmp_up_star (str pat) (str exp) (node_addr pat p) (node_addr exp e)
      = Inr (prefix (lead (ps ! p)) (concat (drop e xs)))"
proof -
  note P = nl_wf_str [OF assms(1,3)] and X = nl_wf_str [OF assms(2,4)]
  obtain t r where t: "t = lead (ps ! p)" and r: "ps ! p = t @ CHR ''*'' # r"
    using lead_star [OF star] by blast
  have "cmp_up_star (str pat) (str exp) (int (pos ps p)) (int (pos xs e))
      = Inr (prefix t (concat (drop e xs)))"
  proof (rule cmp_up_star_prefix)
    show "drop (pos ps p) (str pat) = t @ CHR ''*'' #
        r @ concat (drop (Suc p) ps) @ zero_buf (MAX_PATH_LEN - length (concat ps))"
      using P(1) r by simp
    show "drop (pos xs e) (str exp)
        = concat (drop e xs) @ NUL # zero_buf (MAX_PATH_LEN - length (concat xs) - 1)"
      by (rule nl_wf_after [OF assms(2,4)])
    show "NUL \<notin> set t" using P(8) r by simp
    show "CHR ''*'' \<notin> set t" unfolding t by (rule lead_trail_no_star)
  qed
  then show ?thesis using P(4) X(4) t by (simp add: node_addr_def)
qed

lemma match_trail:
  assumes "nl_wf pat ps" and "nl_wf exp xs" and "p < length ps" and "e < length xs"
    and star: "CHR ''*'' \<in> set (ps ! p)"
  shows "cmp_down_star (str pat) (str exp) (node_addr pat (p + 1) - 1) (node_addr exp (e + 1) - 1)
      = suffix_outcome (trail (ps ! p)) (concat (take (Suc e) xs))"
proof -
  note P = nl_wf_str [OF assms(1,3)] and X = nl_wf_str [OF assms(2,4)]
  obtain r u where u: "u = trail (ps ! p)" and r: "ps ! p = r @ CHR ''*'' # u"
    using trail_star [OF star] by blast
  let ?u = u and ?P = "concat (take p ps) @ r"
  have len: "pos ps (Suc p) = Suc (length ?P + length ?u)"
    using P(6) r by (simp add: pos_def)
  have all: "take (Suc (length ?P + length ?u)) (str pat) = (?P @ [CHR ''*'']) @ ?u"
    using P(3) r assms(3) len by (simp add: take_Suc_concat)
  have "cmp_down_star (str pat) (str exp) (int (length ?P + length ?u))
      (int (length (concat (take (Suc e) xs))) - 1) = suffix_outcome ?u (concat (take (Suc e) xs))"
    by (rule cmp_down_star_suffix [OF all])
      (use X(3) lead_trail_no_star u in \<open>auto simp: pos_def\<close>)
  moreover have "node_addr pat (p + 1) - 1 = int (length ?P + length ?u)"
    using P(5) len by (simp add: node_addr_def)
  moreover have "node_addr exp (e + 1) - 1 = int (length (concat (take (Suc e) xs))) - 1"
    using X(5) by (simp add: node_addr_def pos_def)
  ultimately show ?thesis using u by simp
qed

lemma match_cur_node_outcome:
  assumes pat: "pat_wf pat ps" and exp: "nl_wf exp xs" and p: "p < length ps" and e: "e < length xs"
  shows "match_cur_node pat exp p e = node_outcome (ps ! p) xs e"
proof -
  from pat have wf: "nl_wf pat ps" and ty: "nodetypes pat ! p = comp_type (ps ! p)"
    using p by (auto simp: pat_wf_def)
  note P = nl_wf_str [OF wf p]
  note facts = match_character [OF wf exp p e] match_suffix [OF wf exp p e]
    match_prefix [OF wf exp p e] match_lead [OF wf exp p e] match_trail [OF wf exp p e]
  show ?thesis
  proof (cases "comp_type (ps ! p)")
    case NODE_MIXED_STAR
    then have star: "CHR ''*'' \<in> set (ps ! p)" by (simp add: comp_type_cases)
    have s: "arr_get (str pat) (node_addr pat p) = Inr (hd (ps ! p))"
      using nl_wf_at [OF wf p, of 0] P(4,7) by (simp add: node_addr_def hd_conv_nth)
    have "node_addr pat (p + 1) - 1 = int (pos ps p + (length (ps ! p) - 1))"
      using P(5,6,7) by (cases "ps ! p") (auto simp: node_addr_def)
    then have t: "arr_get (str pat) (node_addr pat (p + 1) - 1) = Inr (last (ps ! p))"
      using nl_wf_at [OF wf p, of "length (ps ! p) - 1"] P(7) by (simp add: last_conv_nth)
    show ?thesis
      using facts(2,3) facts(4,5) [OF star] s t ty NODE_MIXED_STAR
      by (simp add: match_cur_node_def node_outcome_def Let_def)
  qed (use facts(1) ty in \<open>auto simp: match_cur_node_def node_outcome_def\<close>)
qed

end
