(* ===== verification/Fnmatch_Correct.thy ===== *)
theory Fnmatch_Correct
  imports Fnmatch_Match
begin

text \<open>
  The matcher against its specification \<open>path_glob\<close>: where it agrees, and exactly what it
  decides for a pattern with one \<open>**\<close> in front of its last component.
\<close>

section \<open>Components with at most one star\<close>

lemma glob_plain: "CHR ''*'' \<notin> set t \<Longrightarrow> glob (t @ c) x \<longleftrightarrow> (\<exists>y. x = t @ y \<and> glob c y)"
  by (induction t arbitrary: x) (auto split: list.splits)

lemma glob_star: "glob (CHR ''*'' # c) x \<longleftrightarrow> (\<exists>y z. x = y @ z \<and> glob c z)"
proof
  assume "glob (CHR ''*'' # c) x"
  then obtain k where "glob c (drop k x)" by (metis glob.simps(2))
  then show "\<exists>y z. x = y @ z \<and> glob c z" by (metis append_take_drop_id)
next
  assume "\<exists>y z. x = y @ z \<and> glob c z"
  then obtain y z where "x = y @ z" "glob c z" by blast
  then have "length y \<in> set [0 ..< Suc (length x)]" "glob c (drop (length y) x)" by auto
  then show "glob (CHR ''*'' # c) x" unfolding glob.simps by auto
qed

lemma glob_no_star: "CHR ''*'' \<notin> set c \<Longrightarrow> glob c x \<longleftrightarrow> c = x"
  using glob_plain [of c "[]" x] by auto

lemma glob_one_star:
  "CHR ''*'' \<notin> set a \<Longrightarrow> CHR ''*'' \<notin> set b \<Longrightarrow>
   glob (a @ CHR ''*'' # b) x \<longleftrightarrow> (\<exists>m. x = a @ m @ b)"
  by (simp add: glob_plain glob_star glob_no_star del: glob.simps) blast

text \<open>
  A component fits a name when the wildcard form is one of those the code supports (one star)
  and the name is long enough for the comparison loops to stay inside it.
\<close>

definition fits :: "string \<Rightarrow> string \<Rightarrow> bool" where
  "fits c x \<longleftrightarrow>
     (comp_type c = NODE_MIXED_STAR \<longrightarrow>
        count_list c (CHR ''*'') = 1 \<and> length c \<le> Suc (length x))"

lemma count_list_1_split:
  "count_list c x = 1 \<Longrightarrow> \<exists>a b. c = a @ x # b \<and> x \<notin> set a \<and> x \<notin> set b"
proof -
  assume one: "count_list c x = 1"
  then have "x \<in> set c" by (metis count_notin zero_neq_one)
  then obtain a b where "c = a @ x # b" "x \<notin> set a" by (meson split_list_first)
  moreover from this one have "count_list b x = 0" by simp
  then have "x \<notin> set b" by (simp add: count_list_0_iff)
  ultimately show ?thesis by blast
qed

lemma suffix_outcome_fits:
  assumes "length u \<le> length x"
  shows "suffix_outcome u (f @ x) = Inr (suffix u x)"
proof -
  have "suffix u (f @ x) \<longleftrightarrow> suffix u x"
    using assms by (auto simp: suffix_append)
  moreover have "suffix (f @ x) u \<Longrightarrow> suffix u x"
    using assms by (auto simp: suffix_def)
  ultimately show ?thesis by (simp add: suffix_outcome_def)
qed

lemma prefix_fits: "length t \<le> length x \<Longrightarrow> prefix t (x @ y) \<longleftrightarrow> prefix t x"
  by (metis prefix_length_prefix prefixI prefix_order.trans)

lemma node_outcome_glob:
  assumes e: "e < length xs" and fits: "fits c (xs ! e)" and ds: "c \<noteq> ''**''"
  shows "node_outcome c xs e = Inr (glob c (xs ! e))"
proof -
  have before: "concat (take (Suc e) xs) = concat (take e xs) @ xs ! e"
    using e by (rule take_Suc_concat)
  have after: "concat (drop e xs) = xs ! e @ concat (drop (Suc e) xs)"
    using e by (metis Cons_nth_drop_Suc concat.simps(2))
  show ?thesis
  proof (cases "comp_type c")
    case NODE_CHARACTER
    then show ?thesis
      using glob_no_star [of c] comp_type_cases(1) [of c] by (simp add: node_outcome_def)
  next
    case NODE_STAR
    then have "c = [] @ CHR ''*'' # []" by (simp add: comp_type_cases)
    then have "glob c (xs ! e)" using glob_one_star [of "[]" "[]" "xs ! e"] by simp
    then show ?thesis using NODE_STAR by (simp add: node_outcome_def)
  next
    case mixed: NODE_MIXED_STAR
    then obtain a b where c: "c = a @ CHR ''*'' # b" and
      ab: "CHR ''*'' \<notin> set a" "CHR ''*'' \<notin> set b" and
      len: "length a + length b \<le> length (xs ! e)"
      using fits count_list_1_split [of c "CHR ''*''"] by (auto simp: fits_def)
    have g: "glob c (xs ! e) \<longleftrightarrow> prefix a (xs ! e) \<and> suffix b (xs ! e)"
    proof
      assume "prefix a (xs ! e) \<and> suffix b (xs ! e)"
      then obtain y z where y: "xs ! e = a @ y" and z: "xs ! e = z @ b"
        by (auto simp: prefix_def suffix_def)
      with len have "suffix b y" by (metis add_le_cancel_left length_append suffix_length_suffix
            suffixI)
      then show "glob c (xs ! e)" using y by (auto simp: c glob_one_star [OF ab] suffix_def)
    qed (auto simp: c glob_one_star [OF ab] prefix_def suffix_def)
    have sfx: "suffix_outcome b (concat (take (Suc e) xs)) = Inr (suffix b (xs ! e))"
      using suffix_outcome_fits [of b "xs ! e"] len by (simp add: before)
    have pfx: "prefix a (concat (drop e xs)) \<longleftrightarrow> prefix a (xs ! e)"
      using prefix_fits [of a "xs ! e"] len by (simp add: after)
    have "lead c = a" "trail c = b"
      using ab by (auto simp: c lead_def trail_def takeWhile_append)
    moreover have "hd c = CHR ''*'' \<longleftrightarrow> a = []" using ab c by (cases a) auto
    moreover have "last c = CHR ''*'' \<longleftrightarrow> b = []"
    proof (cases "b = []")
      case False
      then have "last b \<noteq> CHR ''*''" using ab(2) last_in_set by metis
      then show ?thesis using False c by simp
    qed (use c in simp)
    ultimately show ?thesis
      using mixed g sfx pfx by (auto simp: node_outcome_def Let_def c)
  next
    case NODE_DOUBLE_STAR
    then show ?thesis using ds by (simp add: comp_type_cases)
  next
    case NODE_INVALID
    then show ?thesis by (simp add: comp_type_cases)
  qed
qed

section \<open>Specification of whole paths\<close>

text \<open>\<open>**\<close> stands for one or more components.\<close>

fun path_glob :: "string list \<Rightarrow> string list \<Rightarrow> bool" where
  "path_glob [] xs = (xs = [])"
| "path_glob (p # ps) xs =
     (if p = ''**'' then (\<exists>k \<in> set [1 ..< Suc (length xs)]. path_glob ps (drop k xs))
      else (case xs of [] \<Rightarrow> False | x # ys \<Rightarrow> glob p x \<and> path_glob ps ys))"

lemma path_glob_plain_append:
  "''**'' \<notin> set pre \<Longrightarrow>
   path_glob (pre @ ps) xs \<longleftrightarrow>
     length pre \<le> length xs \<and> list_all2 glob pre (take (length pre) xs) \<and>
     path_glob ps (drop (length pre) xs)"
  by (induction pre arbitrary: xs) (auto split: list.splits)

lemma path_glob_plain: "''**'' \<notin> set ps \<Longrightarrow> path_glob ps xs \<longleftrightarrow> list_all2 glob ps xs"
  using path_glob_plain_append [of ps "[]" xs]
  by (cases "length ps = length xs") (auto dest: list_all2_lengthD)

lemma path_glob_ds: "path_glob [''**''] xs \<longleftrightarrow> xs \<noteq> []"
  by (cases xs) (auto intro!: bexI [of _ "length xs"])

lemma path_glob_ds_one:
  assumes "q \<noteq> ''**''"
  shows "path_glob [''**'', q] xs \<longleftrightarrow> 2 \<le> length xs \<and> glob q (last xs)"
proof
  assume "path_glob [''**'', q] xs"
  then obtain k where "1 \<le> k" "path_glob [q] (drop k xs)" by auto
  moreover from this obtain x where "drop k xs = [x]" "glob q x"
    using assms by (cases "drop k xs") auto
  ultimately obtain k x where "1 \<le> k" "drop k xs = [x]" "glob q x" by blast
  moreover from this have "length xs = k + 1"
  proof -
    have "length (drop k xs) = length [x]" using \<open>drop k xs = [x]\<close> by (rule arg_cong)
    then show ?thesis by simp
  qed
  moreover from this \<open>drop k xs = [x]\<close> have "last xs = x"
    using last_drop [of k xs] by simp
  ultimately show "2 \<le> length xs \<and> glob q (last xs)" by simp
next
  assume r: "2 \<le> length xs \<and> glob q (last xs)"
  then have "drop (length xs - 1) xs = [last xs]"
    by (metis One_nat_def Suc_1 append_butlast_last_id append_eq_conv_conj le_zero_eq
        length_butlast list.size(3) nat.distinct(1))
  moreover have "length xs - 1 \<in> set [1 ..< Suc (length xs)]" using r by auto
  ultimately show "path_glob [''**'', q] xs" using r assms by force
qed

section \<open>The walk\<close>

text \<open>One step of the walk from a plain node whose comparison stays inside the names.\<close>

lemma match_nodes_end:
  "node_cnt exp \<le> e \<or> node_cnt pat \<le> p \<Longrightarrow>
   match_nodes pat exp p e = Inr (node_cnt exp \<le> e \<and> node_cnt pat \<le> p, p, e)"
  by (subst match_nodes.simps) auto

lemma match_nodes_node:
  assumes pat: "pat_wf pat ps" and exp: "nl_wf exp xs" and p: "p < length ps" and e: "e < length xs"
    and plain: "ps ! p \<noteq> ''**''" and fits: "fits (ps ! p) (xs ! e)"
  shows "match_nodes pat exp p e =
    (if glob (ps ! p) (xs ! e) then match_nodes pat exp (Suc p) (Suc e) else Inr (False, p, e))"
proof -
  have "match_cur_node pat exp p e = Inr (glob (ps ! p) (xs ! e))"
    using match_cur_node_outcome [OF pat exp p e] node_outcome_glob [OF e fits plain] by simp
  moreover have "node_cnt pat = length ps" "node_cnt exp = length xs"
    "nodetypes pat ! p \<noteq> NODE_DOUBLE_STAR"
    using pat exp p plain by (auto simp: pat_wf_def nl_wf_def comp_type_cases)
  ultimately show ?thesis using p e by (subst match_nodes.simps) simp
qed

lemma match_nodes_ds:
  assumes pat: "pat_wf pat ps" and exp: "nl_wf exp xs" and p: "p < length ps" and e: "e < length xs"
    and ds: "ps ! p = ''**''"
  shows "match_nodes pat exp p e =
    rbind (match_nodes pat exp (Suc p) (Suc e)) (\<lambda>(m, p', e').
      if m then Inr (True, p', e') else match_nodes pat exp (p' - 1) e')"
proof -
  have "node_cnt pat = length ps" "node_cnt exp = length xs"
    "nodetypes pat ! p = NODE_DOUBLE_STAR"
    using pat exp p ds by (auto simp: pat_wf_def nl_wf_def comp_type_cases)
  then show ?thesis using p e by (subst match_nodes.simps) simp
qed

text \<open>
  Plain nodes \<open>pre\<close> from position \<open>p\<close> on are compared one by one; behind them the walk goes on.
\<close>

definition fits_along :: "string list \<Rightarrow> string list \<Rightarrow> bool" where
  "fits_along ps xs \<longleftrightarrow> (\<forall>i < min (length ps) (length xs). fits (ps ! i) (xs ! i))"

lemma fits_along_Cons [simp]:
  "fits_along (p # ps) (x # xs) \<longleftrightarrow> fits p x \<and> fits_along ps xs"
  by (auto simp: fits_along_def less_Suc_eq_0_disj)

lemma fits_along_drop_Suc:
  assumes "e < length xs" and "fits_along (c # pre) (drop e xs)"
  shows "fits c (xs ! e)" and "fits_along pre (drop (Suc e) xs)"
  using assms by (simp_all flip: Cons_nth_drop_Suc)

lemma match_nodes_prefix:
  assumes "pat_wf pat ps" and "nl_wf exp xs" and "drop p ps = pre @ rest" and "''**'' \<notin> set pre"
    and "fits_along pre (drop e xs)" and "e \<le> length xs"
  shows "(length pre \<le> length (drop e xs) \<and> list_all2 glob pre (take (length pre) (drop e xs)) \<and>
      match_nodes pat exp p e = match_nodes pat exp (p + length pre) (e + length pre)) \<or>
    (\<not> (length pre \<le> length (drop e xs) \<and>
        list_all2 glob pre (take (length pre) (drop e xs))) \<and>
      (\<exists>p' e'. match_nodes pat exp p e = Inr (False, p', e')))"
  using assms
proof (induction pre arbitrary: p e)
  case Nil
  then show ?case by simp
next
  case (Cons c pre)
  have p: "p < length ps" "ps ! p = c" "drop (Suc p) ps = pre @ rest"
    using drop_nth_Cons [of p ps c "pre @ rest"] Cons.prems(3) by auto
  have cnt: "node_cnt pat = length ps" "node_cnt exp = length xs"
    using Cons.prems(1,2) by (auto simp: pat_wf_def nl_wf_def)
  show ?case
  proof (cases "e < length xs")
    case False
    then show ?thesis using match_nodes_end [of exp e pat p] cnt p Cons.prems(6) by simp
  next
    case e: True
    note fit = fits_along_drop_Suc [OF e Cons.prems(5)]
    note IH = Cons.IH [OF Cons.prems(1,2) p(3) _ fit(2)]
    have step: "match_nodes pat exp p e =
      (if glob c (xs ! e) then match_nodes pat exp (Suc p) (Suc e) else Inr (False, p, e))"
      using match_nodes_node [OF Cons.prems(1,2) p(1) e] p(2) fit(1) Cons.prems(4) by auto
    have xs: "drop e xs = xs ! e # drop (Suc e) xs"
      using e by (simp add: Cons_nth_drop_Suc)
    show ?thesis using IH step Cons.prems(4) e unfolding xs by (auto simp: Suc_le_eq)
  qed
qed

text \<open>A pattern without \<open>**\<close>.\<close>

lemma match_nodes_plain:
  assumes "pat_wf pat ps" and "nl_wf exp xs" and "''**'' \<notin> set ps" and "fits_along ps xs"
  shows "\<exists>p e. match_nodes pat exp 0 0 = Inr (path_glob ps xs, p, e)"
proof -
  have cnt: "node_cnt pat = length ps" "node_cnt exp = length xs"
    using assms(1,2) by (auto simp: pat_wf_def nl_wf_def)
  have "match_nodes pat exp (length ps) (length ps)
      = Inr (length xs \<le> length ps, length ps, length ps)"
    using match_nodes_end [of exp "length ps" pat "length ps"] cnt by simp
  moreover have "path_glob ps xs \<longleftrightarrow>
      length ps \<le> length xs \<and> list_all2 glob ps (take (length ps) xs) \<and> length xs \<le> length ps"
    using path_glob_plain_append [OF assms(3), of "[]" xs] by simp
  ultimately show ?thesis
    using match_nodes_prefix [OF assms(1,2), of 0 ps "[]" 0] assms(3,4) by auto
qed

text \<open>A pattern that ends in \<open>**\<close>.\<close>

lemma match_nodes_ds_end:
  assumes pat: "pat_wf pat ps" and exp: "nl_wf exp xs" and ds: "ps ! p = ''**''"
    and last: "length ps = Suc p" and e: "e \<le> length xs"
  shows "\<exists>p' e'. match_nodes pat exp p e = Inr (e < length xs, p', e')"
  using e
proof (induction "length xs - e" arbitrary: e rule: less_induct)
  case less
  have cnt: "node_cnt pat = length ps" "node_cnt exp = length xs"
    using pat exp by (auto simp: pat_wf_def nl_wf_def)
  show ?case
  proof (cases "e < length xs")
    case False
    then show ?thesis using match_nodes_end [of exp e pat p] cnt last by simp
  next
    case True
    have inner: "match_nodes pat exp (Suc p) (Suc e)
        = Inr (length xs \<le> Suc e, Suc p, Suc e)"
      using match_nodes_end [of exp "Suc e" pat "Suc p"] cnt last by simp
    have step: "match_nodes pat exp p e =
      (if length xs \<le> Suc e then Inr (True, Suc p, Suc e) else match_nodes pat exp p (Suc e))"
      using match_nodes_ds [OF pat exp _ True ds] inner last by simp
    show ?thesis using less(1) [of "Suc e"] True step by auto
  qed
qed

text \<open>
  A pattern that ends in \<open>**\<close> and one more component \<open>q\<close>. From the component behind the one that
  \<open>**\<close> takes first, the code looks for the first name that matches \<open>q\<close>; that name, or the
  one right behind it, has to be the last of the path.
\<close>

fun ds_scan :: "string \<Rightarrow> string list \<Rightarrow> bool" where
  "ds_scan q (x # y # ys) =
     (if glob q y then ys = [] \<or> (\<exists>z \<in> set (take 1 ys). ys = [z] \<and> glob q z)
      else ds_scan q (y # ys))"
| "ds_scan q xs = False"

lemma match_nodes_ds_one:
  assumes pat: "pat_wf pat ps" and exp: "nl_wf exp xs" and ds: "ps ! p = ''**''"
    and last: "length ps = Suc (Suc p)" and q: "ps ! Suc p = q" "q \<noteq> ''**''"
    and fits: "\<forall>x \<in> set (drop (Suc e) xs). fits q x" and e: "e \<le> length xs"
  shows "\<exists>p' e'. match_nodes pat exp p e = Inr (ds_scan q (drop e xs), p', e')"
  using fits e
proof (induction "length xs - e" arbitrary: e rule: less_induct)
  case less
  have cnt: "node_cnt pat = length ps" "node_cnt exp = length xs"
    using pat exp by (auto simp: pat_wf_def nl_wf_def)
  have at_q: "match_nodes pat exp (Suc p) i =
      (if glob q (xs ! i) then Inr (length xs \<le> Suc i, Suc (Suc p), Suc i)
       else Inr (False, Suc p, i))" if "i < length xs" "e < i" for i
  proof -
    have "xs ! i \<in> set (drop (Suc e) xs)"
      using that nth_mem [of "i - Suc e" "drop (Suc e) xs"] by simp
    then have "fits (ps ! Suc p) (xs ! i)" using less.prems(1) q(1) by simp
    then show ?thesis
      using match_nodes_node [OF pat exp _ that(1), of "Suc p"] last q
        match_nodes_end [of exp "Suc i" pat "Suc (Suc p)"] cnt by simp
  qed
  consider (none) "length xs \<le> e" | (one) "length xs = Suc e" | (more) "Suc e < length xs"
    by linarith
  then show ?case
  proof cases
    case none
    then show ?thesis using match_nodes_end [of exp e pat p] cnt last by simp
  next
    case one
    have "match_nodes pat exp (Suc p) (Suc e) = Inr (False, Suc p, Suc e)"
      using match_nodes_end [of exp "Suc e" pat "Suc p"] cnt last one by simp
    moreover have "match_nodes pat exp p (Suc e) = Inr (False, p, Suc e)"
      using match_nodes_end [of exp "Suc e" pat p] cnt last one by simp
    ultimately have "match_nodes pat exp p e = Inr (False, p, Suc e)"
      using match_nodes_ds [OF pat exp _ _ ds, of e] last one by simp
    moreover have "drop e xs = [xs ! e]" using one by (simp flip: Cons_nth_drop_Suc)
    ultimately show ?thesis by simp
  next
    case more
    have xs: "drop e xs = xs ! e # xs ! Suc e # drop (Suc (Suc e)) xs"
      using more by (metis Cons_nth_drop_Suc Suc_lessD)
    note step = match_nodes_ds [OF pat exp _ _ ds, of e]
    show ?thesis
    proof (cases "glob q (xs ! Suc e)")
      case False
      then have "match_nodes pat exp p e = match_nodes pat exp p (Suc e)"
        using step at_q [of "Suc e"] more last by simp
      moreover have "\<exists>p' e'. match_nodes pat exp p (Suc e)
          = Inr (ds_scan q (drop (Suc e) xs), p', e')"
      proof (rule less(1))
        have "set (drop (Suc (Suc e)) xs) \<subseteq> set (drop (Suc e) xs)"
          by (rule set_drop_subset_set_drop) simp
        then show "\<forall>x \<in> set (drop (Suc (Suc e)) xs). fits q x" using less.prems(1) by blast
      qed (use more in auto)
      moreover have "drop (Suc e) xs = xs ! Suc e # drop (Suc (Suc e)) xs"
        using more by (simp add: Cons_nth_drop_Suc)
      ultimately show ?thesis using False by (simp add: xs)
    next
      case match: True
      show ?thesis
      proof (cases "length xs = Suc (Suc e)")
        case True
        then have "match_nodes pat exp p e = Inr (True, Suc (Suc p), Suc (Suc e))"
          using step at_q [of "Suc e"] more last match by simp
        then show ?thesis using match True by (simp add: xs)
      next
        case False
        with more have i: "Suc (Suc e) < length xs" by simp
        then have "match_nodes pat exp p e = match_nodes pat exp (Suc p) (Suc (Suc e))"
          using step at_q [of "Suc e"] more last match by simp
        moreover have "drop (Suc (Suc e)) xs
            = xs ! Suc (Suc e) # drop (Suc (Suc (Suc e))) xs"
          using i by (simp add: Cons_nth_drop_Suc)
        ultimately show ?thesis
          using at_q [OF i] match i by (auto simp: xs)
      qed
    qed
  qed
qed

text \<open>What the scan decides, compared with the specification.\<close>

lemma ds_scan_sound: "ds_scan q xs \<Longrightarrow> 2 \<le> length xs \<and> glob q (last xs)"
  by (induction q xs rule: ds_scan.induct) (auto split: if_splits)

lemma ds_scan_complete:
  "2 \<le> length xs \<Longrightarrow> glob q (last xs) \<Longrightarrow> \<forall>x \<in> set (butlast (tl xs)). \<not> glob q x \<Longrightarrow> ds_scan q xs"
proof (induction q xs rule: ds_scan.induct)
  case (1 q x y ys)
  then show ?case by (cases ys) auto
qed auto

lemma ds_scan_star: "ds_scan ''*'' xs \<longleftrightarrow> length xs = 2 \<or> length xs = 3"
proof -
  have g: "glob ''*'' x" for x
    using glob_one_star [of "[]" "[]" x] by simp
  show ?thesis
  proof (cases "\<exists>x y ys. xs = x # y # ys")
    case True
    then show ?thesis using g by (auto simp del: glob.simps simp: length_Suc_conv)
  next
    case False
    then show ?thesis by (cases xs rule: remdups_adj.cases) auto
  qed
qed

section \<open>The properties of the matcher\<close>

text \<open>A pattern and a path that were both translated.\<close>

definition translated_pair ::
  "string \<Rightarrow> string list \<Rightarrow> nodelist \<Rightarrow> string \<Rightarrow> string list \<Rightarrow> nodelist \<Rightarrow> bool" where
  "translated_pair pattern ps P path xs X \<longleftrightarrow>
     short_path pattern \<and> split_path pattern = Some ps \<and> fn_translate pattern True = Inr (Some P) \<and>
     short_path path \<and> split_path path = Some xs \<and> fn_translate path False = Inr (Some X)"

lemma translated_pairD:
  "translated_pair pattern ps P path xs X \<Longrightarrow> pat_wf P ps \<and> nl_wf X xs"
  using translate_short [of pattern True] translate_short [of path False]
  by (auto simp: translated_pair_def translate_post_def)

lemma translated_pairI:
  assumes "short_path pattern" and "split_path pattern = Some ps"
    and "short_path path" and "split_path path = Some xs"
  shows "\<exists>P X. translated_pair pattern ps P path xs X"
  using assms translate_short [of pattern True] translate_short [of path False]
  by (auto simp: translated_pair_def translate_post_def)

text \<open>The walk over a pattern \<open>pre @ rest\<close> whose part \<open>rest\<close> decides \<open>d\<close> on what is left.\<close>

lemma fn_match_prefix:
  assumes tp: "translated_pair pattern (pre @ rest) P path xs X"
    and "''**'' \<notin> set pre" and "fits_along pre xs"
    and rest: "length pre \<le> length xs \<Longrightarrow>
      \<exists>p e. match_nodes P X (length pre) (length pre) = Inr (d, p, e)"
  shows "\<exists>P' X'. fn_match P X =
    Inr (if length pre \<le> length xs \<and> list_all2 glob pre (take (length pre) xs) \<and> d
         then MATCH else NO_MATCH, P', X')"
proof -
  from tp have wf: "pat_wf P (pre @ rest)" "nl_wf X xs" by (simp_all add: translated_pairD)
  then have "\<exists>p e. match_nodes P X 0 0 =
    Inr (length pre \<le> length xs \<and> list_all2 glob pre (take (length pre) xs) \<and> d, p, e)"
    using match_nodes_prefix [OF wf, of 0 pre rest 0] assms(2,3) rest by auto
  then show ?thesis by (auto simp: fn_match_def)
qed

text \<open>
  Property C3. A pattern without \<open>**\<close> matches a path exactly when it has as many components and
  each component matches the name at its place, as long as the wildcard components have one star
  and are not longer than the names they are compared with.
\<close>

theorem fn_match_plain:
  assumes "translated_pair pattern ps P path xs X" and "''**'' \<notin> set ps" and "fits_along ps xs"
  shows "\<exists>P' X'. fn_match P X = Inr (if path_glob ps xs then MATCH else NO_MATCH, P', X')"
proof -
  have "pat_wf P ps" "nl_wf X xs" using assms(1) by (simp_all add: translated_pairD)
  then show ?thesis
    using match_nodes_plain [of P ps X xs] assms(2,3) by (auto simp: fn_match_def)
qed

text \<open>
  A pattern whose only \<open>**\<close> is its last component matches exactly the paths that
  agree with the components in front of it and go on for at least one more component.
\<close>

theorem fn_match_double_star_end:
  assumes tp: "translated_pair pattern (pre @ [''**'']) P path xs X"
    and pre: "''**'' \<notin> set pre" and fits: "fits_along pre xs"
  shows "\<exists>P' X'. fn_match P X =
    Inr (if path_glob (pre @ [''**'']) xs then MATCH else NO_MATCH, P', X')"
proof -
  have wf: "pat_wf P (pre @ [''**''])" "nl_wf X xs" using tp by (simp_all add: translated_pairD)
  have "\<exists>p e. match_nodes P X (length pre) (length pre) = Inr (length pre < length xs, p, e)"
    if "length pre \<le> length xs"
    using match_nodes_ds_end [OF wf, of "length pre" "length pre"] that by simp
  from fn_match_prefix [OF tp pre fits this]
  show ?thesis
    using path_glob_ds [of "drop (length pre) xs"]
    by (auto simp: path_glob_plain_append [OF pre] simp del: path_glob.simps)
qed

text \<open>
  A pattern with one \<open>**\<close> in front of its last component \<open>q\<close>: the exact answer is
  the scan \<open>ds_scan\<close>, which stops at the first name that matches \<open>q\<close> and looks at most one
  name further.
\<close>

theorem fn_match_double_star_scan:
  assumes tp: "translated_pair pattern (pre @ [''**'', q]) P path xs X"
    and pre: "''**'' \<notin> set pre" and q: "q \<noteq> ''**''" and fits: "fits_along pre xs"
    and fits_q: "\<forall>x \<in> set (drop (Suc (length pre)) xs). fits q x"
  shows "\<exists>P' X'. fn_match P X =
    Inr (if length pre \<le> length xs \<and> list_all2 glob pre (take (length pre) xs) \<and>
            ds_scan q (drop (length pre) xs)
         then MATCH else NO_MATCH, P', X')"
proof -
  have wf: "pat_wf P (pre @ [''**'', q])" "nl_wf X xs" using tp by (simp_all add: translated_pairD)
  have "\<exists>p e. match_nodes P X (length pre) (length pre)
      = Inr (ds_scan q (drop (length pre) xs), p, e)" if "length pre \<le> length xs"
    using match_nodes_ds_one [OF wf, of "length pre" q "length pre"] that q fits_q
    by (simp add: nth_append)
  from fn_match_prefix [OF tp pre fits this] show ?thesis .
qed

text \<open>
  For such a pattern the matcher never reports a path the pattern does not cover,
  and it finds every covered path none of whose inner names matches the last component.
\<close>

theorem fn_match_double_star_sound:
  assumes tp: "translated_pair pattern (pre @ [''**'', q]) P path xs X"
    and pre: "''**'' \<notin> set pre" and q: "q \<noteq> ''**''" and fits: "fits_along pre xs"
    and fits_q: "\<forall>x \<in> set (drop (Suc (length pre)) xs). fits q x"
  shows "\<exists>r P' X'. fn_match P X = Inr (r, P', X') \<and>
    (r = MATCH \<longrightarrow> path_glob (pre @ [''**'', q]) xs) \<and>
    (path_glob (pre @ [''**'', q]) xs \<and>
       (\<forall>x \<in> set (butlast (drop (Suc (length pre)) xs)). \<not> glob q x) \<longrightarrow> r = MATCH)"
proof -
  let ?xs = "drop (length pre) xs"
  have spec: "path_glob (pre @ [''**'', q]) xs \<longleftrightarrow>
      length pre \<le> length xs \<and> list_all2 glob pre (take (length pre) xs) \<and>
      2 \<le> length ?xs \<and> glob q (last ?xs)"
    by (simp add: path_glob_plain_append [OF pre] path_glob_ds_one [OF q] del: path_glob.simps)
  have tl: "drop (Suc (length pre)) xs = tl ?xs" by (simp add: drop_Suc tl_drop)
  have wf: "pat_wf P (pre @ [''**'', q])" "nl_wf X xs" using tp by (simp_all add: translated_pairD)
  have "\<exists>p e. match_nodes P X (length pre) (length pre) = Inr (ds_scan q ?xs, p, e)"
    if "length pre \<le> length xs"
    using match_nodes_ds_one [OF wf, of "length pre" q "length pre"] that q fits_q
    by (simp add: nth_append)
  from fn_match_prefix [OF tp pre fits this] obtain P' X' where res:
    "fn_match P X =
      Inr (if length pre \<le> length xs \<and> list_all2 glob pre (take (length pre) xs) \<and> ds_scan q ?xs
           then MATCH else NO_MATCH, P', X')" (is "_ = Inr (if ?c then _ else _, _, _)") by blast
  have "?c \<Longrightarrow> path_glob (pre @ [''**'', q]) xs"
    unfolding spec using ds_scan_sound [of q ?xs] by blast
  moreover have "path_glob (pre @ [''**'', q]) xs \<Longrightarrow> \<forall>x \<in> set (butlast (tl ?xs)). \<not> glob q x \<Longrightarrow> ?c"
    unfolding spec using ds_scan_complete [of ?xs q] by blast
  ultimately show ?thesis
    unfolding res tl by (cases ?c) (auto simp: MATCH_def NO_MATCH_def)
qed

text \<open>
  The pattern \<open>/root/**/*\<close>, which the README gives for everything below \<open>/root\<close>,
  matches exactly the paths of two or three components below it: not the files directly in
  \<open>/root\<close>, and nothing deeper.
\<close>

theorem readme_root_pattern:
  assumes tp: "translated_pair ''/root/**/*'' [''root'', ''**'', ''*''] P path xs X"
  shows "\<exists>P' X'. fn_match P X =
    Inr (if xs \<noteq> [] \<and> hd xs = ''root'' \<and> (length xs = 3 \<or> length xs = 4)
         then MATCH else NO_MATCH, P', X')"
proof -
  have fits: "fits ''root'' x" "fits ''*'' x" for x
    by (simp_all add: fits_def comp_type_def)
  have root: "glob ''root'' x \<longleftrightarrow> x = ''root''" for x
    using glob_no_star [of "''root''" x] by auto
  have tp': "translated_pair ''/root/**/*'' ([''root''] @ [''**'', ''*'']) P path xs X"
    using tp by simp
  have "length [''root''] \<le> length xs \<and> list_all2 glob [''root''] (take (length [''root'']) xs) \<and>
      ds_scan ''*'' (drop (length [''root'']) xs) \<longleftrightarrow>
    xs \<noteq> [] \<and> hd xs = ''root'' \<and> (length xs = 3 \<or> length xs = 4)"
    by (cases xs) (auto simp: ds_scan_star root simp del: glob.simps)
  then show ?thesis
    using fn_match_double_star_scan [OF tp'] fits by (simp add: fits_along_def)
qed

section \<open>Witnesses\<close>

theorem fn_match_plain_witness:
  "\<exists>P X P' X'. fn_translate ''/home/*/02.*'' True = Inr (Some P) \<and>
    fn_translate ''/home/meo/02.txt'' False = Inr (Some X) \<and> fn_match P X = Inr (MATCH, P', X')"
proof -
  let ?ps = "[''home'', ''*'', ''02.*'']" and ?xs = "[''home'', ''meo'', ''02.txt'']"
  have "short_path ''/home/*/02.*''" "split_path ''/home/*/02.*'' = Some ?ps"
    "short_path ''/home/meo/02.txt''" "split_path ''/home/meo/02.txt'' = Some ?xs"
    by code_simp+
  from translated_pairI [OF this] obtain P X where
    tp: "translated_pair ''/home/*/02.*'' ?ps P ''/home/meo/02.txt'' ?xs X" by blast
  have nds: "''**'' \<notin> set ?ps" by code_simp
  have fits: "fits_along ?ps ?xs"
    by (simp add: fits_along_def fits_def comp_type_def less_Suc_eq numeral_3_eq_3)
  have "path_glob ?ps ?xs" by code_simp
  then show ?thesis
    using fn_match_plain [OF tp nds fits] tp by (auto simp: translated_pair_def)
qed

theorem fn_match_double_star_end_witness:
  "\<exists>P X P' X'. fn_translate ''/home/**'' True = Inr (Some P) \<and>
    fn_translate ''/home/meo/02.txt'' False = Inr (Some X) \<and> fn_match P X = Inr (MATCH, P', X')"
proof -
  let ?ps = "[''home''] @ [''**'']" and ?xs = "[''home'', ''meo'', ''02.txt'']"
  have "short_path ''/home/**''" "split_path ''/home/**'' = Some ?ps"
    "short_path ''/home/meo/02.txt''" "split_path ''/home/meo/02.txt'' = Some ?xs"
    by code_simp+
  from translated_pairI [OF this] obtain P X where
    tp: "translated_pair ''/home/**'' ?ps P ''/home/meo/02.txt'' ?xs X" by blast
  have nds: "''**'' \<notin> set [''home'']" by code_simp
  have fits: "fits_along [''home''] ?xs"
    by (simp add: fits_along_def fits_def comp_type_def)
  have "path_glob ?ps ?xs" by code_simp
  then show ?thesis
    using fn_match_double_star_end [OF tp nds fits] tp by (auto simp: translated_pair_def)
qed

text \<open>The pattern and the path of the unit test, with one \<open>**\<close> in front of the file name.\<close>

lemma ds_example:
  "\<exists>P X. translated_pair ''/home/**/03.txt'' ([''home''] @ [''**'', ''03.txt'']) P
     ''/home/abc/def/03.txt'' [''home'', ''abc'', ''def'', ''03.txt''] X"
  "''**'' \<notin> set [''home'']" "''03.txt'' \<noteq> ''**''"
  "fits_along [''home''] [''home'', ''abc'', ''def'', ''03.txt'']"
  "\<forall>x \<in> set (drop (Suc (length [''home''])) [''home'', ''abc'', ''def'', ''03.txt'']).
     fits ''03.txt'' x"
proof -
  show "\<exists>P X. translated_pair ''/home/**/03.txt'' ([''home''] @ [''**'', ''03.txt'']) P
     ''/home/abc/def/03.txt'' [''home'', ''abc'', ''def'', ''03.txt''] X"
    by (rule translated_pairI) code_simp+
qed (simp_all add: fits_along_def fits_def comp_type_def)

theorem fn_match_double_star_scan_witness:
  "\<exists>P X P' X'. fn_translate ''/home/**/03.txt'' True = Inr (Some P) \<and>
    fn_translate ''/home/abc/def/03.txt'' False = Inr (Some X) \<and>
    fn_match P X = Inr (MATCH, P', X')"
proof -
  obtain P X where tp: "translated_pair ''/home/**/03.txt'' ([''home''] @ [''**'', ''03.txt'']) P
      ''/home/abc/def/03.txt'' [''home'', ''abc'', ''def'', ''03.txt''] X"
    using ds_example(1) by blast
  have "length [''home''] \<le> length [''home'', ''abc'', ''def'', ''03.txt''] \<and>
      list_all2 glob [''home''] (take (length [''home'']) [''home'', ''abc'', ''def'', ''03.txt'']) \<and>
      ds_scan ''03.txt'' (drop (length [''home'']) [''home'', ''abc'', ''def'', ''03.txt''])"
    by code_simp
  then show ?thesis
    using fn_match_double_star_scan [OF tp ds_example(2-5)] tp by (simp add: translated_pair_def)
qed

theorem fn_match_double_star_sound_witness:
  "\<exists>P X P' X'. fn_translate ''/home/**/03.txt'' True = Inr (Some P) \<and>
    fn_translate ''/home/abc/def/03.txt'' False = Inr (Some X) \<and>
    fn_match P X = Inr (MATCH, P', X') \<and>
    path_glob [''home'', ''**'', ''03.txt''] [''home'', ''abc'', ''def'', ''03.txt'']"
proof -
  obtain P X where tp: "translated_pair ''/home/**/03.txt'' ([''home''] @ [''**'', ''03.txt'']) P
      ''/home/abc/def/03.txt'' [''home'', ''abc'', ''def'', ''03.txt''] X"
    using ds_example(1) by blast
  have "path_glob ([''home''] @ [''**'', ''03.txt'']) [''home'', ''abc'', ''def'', ''03.txt''] \<and>
    (\<forall>x \<in> set (butlast (drop (Suc (length [''home''])) [''home'', ''abc'', ''def'', ''03.txt''])).
      \<not> glob ''03.txt'' x)" by code_simp
  then show ?thesis
    using fn_match_double_star_sound [OF tp ds_example(2-5)] tp
    by (auto simp: translated_pair_def simp del: path_glob.simps glob.simps)
qed

theorem readme_root_pattern_witness:
  "\<exists>P X P' X'. fn_translate ''/root/**/*'' True = Inr (Some P) \<and>
    fn_translate ''/root/a/b/c/d'' False = Inr (Some X) \<and> fn_match P X = Inr (NO_MATCH, P', X')"
proof -
  have "\<exists>P X. translated_pair ''/root/**/*'' [''root'', ''**'', ''*''] P
      ''/root/a/b/c/d'' [''root'', ''a'', ''b'', ''c'', ''d''] X"
    by (rule translated_pairI) code_simp+
  then obtain P X where tp: "translated_pair ''/root/**/*'' [''root'', ''**'', ''*''] P
      ''/root/a/b/c/d'' [''root'', ''a'', ''b'', ''c'', ''d''] X" by blast
  show ?thesis using readme_root_pattern [OF tp] tp by (auto simp: translated_pair_def)
qed

end
