(* ===== verification/File_Filter.thy ===== *)
theory File_Filter
  imports Fnmatch_Correct
begin

text \<open>
  The path filter of a monitor (\<open>src/monitors/file_filter.c\<close>): a list of translated patterns
  and, at the same index, the id of the policy each one came from. The interface the monitors
  rely on is the locale \<open>path_filter\<close>; it is interpreted on the operations of this file.
\<close>

definition MAX_PATTERNS :: nat where
  "MAX_PATTERNS = 128"

record filter_t =
  patterns :: "nodelist list"
  ids :: "int list"

definition filter_init :: filter_t where
  "filter_init = \<lparr>patterns = [], ids = replicate MAX_PATTERNS 0\<rparr>"

text \<open>\<open>filter_add\<close> returns 0, or -1 when the pattern does not translate.\<close>

definition filter_add :: "filter_t \<Rightarrow> string \<Rightarrow> int \<Rightarrow> (filter_t \<times> int) result" where
  "filter_add f pattern pid =
     rbind (fn_translate pattern True) (\<lambda>nodes. case nodes of
       None \<Rightarrow> Inr (f, -1)
     | Some nodes \<Rightarrow>
         rbind (arr_set (ids f) (int (length (patterns f))) pid) (\<lambda>ids'.
           Inr (f\<lparr>ids := ids', patterns := patterns f @ [nodes]\<rparr>, 0)))"

text \<open>
  The \<open>for\<close> loop of \<open>filter_match\<close> from index \<open>i\<close> on; \<open>fn_match\<close> moves the cursors of the
  pattern and of the path, so both are passed on.
\<close>

fun filter_match_loop ::
  "int list \<Rightarrow> nat \<Rightarrow> nodelist list \<Rightarrow> nodelist \<Rightarrow> (int \<times> nodelist list) result" where
  "filter_match_loop id_arr i [] nodes = Inr (-1, [])"
| "filter_match_loop id_arr i (pattern # ps) nodes =
     rbind (fn_match pattern nodes) (\<lambda>r. case r of (m, pattern', nodes') \<Rightarrow>
       if m = 0 then rbind (arr_get id_arr (int i)) (\<lambda>pid. Inr (pid, pattern' # ps))
       else rbind (filter_match_loop id_arr (Suc i) ps nodes') (\<lambda>s. case s of (pid, ps') \<Rightarrow>
         Inr (pid, pattern' # ps')))"

definition filter_match :: "filter_t \<Rightarrow> string \<Rightarrow> (int \<times> filter_t) result" where
  "filter_match f filepath =
     rbind (fn_translate filepath False) (\<lambda>nodes. case nodes of
       None \<Rightarrow> Inr (-1, f)
     | Some nodes \<Rightarrow>
         rbind (filter_match_loop (ids f) 0 (patterns f) nodes) (\<lambda>r. case r of (pid, ps) \<Rightarrow>
           Inr (pid, f\<lparr>patterns := ps\<rparr>)))"

text \<open>\<open>filter_close\<close> frees the node lists, one by one; the value is the list of those freed.\<close>

definition filter_close :: "filter_t \<Rightarrow> nodelist list" where
  "filter_close f = patterns f"

section \<open>The answer of the matcher depends on the components only\<close>

lemma match_nodes_comps:
  assumes "pat_wf P ps" and "nl_wf X xs" and "pat_wf P' ps" and "nl_wf X' xs"
  shows "match_nodes P X p e = match_nodes P' X' p e"
proof -
  have "\<forall>P' X'. pat_wf P ps \<longrightarrow> nl_wf X xs \<longrightarrow> pat_wf P' ps \<longrightarrow> nl_wf X' xs \<longrightarrow>
    match_nodes P X p e = match_nodes P' X' p e"
  proof (induction P X p e rule: match_nodes.induct)
    case (1 P X p e)
    show ?case
    proof (intro allI impI)
      fix P' X'
      assume wf: "pat_wf P ps" "nl_wf X xs" and wf': "pat_wf P' ps" "nl_wf X' xs"
      have cnt: "node_cnt P = length ps" "node_cnt P' = length ps"
        "node_cnt X = length xs" "node_cnt X' = length xs"
        using wf wf' by (auto simp: pat_wf_def nl_wf_def)
      show "match_nodes P X p e = match_nodes P' X' p e"
      proof (cases "length xs \<le> e \<or> length ps \<le> p")
        case True
        then show ?thesis
          using match_nodes_end [of X e P p] match_nodes_end [of X' e P' p] by (simp add: cnt)
      next
        case False
        then have ty: "nodetypes P ! p = nodetypes P' ! p"
          using wf wf' by (simp add: pat_wf_def)
        have cur: "match_cur_node P X p e = match_cur_node P' X' p e"
          using match_cur_node_outcome [of _ ps _ xs p e] wf wf' False by simp
        have c: "\<not> (node_cnt X \<le> e \<and> node_cnt P \<le> p)" "\<not> node_cnt X \<le> e" "\<not> node_cnt P \<le> p"
          using False by (auto simp: cnt)
        note eqs = match_nodes.simps [of P X p e] match_nodes.simps [of P' X' p e]
        show ?thesis
        proof (cases "nodetypes P ! p = NODE_DOUBLE_STAR")
          case True
          have inner: "match_nodes P X (p + 1) (e + 1) = match_nodes P' X' (p + 1) (e + 1)"
            using "1.IH"(1) [OF c True] wf wf' by blast
          have outer: "match_nodes P X (p' - 1) e' = match_nodes P' X' (p' - 1) e'"
            if "match_nodes P X (p + 1) (e + 1) = Inr (False, p', e')" for p' e'
            using "1.IH"(2) [OF c True that refl refl] wf wf' by blast
          show ?thesis
            using False True inner outer ty unfolding eqs
            by (auto simp: cnt intro!: rbind_cong)
        next
          case nds: False
          have "match_nodes P X (p + 1) (e + 1) = match_nodes P' X' (p + 1) (e + 1)"
            if "match_cur_node P X p e = Inr True"
            using "1.IH"(3) [OF c nds that] wf wf' by blast
          then show ?thesis
            using False nds cur ty unfolding eqs by (auto simp: cnt intro!: rbind_cong)
        qed
      qed
    qed
  qed
  then show ?thesis using assms by blast
qed

text \<open>The node list that represents given components, and the decision \<open>fn_match\<close> takes on them.\<close>

definition canon :: "string list \<Rightarrow> nodelist" where
  "canon cs =
     \<lparr>node_cnt = length cs, cur_node = 0,
      offsets = map (pos cs) [0 ..< Suc (length cs)]
        @ replicate (MAX_DIR_LEVEL - Suc (length cs)) 0,
      nodetypes = map comp_type cs @ replicate (MAX_DIR_LEVEL - length cs) NODE_INVALID,
      str = concat cs @ zero_buf (MAX_PATH_LEN - length (concat cs))\<rparr>"

definition path_decision :: "string list \<Rightarrow> string list \<Rightarrow> bool result" where
  "path_decision ps xs =
     rbind (match_nodes (canon ps) (canon xs) 0 0) (\<lambda>r. case r of (m, _, _) \<Rightarrow> Inr m)"

definition small_comps :: "string list \<Rightarrow> bool" where
  "small_comps cs \<longleftrightarrow>
     length cs < MAX_DIR_LEVEL \<and> length (concat cs) < MAX_PATH_LEN \<and>
     (\<forall>c \<in> set cs. c \<noteq> [] \<and> NUL \<notin> set c)"

lemma nl_wf_small: "nl_wf l cs \<Longrightarrow> small_comps cs"
  by (simp add: nl_wf_def small_comps_def)

lemma canon_wf: "small_comps cs \<Longrightarrow> nl_wf (canon cs) cs" "small_comps cs \<Longrightarrow> pat_wf (canon cs) cs"
  by (auto simp: small_comps_def canon_def nl_wf_def pat_wf_def nth_append MAX_DIR_LEVEL_def
      simp del: upt_Suc)

lemma fn_match_decision:
  assumes "pat_wf P ps" and "nl_wf X xs"
  shows "(\<exists>b P' X'. path_decision ps xs = Inr b \<and> pat_wf P' ps \<and> nl_wf X' xs \<and>
      fn_match P X = Inr (if b then MATCH else NO_MATCH, P', X')) \<or>
    (\<exists>u. path_decision ps xs = Inl u \<and> fn_match P X = Inl u)"
proof -
  have small: "small_comps ps" "small_comps xs"
    using assms nl_wf_small by (auto simp: pat_wf_def)
  have eq: "match_nodes P X 0 0 = match_nodes (canon ps) (canon xs) 0 0"
    by (rule match_nodes_comps [OF assms canon_wf(2) [OF small(1)] canon_wf(1) [OF small(2)]])
  show ?thesis
  proof (cases "match_nodes (canon ps) (canon xs) 0 0")
    case (Inl u)
    then show ?thesis by (simp add: path_decision_def fn_match_def eq)
  next
    case (Inr r)
    then obtain b p e where "match_nodes (canon ps) (canon xs) 0 0 = Inr (b, p, e)"
      by (cases r) auto
    then show ?thesis
      using assms by (auto simp: path_decision_def fn_match_def eq pat_wf_def nl_wf_def)
  qed
qed

section \<open>The contract of a filter\<close>

text \<open>
  The view of a filter is the list of the patterns added so far, as components, with their ids.
  \<open>first_match\<close> is what a client expects from \<open>filter_match\<close>: the id of the first pattern
  that matches, or -1.
\<close>

type_synonym filter_view = "(string list \<times> int) list"

fun first_match :: "filter_view \<Rightarrow> string list \<Rightarrow> int result" where
  "first_match [] xs = Inr (-1)"
| "first_match ((ps, pid) # vs) xs =
     rbind (path_decision ps xs) (\<lambda>m. if m then Inr pid else first_match vs xs)"

text \<open>What a list of (pattern, id) pairs contributes to a view: the pairs whose pattern parses.\<close>

fun parsed_patterns :: "(string \<times> int) list \<Rightarrow> filter_view" where
  "parsed_patterns [] = []"
| "parsed_patterns ((s, pid) # l) =
     (case split_path s of
        None \<Rightarrow> parsed_patterns l
      | Some ps \<Rightarrow> (ps, pid) # parsed_patterns l)"

locale path_filter =
  fixes init :: 'f
    and add :: "'f \<Rightarrow> string \<Rightarrow> int \<Rightarrow> ('f \<times> int) result"
    and fmatch :: "'f \<Rightarrow> string \<Rightarrow> (int \<times> 'f) result"
    and represents :: "'f \<Rightarrow> filter_view \<Rightarrow> bool"
    and capacity :: nat
  assumes init_view: "represents init []"
    and add_pattern: "represents f v \<Longrightarrow> short_path s \<Longrightarrow> split_path s = Some ps \<Longrightarrow>
      length v < capacity \<Longrightarrow> \<exists>f'. add f s pid = Inr (f', 0) \<and> represents f' (v @ [(ps, pid)])"
    and add_invalid: "represents f v \<Longrightarrow> short_path s \<Longrightarrow> split_path s = None \<Longrightarrow>
      add f s pid = Inr (f, -1)"
    and add_full: "represents f v \<Longrightarrow> short_path s \<Longrightarrow> split_path s = Some ps \<Longrightarrow>
      length v \<ge> capacity \<Longrightarrow> add f s pid = Inl OutOfBounds"
    and match_path: "represents f v \<Longrightarrow> short_path s \<Longrightarrow> split_path s = Some xs \<Longrightarrow>
      \<exists>f'. represents f' v \<and> fmatch f s = rbind (first_match v xs) (\<lambda>pid. Inr (pid, f'))"
    and match_invalid: "represents f v \<Longrightarrow> short_path s \<Longrightarrow> split_path s = None \<Longrightarrow>
      fmatch f s = Inr (-1, f)"
begin

lemma add_all_view:
  assumes "represents f v" and "\<forall>(s, pid) \<in> set l. short_path s" and "length v + length l \<le> capacity"
  shows "\<exists>f'. foldm (\<lambda>(s, pid) f. map_sum id fst (add f s pid)) l f = Inr f' \<and>
    represents f' (v @ parsed_patterns l)"
  using assms
proof (induction l arbitrary: f v)
  case Nil
  then show ?case by simp
next
  case (Cons a l)
  obtain s pid where a: "a = (s, pid)" by (cases a)
  show ?case
  proof (cases "split_path s")
    case None
    then have "add f s pid = Inr (f, -1)" using Cons.prems a add_invalid by auto
    then show ?thesis using Cons.IH [OF Cons.prems(1)] Cons.prems None a by simp
  next
    case (Some ps)
    then obtain f' where f': "add f s pid = Inr (f', 0)" "represents f' (v @ [(ps, pid)])"
      using Cons.prems a add_pattern [of f v s ps pid] by auto
    then show ?thesis using Cons.IH [OF f'(2)] Cons.prems Some a by simp
  qed
qed

lemma match_after_add_all:
  assumes "\<forall>(s, pid) \<in> set l. short_path s" and "length l \<le> capacity"
    and "short_path t" and "split_path t = Some xs"
  shows "\<exists>f f'. foldm (\<lambda>(s, pid) f. map_sum id fst (add f s pid)) l init = Inr f \<and>
    fmatch f t = rbind (first_match (parsed_patterns l) xs) (\<lambda>pid. Inr (pid, f'))"
proof -
  obtain f where f: "foldm (\<lambda>(s, pid) f. map_sum id fst (add f s pid)) l init = Inr f"
    "represents f (parsed_patterns l)"
    using add_all_view [OF init_view assms(1)] assms(2) by auto
  then show ?thesis using match_path [OF f(2) assms(3,4)] by blast
qed

end

section \<open>The filter of file\_filter.c\<close>

definition filter_view :: "filter_t \<Rightarrow> filter_view \<Rightarrow> bool" where
  "filter_view f v \<longleftrightarrow>
     length (patterns f) = length v \<and> length (ids f) = MAX_PATTERNS \<and> length v \<le> MAX_PATTERNS \<and>
     (\<forall>i < length v. pat_wf (patterns f ! i) (fst (v ! i)) \<and> ids f ! i = snd (v ! i))"

lemma filter_match_loop_first:
  assumes "\<forall>i < length vs. pat_wf (pats ! i) (fst (vs ! i)) \<and> id_arr ! (k + i) = snd (vs ! i)"
    and "length pats = length vs" and "k + length vs \<le> length id_arr" and "nl_wf X xs"
  shows "\<exists>pats'. length pats' = length vs \<and> (\<forall>i < length vs. pat_wf (pats' ! i) (fst (vs ! i))) \<and>
    filter_match_loop id_arr k pats X = rbind (first_match vs xs) (\<lambda>pid. Inr (pid, pats'))"
  using assms
proof (induction vs arbitrary: k pats X)
  case Nil
  then show ?case by simp
next
  case (Cons v vs)
  obtain ps pid where v: "v = (ps, pid)" by (cases v)
  obtain P pats' where pats: "pats = P # pats'" using Cons.prems(2) by (cases pats) auto
  have P: "pat_wf P ps" and idk: "id_arr ! k = pid"
    using Cons.prems(1) [rule_format, of 0] by (auto simp: pats v)
  have tail: "\<forall>i < length vs. pat_wf (pats' ! i) (fst (vs ! i)) \<and> id_arr ! (Suc k + i) = snd (vs ! i)"
    using Cons.prems(1) [rule_format, of "Suc _"] by (auto simp: pats)
  from fn_match_decision [OF P Cons.prems(4)] show ?case
  proof (elim disjE exE conjE)
    fix u assume "path_decision ps xs = Inl u" "fn_match P X = Inl u"
    then show ?thesis using Cons.prems(1,2) by (intro exI [of _ pats]) (auto simp: pats v)
  next
    fix b P' X'
    assume b: "path_decision ps xs = Inr b" and P': "pat_wf P' ps" and X': "nl_wf X' xs" and
      m: "fn_match P X = Inr (if b then MATCH else NO_MATCH, P', X')"
    show ?thesis
    proof (cases b)
      case True
      have "arr_get id_arr (int k) = Inr pid" using Cons.prems(3) idk by simp
      then show ?thesis
        using True b m P' tail Cons.prems(2)
        by (intro exI [of _ "P' # pats'"]) (auto simp: pats v MATCH_def nth_Cons split: nat.splits)
    next
      case False
      obtain qs where qs: "length qs = length vs" "\<forall>i < length vs. pat_wf (qs ! i) (fst (vs ! i))"
        "filter_match_loop id_arr (Suc k) pats' X'
          = rbind (first_match vs xs) (\<lambda>pid. Inr (pid, qs))"
        using Cons.IH [OF tail _ _ X'] Cons.prems(2,3) by (auto simp: pats)
      then show ?thesis
        using False b m P'
        by (intro exI [of _ "P' # qs"])
          (auto simp: pats v NO_MATCH_def rbind_assoc nth_Cons split: nat.splits)
    qed
  qed
qed

interpretation ff: path_filter filter_init filter_add filter_match filter_view MAX_PATTERNS
proof unfold_locales
  show "filter_view filter_init []"
    by (simp add: filter_view_def filter_init_def)
next
  fix f v s ps pid
  assume v: "filter_view f v" and s: "short_path s" "split_path s = Some ps"
    and room: "length v < MAX_PATTERNS"
  then obtain l where "fn_translate s True = Inr (Some l)" "pat_wf l ps"
    using translate_short [OF s(1), of True] by (auto simp: translate_post_def)
  then show "\<exists>f'. filter_add f s pid = Inr (f', 0) \<and> filter_view f' (v @ [(ps, pid)])"
    using v room by (auto simp: filter_add_def filter_view_def nth_append nth_list_update)
next
  fix f v s pid
  assume "filter_view f v" and "short_path s" "split_path s = None"
  then show "filter_add f s pid = Inr (f, -1)"
    using translate_short [of s True] by (simp add: filter_add_def translate_post_def)
next
  fix f v s ps pid
  assume v: "filter_view f v" and s: "short_path s" "split_path s = Some ps"
    and full: "length v \<ge> MAX_PATTERNS"
  then obtain l where "fn_translate s True = Inr (Some l)"
    using translate_short [OF s(1), of True] by (auto simp: translate_post_def)
  then show "filter_add f s pid = Inl OutOfBounds"
    using v full by (simp add: filter_add_def filter_view_def arr_set_def)
next
  fix f v s xs
  assume v: "filter_view f v" and s: "short_path s" "split_path s = Some xs"
  then obtain X where X: "fn_translate s False = Inr (Some X)" "nl_wf X xs"
    using translate_short [OF s(1), of False] by (auto simp: translate_post_def)
  obtain pats where "length pats = length v" "\<forall>i < length v. pat_wf (pats ! i) (fst (v ! i))"
    "filter_match_loop (ids f) 0 (patterns f) X = rbind (first_match v xs) (\<lambda>pid. Inr (pid, pats))"
    using filter_match_loop_first [of v "patterns f" "ids f" 0 X xs] v X(2)
    by (auto simp: filter_view_def)
  then show "\<exists>f'. filter_view f' v \<and>
      filter_match f s = rbind (first_match v xs) (\<lambda>pid. Inr (pid, f'))"
    using v X(1)
    by (intro exI [of _ "f\<lparr>patterns := pats\<rparr>"])
      (auto simp: filter_match_def filter_view_def rbind_assoc)
next
  fix f v s
  assume "filter_view f v" and "short_path s" "split_path s = None"
  then show "filter_match f s = Inr (-1, f)"
    using translate_short [of s False] by (simp add: filter_match_def translate_post_def)
qed

section \<open>Properties\<close>

text \<open>
  Property C4. After a list of (pattern, policy id) pairs was added to a fresh filter,
  \<open>filter_match\<close> answers with the id of the first pattern, in the order they were added, that
  the matcher accepts, and with -1 when none does; patterns that do not translate are skipped.
\<close>

theorem filter_match_first_added:
  assumes "\<forall>(s, pid) \<in> set l. short_path s" and "length l \<le> MAX_PATTERNS"
    and "short_path t" and "split_path t = Some xs"
  shows "\<exists>f f'. foldm (\<lambda>(s, pid) f. map_sum id fst (filter_add f s pid)) l filter_init = Inr f \<and>
    filter_match f t = rbind (first_match (parsed_patterns l) xs) (\<lambda>pid. Inr (pid, f'))"
  by (rule ff.match_after_add_all [OF assms])

theorem filter_match_first_added_witness:
  "\<exists>f f'. foldm (\<lambda>(s, pid) f. map_sum id fst (filter_add f s pid))
      [(''/home/meo/exercise/01.pdf'', 1), (''/home/meo/exercise/02.*'', 2),
       (''/home/*/lesson/02.txt'', 3), (''/home/**/03.txt'', 4)] filter_init = Inr f \<and>
    filter_match f ''/home/abc/def/03.txt'' = Inr (4, f')"
proof -
  let ?l = "[(''/home/meo/exercise/01.pdf'', 1), (''/home/meo/exercise/02.*'', 2),
       (''/home/*/lesson/02.txt'', 3), (''/home/**/03.txt'', 4)] :: (string \<times> int) list"
  let ?xs = "[''home'', ''abc'', ''def'', ''03.txt'']"
  have l: "\<forall>(s, pid) \<in> set ?l. short_path s" by code_simp
  have n: "length ?l \<le> MAX_PATTERNS" by (simp add: MAX_PATTERNS_def)
  have t: "short_path ''/home/abc/def/03.txt''" by code_simp
  have xs: "split_path ''/home/abc/def/03.txt'' = Some ?xs" by code_simp
  have "first_match (parsed_patterns ?l) ?xs = Inr 4" by code_simp
  then show ?thesis using filter_match_first_added [OF l n t xs] by simp
qed

text \<open>
  The id array has 128 entries and \<open>filter_add\<close> does not check its length: once 128
  patterns are in the filter, adding another pattern that translates writes behind the array.
\<close>

theorem filter_add_overflow:
  assumes "filter_view f v" and "length v = MAX_PATTERNS"
    and "short_path s" and "split_path s = Some ps"
  shows "filter_add f s pid = Inl OutOfBounds"
  using ff.add_full [OF assms(1,3,4)] assms(2) by simp

theorem filter_add_overflow_witness:
  "\<exists>f. foldm (\<lambda>(s, pid) f. map_sum id fst (filter_add f s pid))
      (replicate 128 (''/a'', 7)) filter_init = Inr f \<and> filter_add f ''/b'' 8 = Inl OutOfBounds"
proof -
  have sp: "short_path ''/a''" "short_path ''/b''" "split_path ''/a'' = Some [''a'']"
    "split_path ''/b'' = Some [''b'']" by code_simp+
  have pp: "parsed_patterns (replicate n (''/a'', 7)) = replicate n ([''a''], 7)" for n
    by (induction n) (simp_all add: sp)
  obtain f where f: "foldm (\<lambda>(s, pid) f. map_sum id fst (filter_add f s pid))
      (replicate 128 (''/a'', 7)) filter_init = Inr f"
    "filter_view f (replicate 128 ([''a''], 7))"
    using ff.add_all_view [OF ff.init_view, of "replicate 128 (''/a'', 7)"] sp(1)
    by (auto simp: pp MAX_PATTERNS_def)
  have "filter_add f ''/b'' 8 = Inl OutOfBounds"
    by (rule filter_add_overflow [OF f(2) _ sp(2,4)]) (simp add: MAX_PATTERNS_def)
  with f(1) show ?thesis by blast
qed

text \<open>The whole way of a pattern and a path through the matcher: translate both, then match.\<close>

definition match_strings :: "string \<Rightarrow> string \<Rightarrow> int option result" where
  "match_strings pattern filepath =
     rbind (fn_translate pattern True) (\<lambda>p.
     rbind (fn_translate filepath False) (\<lambda>x. case (p, x) of
         (Some P, Some X) \<Rightarrow> rbind (fn_match P X) (\<lambda>(m, _, _). Inr (Some m))
       | _ \<Rightarrow> Inr None))"

text \<open>
  \<open>_match\<close> does not backtrack properly after a failed \<open>**\<close>: a pattern with two or
  more components behind the \<open>**\<close> accepts a path it does not cover, and rejects one it does.
\<close>

theorem double_star_wrong_answers:
  "match_strings ''/home/**/a/b/c'' ''/home/x/a/b/b/c'' = Inr (Some MATCH) \<and>
   \<not> path_glob [''home'', ''**'', ''a'', ''b'', ''c''] [''home'', ''x'', ''a'', ''b'', ''b'', ''c''] \<and>
   match_strings ''/home/**/a/b'' ''/home/x/a/c/a/b'' = Inr (Some NO_MATCH) \<and>
   path_glob [''home'', ''**'', ''a'', ''b''] [''home'', ''x'', ''a'', ''c'', ''a'', ''b'']"
  by code_simp

text \<open>
  The comparison of a component with a wildcard runs over the border of the name:
  the pattern \<open>/dir/*rc\<close> accepts the path \<open>/dir/c\<close> and \<open>/ab*/bcd\<close> accepts \<open>/a/bcd\<close>, because the
  node list keeps no separators; \<open>/*ab\<close> reads in front of the buffer on \<open>/b\<close>.
\<close>

theorem wildcard_crosses_components:
  "match_strings ''/dir/*rc'' ''/dir/c'' = Inr (Some MATCH) \<and> \<not> glob ''*rc'' ''c'' \<and>
   match_strings ''/ab*/bcd'' ''/a/bcd'' = Inr (Some MATCH) \<and> \<not> glob ''ab*'' ''a'' \<and>
   match_strings ''/*ab'' ''/b'' = Inl OutOfBounds"
  by code_simp

end
