(* ===== verification/Policy.thy ===== *)
theory Policy
  imports CString
begin

text \<open>
  The policy file parser (\<open>src/policy.c\<close>, \<open>src/include/policy.h\<close>). The file is given by its
  bytes; the table that \<open>get_policies\<close> builds is a map from policy ids to policies. The line
  numbers reported on \<open>stderr\<close> are a second result.
\<close>

section \<open>Data\<close>

datatype severity_t = SEVERITY_INVALID | WARNING | CRITICAL

datatype monitor_t =
    MON_INVALID | MON_CREATE | MON_DELETE | MON_MODIFY_CONTENT | MON_MODIFY_LOGFILE
  | MON_CHANGE_ATTR | MON_CHANGE_ACCESS | MON_CHANGE_ATTR_READONLY
  | MON_CHANGE_ATTR_PERMISSION | MON_CHANGE_ATTR_OWNERSHIP | MON_CHANGE_ATTR_HIDDEN

definition POLICY_OPTIONS_DIR :: u8 where "POLICY_OPTIONS_DIR = 1"
definition POLICY_OPTIONS_RECURSIVE :: u8 where "POLICY_OPTIONS_RECURSIVE = 2"
definition POLICY_OPTIONS_EXTRACT :: u8 where "POLICY_OPTIONS_EXTRACT = 4"

definition PATH_MAX_LEN :: nat where "PATH_MAX_LEN = 1024"
definition STR_BUFF :: nat where "STR_BUFF = 1024"

record policy_t =
  pol_id :: int
  pol_path :: string
  pol_type :: monitor_t
  pol_options :: u8
  pol_severity :: severity_t

text \<open>The zeroed structure that \<open>calloc\<close> returns.\<close>

definition calloc_policy :: policy_t where
  "calloc_policy =
     \<lparr>pol_id = 0, pol_path = [], pol_type = MON_INVALID, pol_options = 0,
      pol_severity = SEVERITY_INVALID\<rparr>"

section \<open>Operations\<close>

definition LF :: char where "LF = CHR 0x0A"
definition CR :: char where "CR = CHR 0x0D"
definition TAB :: char where "TAB = CHR 0x09"

definition trim_left :: "string \<Rightarrow> string" where
  "trim_left s = dropWhile (\<lambda>c. c = CHR '' '' \<or> c = TAB) s"

definition lookup_severity :: "string option \<Rightarrow> severity_t result" where
  "lookup_severity s =
     rbind (strcicmp s ''WARNING'') (\<lambda>d. if d = 0 then Inr WARNING else
     rbind (strcicmp s ''CRITICAL'') (\<lambda>d. if d = 0 then Inr CRITICAL else
     Inr SEVERITY_INVALID))"

definition lookup_action :: "string option \<Rightarrow> monitor_t result" where
  "lookup_action s =
     rbind (strcicmp s ''CREATE'') (\<lambda>d. if d = 0 then Inr MON_CREATE else
     rbind (strcicmp s ''DELETE'') (\<lambda>d. if d = 0 then Inr MON_DELETE else
     rbind (strcicmp s ''MODIFY_CONTENT'') (\<lambda>d. if d = 0 then Inr MON_MODIFY_CONTENT else
     rbind (strcicmp s ''CHANGE_ATTR'') (\<lambda>d. if d = 0 then Inr MON_CHANGE_ATTR else
     rbind (strcicmp s ''CHANGE_ACCESS'') (\<lambda>d. if d = 0 then Inr MON_CHANGE_ACCESS else
     Inr MON_INVALID)))))"

text \<open>
  \<open>_parse_options\<close>: a null argument makes \<open>strtok\<close> go on from the saved pointer \<open>saved\<close>. The
  loop looks at the tokens one by one.
\<close>

function parse_options_loop :: "string option \<times> string \<Rightarrow> u8 \<Rightarrow> u8" where
  "parse_options_loop (None, saved) options = options"
| "parse_options_loop (Some opt, saved) options =
     parse_options_loop (strtok saved [CHR '' '', TAB, CHR 0x22, LF])
       (if strcicmp_str opt ''EXTRACT'' = 0 then options OR POLICY_OPTIONS_EXTRACT
        else options)"
  by pat_completeness auto
termination
  by (relation "measure (\<lambda>((t, saved), _). (case t of None \<Rightarrow> 0 | Some _ \<Rightarrow> Suc (length saved)))")
    (auto split: option.splits prod.splits dest: strtok_shorter)

definition parse_options :: "string option \<Rightarrow> string \<Rightarrow> u8" where
  "parse_options s saved =
     parse_options_loop
       (strtok (case s of None \<Rightarrow> saved | Some t \<Rightarrow> t) [CHR '' '', TAB, LF, CHR 0x22]) 0"

definition check_valid :: "policy_t \<Rightarrow> bool" where
  "check_valid policy \<longleftrightarrow>
     \<not> (pol_id policy = 0 \<or> pol_severity policy = SEVERITY_INVALID \<or>
        pol_type policy = MON_INVALID \<or> pol_path policy = [])"

definition atoi_ptr :: "string option \<Rightarrow> int result" where
  "atoi_ptr s = (case s of None \<Rightarrow> Inl NullDeref | Some t \<Rightarrow> Inr (atoi t))"

text \<open>\<open>strcpy\<close> into an array of \<open>n\<close> bytes; the string needs a byte for its NUL.\<close>

definition strcpy :: "nat \<Rightarrow> string \<Rightarrow> string result" where
  "strcpy n s = (if length s < n then Inr s else Inl OutOfBounds)"

text \<open>The body of the loop of \<open>get_policies\<close> for a line that is not skipped.\<close>

definition parse_policy :: "string \<Rightarrow> policy_t result" where
  "parse_policy line =
     (let blanks = [CHR '' '', TAB, CR, LF];
          (token, s1) = strtok line blanks
      in rbind (atoi_ptr token) (\<lambda>i.
      let (sev, s2) = strtok s1 blanks in
      rbind (lookup_severity sev) (\<lambda>severity.
      let (act, s3) = strtok s2 blanks in
      rbind (lookup_action act) (\<lambda>type.
      let (filepath, s4) = strtok s3 blanks in
      rbind (case filepath of None \<Rightarrow> Inr [] | Some p \<Rightarrow> strcpy PATH_MAX_LEN p) (\<lambda>path.
      let (opts, s5) = strtok s4 [CR, LF] in
      Inr (calloc_policy\<lparr>pol_id := i, pol_severity := severity, pol_type := type,
             pol_path := path, pol_options := parse_options opts s5\<rparr>))))))"

definition skip_line :: "string \<Rightarrow> bool" where
  "skip_line line \<longleftrightarrow> (case line of [] \<Rightarrow> False | c # _ \<Rightarrow> c = CHR ''#'' \<or> c = LF \<or> c = CR)"

text \<open>
  \<open>fgets (buff, n, fp)\<close>: at most \<open>n - 1\<close> bytes, up to and including the next newline. The
  first result is what the buffer holds, the second the rest of the file.
\<close>

definition fgets :: "nat \<Rightarrow> string \<Rightarrow> (string \<times> string) option" where
  "fgets n s =
     (let k = min (n - 1) (Suc (length (takeWhile (\<lambda>c. c \<noteq> LF) s))) in
      if s = [] then None else Some (take k s, drop k s))"

lemma fgets_shorter: "1 < n \<Longrightarrow> fgets n s = Some (l, r) \<Longrightarrow> length r < length s"
  by (auto simp: fgets_def Let_def split: if_splits)

type_synonym policies = "int \<Rightarrow> policy_t option"

function get_policies_loop ::
  "string \<Rightarrow> nat \<Rightarrow> policies \<Rightarrow> nat list \<Rightarrow> (policies \<times> nat list) result" where
  "get_policies_loop fp linecnt hashtable errs =
     (case fgets STR_BUFF fp of
        None \<Rightarrow> Inr (hashtable, errs)
      | Some (buff, fp') \<Rightarrow>
          let linecnt' = linecnt + 1; line = trim_left (c_str buff) in
          if skip_line line then get_policies_loop fp' linecnt' hashtable errs
          else rbind (parse_policy line) (\<lambda>policy.
            if check_valid policy
            then get_policies_loop fp' linecnt' (hashtable(pol_id policy \<mapsto> policy)) errs
            else get_policies_loop fp' linecnt' hashtable (errs @ [linecnt'])))"
  by pat_completeness auto
termination
  by (relation "measure (\<lambda>(fp, _). length fp)")
    (auto simp: STR_BUFF_def dest!: fgets_shorter [rotated])

declare get_policies_loop.simps [simp del]

text \<open>\<open>get_policies\<close> of a file that cannot be opened (\<open>None\<close>) is the null pointer.\<close>

definition get_policies :: "string option \<Rightarrow> (policies option \<times> nat list) result" where
  "get_policies policy_file =
     (case policy_file of None \<Rightarrow> Inr (None, [])
      | Some fp \<Rightarrow> rbind (get_policies_loop fp 0 (\<lambda>_. None) []) (\<lambda>(t, errs). Inr (Some t, errs)))"

text \<open>\<open>free_policies\<close> frees the policies that are values of the table.\<close>

definition free_policies :: "policies option \<Rightarrow> policy_t set" where
  "free_policies t = (case t of None \<Rightarrow> {} | Some m \<Rightarrow> ran m)"

section \<open>The lines of a file\<close>

function fgets_all :: "string \<Rightarrow> string list" where
  "fgets_all fp =
     (case fgets STR_BUFF fp of None \<Rightarrow> [] | Some (buff, fp') \<Rightarrow> buff # fgets_all fp')"
  by pat_completeness auto
termination
  by (relation "measure length") (auto simp: STR_BUFF_def dest!: fgets_shorter [rotated])

declare fgets_all.simps [simp del]

lemma fgets_all_length: "l \<in> set (fgets_all s) \<Longrightarrow> length l < STR_BUFF"
proof (induction s rule: fgets_all.induct)
  case (1 s)
  show ?case
  proof (cases "fgets STR_BUFF s")
    case None
    with "1.prems" show ?thesis by (simp add: fgets_all.simps [of s])
  next
    case (Some br)
    then obtain b r where br: "fgets STR_BUFF s = Some (b, r)" by (cases br) auto
    then have "length b < STR_BUFF" by (auto simp: fgets_def STR_BUFF_def Let_def split: if_splits)
    with "1.prems" "1.IH" [OF br refl] br show ?thesis by (auto simp: fgets_all.simps [of s])
  qed
qed

text \<open>The statements of the file: the lines that are neither empty nor a comment.\<close>

definition statements :: "string \<Rightarrow> (nat \<times> string) list" where
  "statements fp =
     [(n, l) \<leftarrow> enumerate 1 (map (\<lambda>b. trim_left (c_str b)) (fgets_all fp)). \<not> skip_line l]"

text \<open>What one statement does to the table and to the list of reported lines.\<close>

definition apply_statement ::
  "nat \<times> string \<Rightarrow> policies \<times> nat list \<Rightarrow> (policies \<times> nat list) result" where
  "apply_statement st acc =
     (case (st, acc) of ((n, line), (t, errs)) \<Rightarrow>
       rbind (parse_policy line) (\<lambda>p.
         Inr (if check_valid p then (t(pol_id p \<mapsto> p), errs) else (t, errs @ [n]))))"

lemma apply_statement_Inl:
  "parse_policy line = Inl e \<Longrightarrow> apply_statement (n, line) acc = Inl e"
  by (cases acc) (simp add: apply_statement_def)

lemma apply_statement_Inr:
  "parse_policy line = Inr p \<Longrightarrow>
   apply_statement (n, line) (t, errs) =
     Inr (if check_valid p then (t(pol_id p \<mapsto> p), errs) else (t, errs @ [n]))"
  by (simp add: apply_statement_def)

lemma get_policies_loop_foldm:
  "get_policies_loop fp n t errs =
     foldm apply_statement
       [(n, l) \<leftarrow> enumerate (Suc n) (map (\<lambda>b. trim_left (c_str b)) (fgets_all fp)). \<not> skip_line l]
       (t, errs)"
proof (induction fp n t errs rule: get_policies_loop.induct)
  case (1 fp n t errs)
  show ?case
  proof (cases "fgets STR_BUFF fp")
    case None
    then show ?thesis by (simp add: get_policies_loop.simps [of fp] fgets_all.simps [of fp])
  next
    case (Some br)
    then obtain b r where br: "fgets STR_BUFF fp = Some (b, r)" by (cases br) auto
    let ?l = "trim_left (c_str b)"
    show ?thesis
    proof (cases "skip_line ?l")
      case True
      then show ?thesis
        using br "1.IH"(1) [OF br refl refl refl True]
        by (simp add: get_policies_loop.simps [of fp] fgets_all.simps [of fp] Let_def)
    next
      case False
      show ?thesis
      proof (cases "parse_policy ?l")
        case (Inl e)
        then show ?thesis using br False
          by (simp add: get_policies_loop.simps [of fp] fgets_all.simps [of fp] Let_def
              apply_statement_Inl)
      next
        case (Inr p)
        note IH = "1.IH"(2,3) [OF br refl refl refl False Inr]
        show ?thesis
        proof (cases "check_valid p")
          case True
          then show ?thesis using br False Inr IH(1)
            by (simp add: get_policies_loop.simps [of fp] fgets_all.simps [of fp] Let_def
                apply_statement_Inr fun_upd_def)
        next
          case nv: False
          then show ?thesis using br False Inr IH(2)
            by (simp add: get_policies_loop.simps [of fp] fgets_all.simps [of fp] Let_def
                apply_statement_Inr)
        qed
      qed
    qed
  qed
qed

lemma get_policies_foldm:
  "get_policies (Some fp) =
     rbind (foldm apply_statement (statements fp) (\<lambda>_. None, [])) (\<lambda>(t, errs). Inr (Some t, errs))"
  by (simp add: get_policies_def get_policies_loop_foldm statements_def)

end
