(* ===== verification/Policy_Table.thy ===== *)
theory Policy_Table
  imports Policy
begin

text \<open>
  What \<open>get_policies\<close> makes of a policy file: which files crash it, which table the others
  give, what holds of every entry, and that a table written out in the documented format is
  read back.
\<close>

definition blanks :: string where
  "blanks = [CHR '' '', TAB, CR, LF]"

lemma strtok_None: "strtok s d = (None, r) \<Longrightarrow> r = [] \<and> strtok_all d s = []"
  by (subst strtok_all.simps) (auto simp: strtok_def Let_def split: if_splits)

lemma strtok_Some: "strtok s d = (Some t, r) \<Longrightarrow> strtok_all d s = t # strtok_all d r"
  by (subst strtok_all.simps) simp

lemma strtok_all_Nil [simp]: "strtok_all d [] = []"
  by (simp add: strtok_all.simps [of d "[]"])

text \<open>A token that is there is looked up without undefined behaviour.\<close>

lemma strcicmp_Some [simp]: "strcicmp (Some s) b = Inr (strcicmp_str s b)"
  by (simp add: strcicmp_def)

lemma strcicmp_None [simp]: "strcicmp None b = Inl NullDeref"
  by (simp add: strcicmp_def)

lemma lookup_None [simp]:
  "lookup_severity None = Inl NullDeref" "lookup_action None = Inl NullDeref"
  by (simp_all add: lookup_severity_def lookup_action_def)

lemma lookup_severity_Some: "\<exists>v. lookup_severity (Some s) = Inr v"
  by (simp add: lookup_severity_def)

lemma lookup_action_Some:
  "\<exists>v. lookup_action (Some s) = Inr v \<and>
     v \<in> {MON_INVALID, MON_CREATE, MON_DELETE, MON_MODIFY_CONTENT, MON_CHANGE_ATTR,
          MON_CHANGE_ACCESS}"
  by (simp add: lookup_action_def)

lemma parse_options_loop_bits:
  "o1 \<in> {0, POLICY_OPTIONS_EXTRACT} \<Longrightarrow> parse_options_loop tk o1 \<in> {0, POLICY_OPTIONS_EXTRACT}"
proof (induction tk o1 rule: parse_options_loop.induct)
  case (2 opt saved options)
  have "options OR POLICY_OPTIONS_EXTRACT \<in> {0, POLICY_OPTIONS_EXTRACT}"
    using "2.prems" by (auto simp: POLICY_OPTIONS_EXTRACT_def)
  then show ?case using 2 by simp
qed simp

lemma parse_options_bits: "parse_options s saved \<in> {0, POLICY_OPTIONS_EXTRACT}"
  by (simp only: parse_options_def) (rule parse_options_loop_bits, simp)

lemma parse_policy_few:
  "length (strtok_all blanks line) < 3 \<Longrightarrow> parse_policy line = Inl NullDeref"
proof -
  assume a: "length (strtok_all blanks line) < 3"
  obtain t1 s1 where 1: "strtok line blanks = (t1, s1)" by fastforce
  obtain t2 s2 where 2: "strtok s1 blanks = (t2, s2)" by fastforce
  obtain t3 s3 where 3: "strtok s2 blanks = (t3, s3)" by fastforce
  have "t1 = None \<or> t2 = None \<or> t3 = None"
    using a strtok_Some 1 2 3 by (cases t1; cases t2; cases t3) auto
  moreover obtain v where "t2 = None \<or> lookup_severity t2 = Inr v"
    using lookup_severity_Some by (cases t2) auto
  ultimately show ?thesis
    using 1 2 3 unfolding blanks_def
    by (cases t1; cases t2) (auto simp: parse_policy_def atoi_ptr_def Let_def
        dest: strtok_None split: prod.splits)
qed

lemma parse_policy_tokens:
  assumes "3 \<le> length (strtok_all blanks line)" and "length line < STR_BUFF"
  obtains p where "parse_policy line = Inr p"
    and "pol_id p = atoi (strtok_all blanks line ! 0)"
    and "lookup_severity (Some (strtok_all blanks line ! 1)) = Inr (pol_severity p)"
    and "lookup_action (Some (strtok_all blanks line ! 2)) = Inr (pol_type p)"
    and "pol_path p = (if length (strtok_all blanks line) = 3 then []
                       else strtok_all blanks line ! 3)"
    and "pol_options p \<in> {0, POLICY_OPTIONS_EXTRACT}"
proof -
  obtain t1 s1 where 1: "strtok line blanks = (t1, s1)" by fastforce
  obtain t2 s2 where 2: "strtok s1 blanks = (t2, s2)" by fastforce
  obtain t3 s3 where 3: "strtok s2 blanks = (t3, s3)" by fastforce
  obtain t4 s4 where 4: "strtok s3 blanks = (t4, s4)" by fastforce
  obtain t5 s5 where 5: "strtok s4 [CR, LF] = (t5, s5)" by fastforce
  from assms(1) obtain u1 where u1: "t1 = Some u1"
    using strtok_None [of line blanks s1] 1 by (cases t1) auto
  have e1: "strtok_all blanks line = u1 # strtok_all blanks s1" using strtok_Some 1 u1 by simp
  from assms(1) e1 obtain u2 where u2: "t2 = Some u2"
    using strtok_None [of s1 blanks s2] 2 by (cases t2) auto
  have e2: "strtok_all blanks s1 = u2 # strtok_all blanks s2" using strtok_Some 2 u2 by simp
  from assms(1) e1 e2 obtain u3 where u3: "t3 = Some u3"
    using strtok_None [of s2 blanks s3] 3 by (cases t3) auto
  have e3: "strtok_all blanks s2 = u3 # strtok_all blanks s3" using strtok_Some 3 u3 by simp
  have len: "length s3 < STR_BUFF"
    using assms(2) strtok_shorter [OF 1 [unfolded u1]] strtok_shorter [OF 2 [unfolded u2]]
      strtok_shorter [OF 3 [unfolded u3]] by linarith
  let ?path = "case t4 of None \<Rightarrow> [] | Some p \<Rightarrow> p"
  have path: "(case t4 of None \<Rightarrow> Inr [] | Some p \<Rightarrow> strcpy PATH_MAX_LEN p) = (Inr ?path :: string result)"
    using len strtok_token [of s3 blanks _ s4] 4
    by (fastforce simp: strcpy_def PATH_MAX_LEN_def STR_BUFF_def split: option.splits)
  have pathn: "?path = (if length (strtok_all blanks line) = 3 then []
                       else strtok_all blanks line ! 3)"
    using strtok_None [of s3 blanks s4] strtok_Some [of s3 blanks _ s4] 4 e1 e2 e3
    by (cases t4) auto
  obtain sv where sv: "lookup_severity (Some u2) = Inr sv" using lookup_severity_Some by blast
  obtain ac where ac: "lookup_action (Some u3) = Inr ac" using lookup_action_Some by blast
  let ?p = "calloc_policy\<lparr>pol_id := atoi u1, pol_severity := sv, pol_type := ac,
    pol_path := ?path, pol_options := parse_options t5 s5\<rparr>"
  have "parse_policy line = Inr ?p"
    using 1 2 3 4 5 u1 u2 u3 sv ac path
    by (simp add: parse_policy_def blanks_def atoi_ptr_def Let_def)
  then show ?thesis
  proof (rule that)
    show "pol_path ?p = (if length (strtok_all blanks line) = 3 then []
        else strtok_all blanks line ! 3)"
      using pathn by simp
  qed (use sv ac e1 e2 parse_options_bits [of t5 s5] in \<open>simp_all add: e3\<close>)
qed

lemma statement_line:
  "(n, l) \<in> set (statements fp) \<Longrightarrow> \<exists>b \<in> set (fgets_all fp). l = trim_left (c_str b)"
  by (auto simp: statements_def in_set_enumerate_eq)

lemma statement_length: "(n, l) \<in> set (statements fp) \<Longrightarrow> length l < STR_BUFF"
proof -
  assume "(n, l) \<in> set (statements fp)"
  then obtain b where "b \<in> set (fgets_all fp)" and l: "l = trim_left (c_str b)"
    using statement_line by blast
  then have "length b < STR_BUFF" by (simp add: fgets_all_length)
  moreover have "length l \<le> length (c_str b)"
    unfolding l trim_left_def by (rule length_dropWhile_le)
  moreover have "length (c_str b) \<le> length b"
    unfolding c_str_def by (rule length_takeWhile_le)
  ultimately show ?thesis by linarith
qed

lemma statement_NUL: "(n, l) \<in> set (statements fp) \<Longrightarrow> NUL \<notin> set l"
  by (auto simp: trim_left_def c_str_def dest!: statement_line set_dropWhileD set_takeWhileD)

section \<open>Which files crash the parser\<close>

lemma foldm_statements_Inl:
  assumes "\<And>n l. (n, l) \<in> set sts \<Longrightarrow> length l < STR_BUFF"
  shows "(foldm apply_statement sts acc = Inl e) =
     (e = NullDeref \<and> (\<exists>(n, l) \<in> set sts. length (strtok_all blanks l) < 3))"
  using assms
proof (induction sts arbitrary: acc)
  case (Cons st sts)
  obtain n l where st: "st = (n, l)" by (cases st)
  obtain t errs where acc: "acc = (t, errs)" by (cases acc)
  note IH = Cons.IH [OF Cons.prems, OF list.set_intros(2)]
  show ?case
  proof (cases "length (strtok_all blanks l) < 3")
    case True
    then show ?thesis
      using parse_policy_few [OF True] by (auto simp: st apply_statement_Inl)
  next
    case False
    then obtain p where "parse_policy l = Inr p"
      using parse_policy_tokens [of l] Cons.prems [of n l] st by fastforce
    then show ?thesis
      using False IH by (simp add: st acc apply_statement_Inr)
  qed
qed simp

text \<open>
  The parser crashes exactly on the files that have a statement with fewer than
  three words: a null pointer is dereferenced then, and no other undefined behaviour occurs; in
  particular the copy of the path into its 1024 bytes never overflows.
\<close>

theorem get_policies_crash:
  "(get_policies (Some fp) = Inl e) =
   (e = NullDeref \<and> (\<exists>(n, line) \<in> set (statements fp). length (strtok_all blanks line) < 3))"
  using foldm_statements_Inl [of "statements fp" "(\<lambda>_. None, [])" e] statement_length
  by (auto simp: get_policies_foldm result_simps split: prod.splits)

section \<open>The table\<close>

text \<open>The valid policies of a file in its order, and the lines reported as invalid.\<close>

definition policy_of :: "string \<Rightarrow> policy_t" where
  "policy_of line = (case parse_policy line of Inl _ \<Rightarrow> calloc_policy | Inr p \<Rightarrow> p)"

definition valid_policies :: "(nat \<times> string) list \<Rightarrow> (int \<times> policy_t) list" where
  "valid_policies sts =
     [(pol_id p, p). p \<leftarrow> map (\<lambda>(n, l). policy_of l) sts, check_valid p]"

definition invalid_lines :: "(nat \<times> string) list \<Rightarrow> nat list" where
  "invalid_lines sts = [n. (n, l) \<leftarrow> sts, \<not> check_valid (policy_of l)]"

lemma upd_map_add: "t(k \<mapsto> v) ++ m = t ++ ([k \<mapsto> v] ++ m)"
  by (auto simp: map_add_def split: option.splits)

lemma foldm_statements_Inr:
  "foldm apply_statement sts (t, errs) = Inr (t', errs') \<Longrightarrow>
   t' = t ++ map_of (rev (valid_policies sts)) \<and> errs' = errs @ invalid_lines sts"
proof (induction sts arbitrary: t errs)
  case (Cons st sts)
  obtain n l where st: "st = (n, l)" by (cases st)
  from Cons.prems obtain p where p: "parse_policy l = Inr p"
    by (cases "parse_policy l") (auto simp: st apply_statement_Inl)
  then have po: "policy_of l = p" by (simp add: policy_of_def)
  show ?case
  proof (cases "check_valid p")
    case True
    then have "t' = t(pol_id p \<mapsto> p) ++ map_of (rev (valid_policies sts)) \<and>
        errs' = errs @ invalid_lines sts"
      using Cons.prems Cons.IH [of "t(pol_id p \<mapsto> p)" errs] p
      by (simp add: st apply_statement_Inr fun_upd_def)
    moreover have "valid_policies (st # sts) = (pol_id p, p) # valid_policies sts"
      and "invalid_lines (st # sts) = invalid_lines sts"
      using True po by (simp_all add: st valid_policies_def invalid_lines_def)
    ultimately show ?thesis by (simp add: upd_map_add [symmetric])
  next
    case False
    then have "t' = t ++ map_of (rev (valid_policies sts)) \<and>
        errs' = (errs @ [n]) @ invalid_lines sts"
      using Cons.prems Cons.IH [of t "errs @ [n]"] p by (simp add: st apply_statement_Inr)
    then show ?thesis
      using False po by (simp add: st valid_policies_def invalid_lines_def)
  qed
qed (simp add: valid_policies_def invalid_lines_def)

lemma get_policies_Inr:
  assumes "get_policies (Some fp) = Inr (T, errs)"
  shows "T = Some (map_of (rev (valid_policies (statements fp)))) \<and>
    errs = invalid_lines (statements fp)"
  using assms foldm_statements_Inr [of "statements fp" "\<lambda>_. None" "[]"]
  by (auto simp: get_policies_foldm result_simps split: prod.splits)


lemma trim_idem [simp]: "trim_left (trim_left s) = trim_left s"
  by (simp add: trim_left_def dropWhile_idem)

text \<open>
  Property C35. When the parser returns, the table holds, for every id, the policy of the last
  valid statement with that id, and the lines reported on stderr are those of the statements
  that are not valid, in the order of the file.
\<close>

theorem get_policies_last_wins:
  assumes "get_policies (Some fp) = Inr (T, errs)"
  shows "T = Some (map_of (rev (valid_policies (statements fp)))) \<and>
    errs = invalid_lines (statements fp)"
  by (rule get_policies_Inr [OF assms])

definition monitored :: "monitor_t set" where
  "monitored = {MON_CREATE, MON_DELETE, MON_MODIFY_CONTENT, MON_CHANGE_ATTR, MON_CHANGE_ACCESS}"

definition policy_wf :: "policy_t \<Rightarrow> bool" where
  "policy_wf p \<longleftrightarrow>
     check_valid p \<and> pol_type p \<in> monitored \<and> pol_severity p \<in> {WARNING, CRITICAL} \<and>
     length (pol_path p) < PATH_MAX_LEN \<and> NUL \<notin> set (pol_path p) \<and>
     set (pol_path p) \<inter> set blanks = {} \<and> pol_options p \<in> {0, POLICY_OPTIONS_EXTRACT}"

lemma strtok_all_subset: "t \<in> set (strtok_all d s) \<Longrightarrow> set t \<subseteq> set s \<and> length t \<le> length s"
proof (induction d s rule: strtok_all.induct)
  case (1 d s)
  obtain x r where xr: "strtok s d = (x, r)" by fastforce
  show ?case
  proof (cases x)
    case None
    then show ?thesis using "1.prems" strtok_None [of s d r] xr by simp
  next
    case (Some u)
    have r: "set r \<subseteq> set s"
      using xr Some by (auto simp: strtok_def Let_def split: if_splits
          dest!: in_set_dropD set_dropWhileD)
    from "1.prems" have "t = u \<or> t \<in> set (strtok_all d r)"
      using strtok_Some [of s d u r] xr Some by simp
    then show ?thesis
      using "1.IH" [OF xr [symmetric] Some] r xr Some strtok_shorter [of s d u r]
        strtok_token [of s d u r] by (metis order.strict_implies_order order_trans)
  qed
qed

lemma parse_policy_wf:
  assumes "parse_policy line = Inr p" and "check_valid p" and "length line < STR_BUFF"
    and "NUL \<notin> set line"
  shows "policy_wf p"
proof -
  let ?ts = "strtok_all blanks line"
  have "3 \<le> length ?ts"
    using assms(1) parse_policy_few [of line] by (cases "length ?ts < 3") auto
  then obtain p' where p': "parse_policy line = Inr p'"
    "lookup_severity (Some (?ts ! 1)) = Inr (pol_severity p')"
    "lookup_action (Some (?ts ! 2)) = Inr (pol_type p')"
    "pol_path p' = (if length ?ts = 3 then [] else ?ts ! 3)"
    "pol_options p' \<in> {0, POLICY_OPTIONS_EXTRACT}"
    using parse_policy_tokens assms(3) by metis
  then have pp: "p' = p" using assms(1) by simp
  have "pol_type p \<in> monitored"
    using lookup_action_Some [of "?ts ! 2"] p'(3) assms(2)
    by (auto simp: pp check_valid_def monitored_def)
  moreover have "pol_severity p \<in> {WARNING, CRITICAL}"
    using assms(2) by (cases "pol_severity p") (auto simp: check_valid_def)
  moreover have "pol_path p \<in> set ?ts"
    using p'(4) assms(2) \<open>3 \<le> length ?ts\<close> by (auto simp: pp check_valid_def split: if_splits)
  then have "set (pol_path p) \<subseteq> set line \<and> length (pol_path p) \<le> length line \<and>
      set (pol_path p) \<inter> set blanks = {}"
    using strtok_all_subset strtok_all_nonempty by metis
  ultimately show ?thesis
    using assms p'(5) by (auto simp: policy_wf_def pp PATH_MAX_LEN_def STR_BUFF_def)
qed

text \<open>
  Every entry of the table is filed under its own id and is well-formed: id not 0,
  a severity, an action for which there is a monitor module, a nonempty path that fits its
  array and has no blank in it, and no option bit but EXTRACT.
\<close>

theorem get_policies_invariant:
  assumes "get_policies (Some fp) = Inr (Some T, errs)" and "T i = Some p"
  shows "pol_id p = i \<and> i \<noteq> 0 \<and> policy_wf p"
proof -
  have "map_of (rev (valid_policies (statements fp))) i = Some p"
    using get_policies_Inr [OF assms(1)] assms(2) by simp
  then have "(i, p) \<in> set (valid_policies (statements fp))"
    by (auto dest: map_of_SomeD)
  then obtain n l where st: "(n, l) \<in> set (statements fp)"
    and p: "p = policy_of l" "i = pol_id p" "check_valid p"
    by (auto simp: valid_policies_def split: if_splits)
  then have pl: "parse_policy l = Inr p"
    by (auto simp: policy_of_def calloc_policy_def check_valid_def split: sum.splits)
  show ?thesis
    using parse_policy_wf [OF pl p(3) statement_length [OF st] statement_NUL [OF st]] p
    by (simp add: check_valid_def)
qed


section \<open>Round trip\<close>

text \<open>A policy in the documented format, with the keywords the parser knows.\<close>

definition severity_name :: "severity_t \<Rightarrow> string" where
  "severity_name v = (case v of WARNING \<Rightarrow> ''WARNING'' | CRITICAL \<Rightarrow> ''CRITICAL''
     | SEVERITY_INVALID \<Rightarrow> ''SEVERITY_INVALID'')"

definition action_name :: "monitor_t \<Rightarrow> string" where
  "action_name a = (case a of MON_CREATE \<Rightarrow> ''CREATE'' | MON_DELETE \<Rightarrow> ''DELETE''
     | MON_MODIFY_CONTENT \<Rightarrow> ''MODIFY_CONTENT'' | MON_CHANGE_ATTR \<Rightarrow> ''CHANGE_ATTR''
     | MON_CHANGE_ACCESS \<Rightarrow> ''CHANGE_ACCESS'' | _ \<Rightarrow> ''MON_INVALID'')"

definition options_text :: "u8 \<Rightarrow> string" where
  "options_text o1 = (if o1 = 0 then [] else '' OPTIONS='' @ [CHR 0x22] @ ''EXTRACT'' @ [CHR 0x22])"

definition render_policy :: "policy_t \<Rightarrow> string" where
  "render_policy p =
     show_int (pol_id p) @ CHR '' '' # severity_name (pol_severity p) @ CHR '' '' #
     action_name (pol_type p) @ CHR '' '' # pol_path p @ options_text (pol_options p) @ [LF]"

definition renderable :: "policy_t \<Rightarrow> bool" where
  "renderable p \<longleftrightarrow> policy_wf p \<and> - (2 ^ 31) \<le> pol_id p \<and> pol_id p < 2 ^ 31 \<and>
     length (render_policy p) < STR_BUFF"

lemma blank_char: "c \<in> set blanks \<Longrightarrow> \<not> is_digit c \<and> c \<noteq> CHR ''-''"
  by (auto simp: blanks_def TAB_def LF_def CR_def is_digit_def)

lemma show_int_chars: "c \<in> set (show_int n) \<Longrightarrow> is_digit c \<or> c = CHR ''-''"
  using show_nat_digits by (auto simp: show_int_def split: if_splits)

lemma show_int_not_Nil: "show_int n \<noteq> []"
  using show_nat_digits by (auto simp: show_int_def)

lemma show_int_word: "set (show_int n) \<inter> set blanks = {}"
  using show_int_chars blank_char by fastforce

lemma severity_name_word:
  "severity_name v \<noteq> [] \<and> set (severity_name v) \<inter> set blanks = {} \<and> NUL \<notin> set (severity_name v)"
  by (cases v) (auto simp: severity_name_def blanks_def TAB_def LF_def CR_def NUL_def)

lemma action_name_word:
  "action_name v \<noteq> [] \<and> set (action_name v) \<inter> set blanks = {} \<and> NUL \<notin> set (action_name v)"
  by (cases v) (auto simp: action_name_def blanks_def TAB_def LF_def CR_def NUL_def)

lemma lookup_severity_name: "v \<in> {WARNING, CRITICAL} \<Longrightarrow>
  lookup_severity (Some (severity_name v)) = Inr v"
  by (auto simp: lookup_severity_def severity_name_def char_int_def c_tolower_def)

lemma lookup_action_name: "v \<in> monitored \<Longrightarrow> lookup_action (Some (action_name v)) = Inr v"
  by (auto simp: monitored_def lookup_action_def action_name_def char_int_def c_tolower_def)

lemma parse_options_text:
  assumes "o1 \<in> {0, POLICY_OPTIONS_EXTRACT}"
  shows "\<exists>t r. strtok (drop 1 (options_text o1) @ [LF]) [CR, LF] = (t, r) \<and> parse_options t r = o1"
proof (cases "o1 = 0")
  case True
  have "strtok [LF] [CR, LF] = (None, [])" by (rule strtok_delims) simp
  then show ?thesis
    using True by (simp add: options_text_def parse_options_def)
next
  case False
  then have "o1 = POLICY_OPTIONS_EXTRACT" using assms by simp
  have "(case strtok (drop 1 (options_text POLICY_OPTIONS_EXTRACT) @ [LF]) [CR, LF] of (t, r) \<Rightarrow>
      parse_options t r = POLICY_OPTIONS_EXTRACT)"
    by code_simp
  then show ?thesis
    by (auto simp: \<open>o1 = POLICY_OPTIONS_EXTRACT\<close> split: prod.splits)
qed

lemma parse_render:
  assumes "renderable p"
  shows "parse_policy (render_policy p) = Inr p"
proof -
  have wf: "policy_wf p" using assms by (simp add: renderable_def)
  let ?o = "options_text (pol_options p)"
  let ?r3 = "pol_path p @ ?o @ [LF]"
  let ?r2 = "action_name (pol_type p) @ CHR '' '' # ?r3"
  let ?r1 = "severity_name (pol_severity p) @ CHR '' '' # ?r2"
  have sp: "CHR '' '' \<in> set blanks" "LF \<in> set blanks" by (simp_all add: blanks_def)
  have 1: "strtok (render_policy p) blanks = (Some (show_int (pol_id p)), ?r1)"
    unfolding render_policy_def by (rule strtok_word [OF show_int_not_Nil show_int_word sp(1)])
  have 2: "strtok ?r1 blanks = (Some (severity_name (pol_severity p)), ?r2)"
    using severity_name_word sp by (blast intro: strtok_word)
  have 3: "strtok ?r2 blanks = (Some (action_name (pol_type p)), ?r3)"
    using action_name_word sp by (blast intro: strtok_word)
  have path: "pol_path p \<noteq> []" "set (pol_path p) \<inter> set blanks = {}"
    using wf by (auto simp: policy_wf_def check_valid_def)
  have o1: "pol_options p \<in> {0, POLICY_OPTIONS_EXTRACT}" using wf by (simp add: policy_wf_def)
  have "\<exists>r4. strtok ?r3 blanks = (Some (pol_path p), r4) \<and>
      (\<exists>t r. strtok r4 [CR, LF] = (t, r) \<and> parse_options t r = pol_options p)"
  proof (cases "pol_options p = 0")
    case True
    have "strtok ?r3 blanks = (Some (pol_path p), [])"
      using True strtok_word [OF path sp(2), of "[]"] by (simp add: options_text_def)
    then show ?thesis using True by (simp add: parse_options_def)
  next
    case False
    then have "?o = CHR '' '' # drop 1 ?o" by (simp add: options_text_def)
    then have "?r3 = pol_path p @ CHR '' '' # drop 1 ?o @ [LF]" by (metis append_Cons)
    then have "strtok ?r3 blanks = (Some (pol_path p), drop 1 ?o @ [LF])"
      using strtok_word [OF path sp(1)] by presburger
    then show ?thesis using parse_options_text [OF o1] by blast
  qed
  then obtain r4 t r where 4: "strtok ?r3 blanks = (Some (pol_path p), r4)"
    "strtok r4 [CR, LF] = (t, r)" "parse_options t r = pol_options p" by blast
  have sev: "lookup_severity (Some (severity_name (pol_severity p))) = Inr (pol_severity p)"
    using wf lookup_severity_name by (auto simp: policy_wf_def)
  have act: "lookup_action (Some (action_name (pol_type p))) = Inr (pol_type p)"
    using wf lookup_action_name by (auto simp: policy_wf_def)
  have cpy: "strcpy PATH_MAX_LEN (pol_path p) = Inr (pol_path p)"
    using wf by (simp add: strcpy_def policy_wf_def)
  have atoi: "atoi (show_int (pol_id p)) = pol_id p"
    using assms by (intro atoi_show_int) (auto simp: renderable_def)
  have "parse_policy (render_policy p) =
      Inr (calloc_policy\<lparr>pol_id := pol_id p, pol_severity := pol_severity p,
        pol_type := pol_type p, pol_path := pol_path p, pol_options := pol_options p\<rparr>)"
    using 1 2 3 4 sev act cpy atoi
    by (simp add: parse_policy_def blanks_def atoi_ptr_def Let_def)
  also have "\<dots> = Inr p" by (cases p) (simp add: calloc_policy_def)
  finally show ?thesis .
qed

lemma fgets_line:
  assumes "LF \<notin> set s" and "Suc (length s) < STR_BUFF"
  shows "fgets STR_BUFF (s @ LF # rest) = Some (s @ [LF], rest)"
proof -
  have "takeWhile (\<lambda>c. c \<noteq> LF) (s @ LF # rest) = s"
    using assms(1) by (induction s) auto
  then show ?thesis using assms(2) by (simp add: fgets_def Let_def)
qed

lemma render_policy_line:
  assumes "renderable p"
  obtains s where "render_policy p = s @ [LF]" and "LF \<notin> set s" and "NUL \<notin> set s"
    and "s \<noteq> []" and "is_digit (hd s) \<or> hd s = CHR ''-''" and "Suc (length s) < STR_BUFF"
proof
  let ?s = "show_int (pol_id p) @ CHR '' '' # severity_name (pol_severity p) @ CHR '' '' #
     action_name (pol_type p) @ CHR '' '' # pol_path p @ options_text (pol_options p)"
  show eq: "render_policy p = ?s @ [LF]" by (simp add: render_policy_def)
  have bl: "LF \<in> set blanks" by (simp add: blanks_def)
  have wf: "policy_wf p" using assms by (simp add: renderable_def)
  have opt: "LF \<notin> set (options_text (pol_options p))" "NUL \<notin> set (options_text (pol_options p))"
    by (auto simp: options_text_def LF_def NUL_def)
  have num: "LF \<notin> set (show_int (pol_id p))" "NUL \<notin> set (show_int (pol_id p))"
    using show_int_chars is_digit_NUL bl show_int_word by (blast, fastforce simp: NUL_def)
  show "LF \<notin> set ?s"
    using num(1) opt(1) severity_name_word action_name_word wf bl
    by (auto simp: policy_wf_def) (auto simp: LF_def)
  show "NUL \<notin> set ?s"
    using num(2) opt(2) severity_name_word action_name_word wf
    by (auto simp: policy_wf_def) (auto simp: NUL_def)
  show "?s \<noteq> []" by simp
  have "hd ?s \<in> set (show_int (pol_id p))"
    using show_int_not_Nil [of "pol_id p"] by (simp add: hd_append)
  then show "is_digit (hd ?s) \<or> hd ?s = CHR ''-''" by (rule show_int_chars)
  show "Suc (length ?s) < STR_BUFF" using assms eq by (simp add: renderable_def)
qed

lemma trim_render:
  assumes "renderable p"
  shows "trim_left (c_str (render_policy p)) = render_policy p" and "\<not> skip_line (render_policy p)"
proof -
  obtain s where s: "render_policy p = s @ [LF]" "NUL \<notin> set s" "s \<noteq> []"
    "is_digit (hd s) \<or> hd s = CHR ''-''"
    using render_policy_line [OF assms] by metis
  obtain c r where c: "s = c # r" "is_digit c \<or> c = CHR ''-''" using s by (cases s) auto
  have "c_str (render_policy p) = render_policy p"
    using s(1,2) by (auto simp: c_str_def takeWhile_eq_all_conv LF_def NUL_def)
  then show "trim_left (c_str (render_policy p)) = render_policy p"
    using c s(1) by (auto simp: trim_left_def is_digit_def TAB_def)
  show "\<not> skip_line (render_policy p)"
    using c s(1) by (auto simp: skip_line_def is_digit_def LF_def CR_def)
qed

lemma fgets_all_render:
  "\<forall>p \<in> set ps. renderable p \<Longrightarrow> fgets_all (concat (map render_policy ps)) = map render_policy ps"
proof (induction ps)
  case Nil
  then show ?case by (simp add: fgets_all.simps [of "[]"] fgets_def)
next
  case (Cons p ps)
  obtain s where s: "render_policy p = s @ [LF]" "LF \<notin> set s" "Suc (length s) < STR_BUFF"
    using render_policy_line Cons.prems by (metis list.set_intros(1))
  show ?case
    using Cons fgets_line [OF s(2,3), of "concat (map render_policy ps)"] s(1)
    by (subst fgets_all.simps) simp
qed

lemma statements_render:
  assumes "\<forall>p \<in> set ps. renderable p"
  shows "statements (concat (map render_policy ps)) = enumerate 1 (map render_policy ps)"
proof -
  have "map (\<lambda>b. trim_left (c_str b)) (map render_policy ps) = map render_policy ps"
    using assms trim_render(1) by (auto intro: map_cong)
  moreover have "[(n, l) \<leftarrow> enumerate 1 (map render_policy ps). \<not> skip_line l] =
      enumerate 1 (map render_policy ps)"
    using assms trim_render(2) by (auto simp: filter_id_conv in_set_enumerate_eq)
  ultimately show ?thesis by (simp only: statements_def fgets_all_render [OF assms])
qed

lemma foldm_render:
  "\<forall>p \<in> set ps. renderable p \<Longrightarrow>
   foldm apply_statement (enumerate n (map render_policy ps)) (t, errs) =
     Inr (foldl (\<lambda>t p. t(pol_id p \<mapsto> p)) t ps, errs)"
proof (induction ps arbitrary: n t)
  case (Cons p ps)
  then have "parse_policy (render_policy p) = Inr p" and "check_valid p"
    using parse_render by (auto simp: renderable_def policy_wf_def)
  then show ?case using Cons by (simp add: apply_statement_Inr fun_upd_def)
qed simp

text \<open>
  Property C9. Round trip: a file that lists well-formed policies in the documented format is
  read back as the table of these policies (a later one replaces an earlier one with its id),
  and no line is reported.
\<close>

theorem policies_roundtrip:
  assumes "\<forall>p \<in> set ps. renderable p"
  shows "get_policies (Some (concat (map render_policy ps))) =
    Inr (Some (foldl (\<lambda>t p. t(pol_id p \<mapsto> p)) (\<lambda>_. None) ps), [])"
  by (simp add: get_policies_foldm statements_render [OF assms] foldm_render [OF assms])


definition sample_file :: string where
  "sample_file = ''# rules'' @ [LF] @ ''7 warning Create /a/*  EXTRACT'' @ [CR, LF, LF] @
     ''8 CRITICAL erase /b'' @ [LF] @ ''7 critical delete /c'' @ [LF]"

definition sample_policy :: policy_t where
  "sample_policy = \<lparr>pol_id = 7, pol_path = ''/c'', pol_type = MON_DELETE, pol_options = 0,
     pol_severity = CRITICAL\<rparr>"

lemma sample_parses:
  "case get_policies (Some sample_file) of
     Inr (Some t, errs) \<Rightarrow> t 7 = Some sample_policy \<and> t 8 = None \<and> errs = [4]
   | _ \<Rightarrow> False"
  by code_simp


lemma sample_result:
  obtains t where "get_policies (Some sample_file) = Inr (Some t, [4])" and "t 7 = Some sample_policy"
  using sample_parses by (auto split: sum.splits prod.splits option.splits)

lemma sample_renderable: "renderable sample_policy"
  by code_simp

theorem get_policies_last_wins_witness:
  "\<exists>T. get_policies (Some sample_file) = Inr (Some T, [4]) \<and> T 7 = Some sample_policy \<and>
     T = map_of (rev (valid_policies (statements sample_file))) \<and>
     [4] = invalid_lines (statements sample_file)"
proof -
  obtain t where t: "get_policies (Some sample_file) = Inr (Some t, [4])" "t 7 = Some sample_policy"
    by (rule sample_result)
  then show ?thesis using get_policies_last_wins [OF t(1)] by auto
qed

theorem get_policies_invariant_witness:
  "\<exists>T. get_policies (Some sample_file) = Inr (Some T, [4]) \<and> T 7 = Some sample_policy \<and>
     policy_wf sample_policy"
proof -
  obtain t where t: "get_policies (Some sample_file) = Inr (Some t, [4])" "t 7 = Some sample_policy"
    by (rule sample_result)
  then show ?thesis using get_policies_invariant [OF t] by auto
qed

theorem policies_roundtrip_witness:
  "get_policies (Some (render_policy sample_policy)) =
     Inr (Some ((\<lambda>_. None)(7 \<mapsto> sample_policy)), [])"
  using policies_roundtrip [of "[sample_policy]"] sample_renderable
  by (simp add: sample_policy_def)

end
