(* ===== verification/Hashtable.thy ===== *)
theory Hashtable
  imports CString "HOL-Library.Multiset"
begin

text \<open>
  The hash table of the file cleaner (\<open>src/fcleaner/hashtable.c\<close>): an array of linked lists of
  nodes. A bucket is the list of its nodes; a data pointer is a value of \<open>'d\<close>, or \<open>None\<close> for
  the null pointer. Operations that free data pointers return them, in the order of the calls
  of \<open>free\<close>; \<open>now\<close> stands for the seconds \<open>gettimeofday\<close> reports.
\<close>

section \<open>Data\<close>

definition KEY_LENGTH :: nat where
  "KEY_LENGTH = 1024"

record 'd hnode =
  hkey :: string
  hdata :: "'d option"
  hexpiry :: nat

record 'd hashtable_t =
  hexpired :: nat
  hsize :: nat
  harr :: "'d hnode list list"

text \<open>A pointer as a caller gets it: null, to an object, or to memory already freed.\<close>

datatype 'a cptr = NullPtr | Live 'a | Dangling

section \<open>Operations\<close>

definition hash_step :: "u64 \<Rightarrow> char \<Rightarrow> u64" where
  "hash_step h c = (push_bit 5 h + h) + word_of_int (char_int c)"

definition hsh_hash :: "string \<Rightarrow> u64" where
  "hsh_hash s = foldl hash_step 5381 s"

text \<open>\<open>_hash(key) % tbl->size\<close>.\<close>

definition hsh_index :: "'d hashtable_t \<Rightarrow> string \<Rightarrow> int result" where
  "hsh_index tbl key =
     (if hsize tbl = 0 then Inl DivByZero
      else Inr (uint (hsh_hash key) mod int (hsize tbl)))"

text \<open>
  \<open>strcmp (ptr->key, key) == 0\<close>, where \<open>ptr->key\<close> was filled by \<open>strncpy\<close>: a key of 1024 bytes
  or more was cut off without a NUL, and a comparison that gets to its end reads on.
\<close>

definition node_key_eq :: "string \<Rightarrow> string \<Rightarrow> bool result" where
  "node_key_eq nk key =
     (if length nk < KEY_LENGTH then Inr (nk = key)
      else if take KEY_LENGTH key = nk then Inl OutOfBounds else Inr False)"

text \<open>
  \<open>hsh_init\<close>; the two flags say whether the two calls of \<open>calloc\<close> succeed. When the second one
  fails, the table is freed and its address is returned all the same.
\<close>

definition hsh_init :: "bool \<Rightarrow> bool \<Rightarrow> nat \<Rightarrow> nat \<Rightarrow> 'd hashtable_t cptr" where
  "hsh_init ok1 ok2 size1 expired =
     (if \<not> ok1 then NullPtr
      else if \<not> ok2 then Dangling
      else Live \<lparr>hexpired = expired, hsize = size1, harr = replicate size1 []\<rparr>)"

text \<open>Freeing a node frees its data, unless that is null.\<close>

definition free_node :: "'d hnode \<Rightarrow> 'd list" where
  "free_node n = (case hdata n of None \<Rightarrow> [] | Some d \<Rightarrow> [d])"

text \<open>
  The \<open>do \<dots> while (ptr->next)\<close> loop of \<open>hsh_put\<close>, with \<open>ptr\<close> at the first node of the list.
  \<open>None\<close>: the key was found. After the step to the next node, \<open>ptr->next\<close> is read even if
  \<open>ptr\<close> is null, and the last node is never compared unless it is the first.
\<close>

fun put_loop :: "'d hnode list \<Rightarrow> string \<Rightarrow> 'd hnode \<Rightarrow> 'd hnode list option result" where
  "put_loop [] key newnode = Inl NullDeref"
| "put_loop (n # ns) key newnode =
     rbind (node_key_eq (hkey n) key) (\<lambda>found.
       if found then Inr None
       else case ns of
           [] \<Rightarrow> Inl NullDeref
         | m # ms \<Rightarrow>
             if ms = [] then Inr (Some [n, m, newnode])
             else rbind (put_loop ns key newnode) (\<lambda>r. Inr (map_option ((#) n) r)))"

definition hsh_put ::
  "nat \<Rightarrow> 'd hashtable_t \<Rightarrow> string \<Rightarrow> 'd option \<Rightarrow> ('d hashtable_t \<times> 'd list \<times> int) result" where
  "hsh_put now tbl key data =
     (let newnode = \<lparr>hkey = take KEY_LENGTH key, hdata = data,
            hexpiry = (if hexpired tbl > 0 then now + hexpired tbl else 0)\<rparr>
      in rbind (hsh_index tbl key) (\<lambda>index.
         rbind (arr_get (harr tbl) index) (\<lambda>bucket.
           if bucket = [] then
             rbind (arr_set (harr tbl) index [newnode]) (\<lambda>arr.
               Inr (tbl\<lparr>harr := arr\<rparr>, [], 0))
           else
             rbind (put_loop bucket key newnode) (\<lambda>r. case r of
               None \<Rightarrow> Inr (tbl, free_node newnode, -1)
             | Some bucket' \<Rightarrow>
                 rbind (arr_set (harr tbl) index bucket') (\<lambda>arr.
                   Inr (tbl\<lparr>harr := arr\<rparr>, [], 0))))))"

fun search_loop :: "'d hnode list \<Rightarrow> string \<Rightarrow> 'd option result" where
  "search_loop [] key = Inr None"
| "search_loop (n # ns) key =
     rbind (node_key_eq (hkey n) key) (\<lambda>found.
       if found then Inr (hdata n) else search_loop ns key)"

definition hsh_search :: "'d hashtable_t \<Rightarrow> string \<Rightarrow> 'd option result" where
  "hsh_search tbl key =
     rbind (hsh_index tbl key) (\<lambda>index.
     rbind (arr_get (harr tbl) index) (\<lambda>bucket. search_loop bucket key))"

text \<open>
  The search of \<open>hsh_remove\<close> for a node to unlink: the first node is looked at through the
  array, the others through the \<open>next\<close> of the one before, which takes the same steps.
\<close>

fun remove_loop :: "'d hnode list \<Rightarrow> string \<Rightarrow> ('d hnode list \<times> 'd hnode) option result" where
  "remove_loop [] key = Inr None"
| "remove_loop (n # ns) key =
     rbind (node_key_eq (hkey n) key) (\<lambda>found.
       if found then Inr (Some (ns, n))
       else rbind (remove_loop ns key) (\<lambda>r.
         Inr (map_option (\<lambda>(ns', x). (n # ns', x)) r)))"

definition hsh_remove ::
  "'d hashtable_t \<Rightarrow> string \<Rightarrow> ('d hashtable_t \<times> 'd list \<times> int) result" where
  "hsh_remove tbl key =
     rbind (hsh_index tbl key) (\<lambda>index.
     rbind (arr_get (harr tbl) index) (\<lambda>bucket.
     rbind (remove_loop bucket key) (\<lambda>r. case r of
         None \<Rightarrow> Inr (tbl, [], -1)
       | Some (bucket', to_be_removed) \<Rightarrow>
           rbind (arr_set (harr tbl) index bucket') (\<lambda>arr.
             Inr (tbl\<lparr>harr := arr\<rparr>, free_node to_be_removed, 0)))))"

fun replace_loop ::
  "'d hnode list \<Rightarrow> string \<Rightarrow> ('d hnode \<Rightarrow> 'd hnode) \<Rightarrow> ('d hnode list \<times> 'd hnode) option result" where
  "replace_loop [] key upd = Inr None"
| "replace_loop (n # ns) key upd =
     rbind (node_key_eq (hkey n) key) (\<lambda>found.
       if found then Inr (Some (upd n # ns, n))
       else rbind (replace_loop ns key upd) (\<lambda>r.
         Inr (map_option (\<lambda>(ns', x). (n # ns', x)) r)))"

definition hsh_replace ::
  "nat \<Rightarrow> 'd hashtable_t \<Rightarrow> string \<Rightarrow> 'd option \<Rightarrow> ('d hashtable_t \<times> 'd list \<times> int) result" where
  "hsh_replace now tbl key newdata =
     rbind (hsh_index tbl key) (\<lambda>index.
     rbind (arr_get (harr tbl) index) (\<lambda>bucket.
     rbind (replace_loop bucket key (\<lambda>n. n\<lparr>hdata := newdata,
              hexpiry := (if hexpired tbl > 0 then now + hexpired tbl else hexpiry n)\<rparr>)) (\<lambda>r.
       case r of
         None \<Rightarrow> Inr (tbl, (case newdata of None \<Rightarrow> [] | Some d \<Rightarrow> [d]), -1)
       | Some (bucket', old) \<Rightarrow>
           rbind (arr_set (harr tbl) index bucket') (\<lambda>arr.
             Inr (tbl\<lparr>harr := arr\<rparr>, free_node old, 0)))))"

text \<open>\<open>hsh_destroy\<close>: the data pointers it frees, bucket by bucket.\<close>

definition hsh_destroy :: "'d hashtable_t \<Rightarrow> 'd list" where
  "hsh_destroy tbl = concat (map free_node (concat (harr tbl)))"

section \<open>The invariant of the tables the operations build\<close>

definition slot :: "'d hashtable_t \<Rightarrow> string \<Rightarrow> nat" where
  "slot t key = nat (uint (hsh_hash key) mod int (hsize t))"

lemma slot_upd [simp]: "slot (t\<lparr>harr := a\<rparr>) key = slot t key"
  by (simp add: slot_def)

text \<open>
  Nodes lie in the bucket of their key, keys fit, and no bucket has more than one node: that
  the last part is kept is an effect of the loop of \<open>hsh_put\<close>.
\<close>

definition hsh_wf :: "'d hashtable_t \<Rightarrow> bool" where
  "hsh_wf t \<longleftrightarrow> 0 < hsize t \<and> length (harr t) = hsize t \<and>
     (\<forall>i < hsize t. length (harr t ! i) \<le> 1 \<and>
        (\<forall>n \<in> set (harr t ! i). length (hkey n) < KEY_LENGTH \<and>
           slot t (hkey n) = i))"

definition bucket :: "'d hashtable_t \<Rightarrow> string \<Rightarrow> 'd hnode list" where
  "bucket t key = harr t ! slot t key"

lemma slot_less: "hsh_wf t \<Longrightarrow> slot t key < length (harr t)"
  by (simp add: hsh_wf_def slot_def nat_less_iff)

lemma hsh_wf_bucket:
  "hsh_wf t \<Longrightarrow> bucket t key = [] \<or> (\<exists>n. bucket t key = [n] \<and> length (hkey n) < KEY_LENGTH)"
  by (cases "bucket t key"; simp add: bucket_def)
    (use slot_less [of t key] in \<open>fastforce simp: hsh_wf_def le_Suc_eq\<close>)

lemma hsh_lookup_bucket:
  "hsh_wf t \<Longrightarrow> rbind (hsh_index t key) (\<lambda>i. rbind (arr_get (harr t) i) (\<lambda>b. f i b)) =
     f (int (slot t key)) (bucket t key)"
  using slot_less [of t key]
  by (auto simp: hsh_index_def hsh_wf_def bucket_def slot_def arr_get_def)

lemma arr_set_slot:
  "hsh_wf t \<Longrightarrow> arr_set (harr t) (int (slot t key)) b = Inr ((harr t)[slot t key := b])"
  using slot_less [of t key] by (simp add: arr_set_def)

lemma hsh_wf_update:
  assumes "hsh_wf t" and "length b \<le> 1"
    and "\<And>n. n \<in> set b \<Longrightarrow> length (hkey n) < KEY_LENGTH \<and> slot t (hkey n) = slot t key"
  shows "hsh_wf (t\<lparr>harr := (harr t)[slot t key := b]\<rparr>)"
  using assms slot_less [OF assms(1), of key] by (auto simp: hsh_wf_def nth_list_update)

lemma bucket_update:
  "hsh_wf t \<Longrightarrow> bucket (t\<lparr>harr := (harr t)[slot t key := b]\<rparr>) k =
     (if slot t k = slot t key then b else bucket t k)"
  using slot_less [of t key] by (auto simp: bucket_def nth_list_update)

text \<open>The map a table represents.\<close>

definition hsh_map :: "'d hashtable_t \<Rightarrow> string \<Rightarrow> 'd option option" where
  "hsh_map t key = map_of (map (\<lambda>n. (hkey n, hdata n)) (bucket t key)) key"

lemma hsh_map_single:
  "bucket t key = [] \<Longrightarrow> hsh_map t key = None"
  "bucket t key = [n] \<Longrightarrow> hsh_map t key = (if hkey n = key then Some (hdata n) else None)"
  by (simp_all add: hsh_map_def)

lemma hsh_search_map:
  assumes "hsh_wf t"
  shows "hsh_search t key = Inr (case hsh_map t key of None \<Rightarrow> None | Some d \<Rightarrow> d)"
  using hsh_wf_bucket [OF assms, of key]
  by (auto simp: hsh_search_def hsh_lookup_bucket [OF assms] hsh_map_single node_key_eq_def)

end
