(* ===== verification/Hashtable_Map.thy ===== *)
theory Hashtable_Map
  imports Hashtable Simulation
begin

text \<open>
  The hash table against a finite map: the outcome of every operation, the simulation of the
  map by the table, and the ownership of the data pointers.
\<close>

section \<open>The outcome of each operation\<close>

definition own :: "'d option \<Rightarrow> 'd list" where
  "own d = (case d of None \<Rightarrow> [] | Some x \<Rightarrow> [x])"

definition new_node :: "nat \<Rightarrow> 'd hashtable_t \<Rightarrow> string \<Rightarrow> 'd option \<Rightarrow> 'd hnode" where
  "new_node now t key data = \<lparr>hkey = key, hdata = data,
     hexpiry = (if hexpired t > 0 then now + hexpired t else 0)\<rparr>"

lemma free_node_own [simp]: "free_node n = own (hdata n)"
  by (simp add: free_node_def own_def)

definition set_bucket :: "'d hashtable_t \<Rightarrow> string \<Rightarrow> 'd hnode list \<Rightarrow> 'd hashtable_t" where
  "set_bucket t key b = t\<lparr>harr := (harr t)[slot t key := b]\<rparr>"

lemma hsh_put_cases:
  assumes "hsh_wf t" and "length key < KEY_LENGTH"
  shows "bucket t key = [] \<Longrightarrow>
      hsh_put now t key data = Inr (set_bucket t key [new_node now t key data], [], 0)"
    and "bucket t key = [n] \<Longrightarrow>
      hsh_put now t key data = (if hkey n = key then Inr (t, own data, -1) else Inl NullDeref)"
  using hsh_wf_bucket [OF assms(1), of key] assms(2)
  by (auto simp: hsh_put_def hsh_lookup_bucket [OF assms(1)] arr_set_slot [OF assms(1)]
      node_key_eq_def set_bucket_def new_node_def)

lemma hsh_remove_cases:
  assumes "hsh_wf t"
  shows "bucket t key = [] \<Longrightarrow> hsh_remove t key = Inr (t, [], -1)"
    and "bucket t key = [n] \<Longrightarrow> hsh_remove t key =
      (if hkey n = key then Inr (set_bucket t key [], own (hdata n), 0) else Inr (t, [], -1))"
  using hsh_wf_bucket [OF assms, of key]
  by (auto simp: hsh_remove_def hsh_lookup_bucket [OF assms] arr_set_slot [OF assms]
      node_key_eq_def set_bucket_def)

definition replaced :: "nat \<Rightarrow> 'd hashtable_t \<Rightarrow> 'd option \<Rightarrow> 'd hnode \<Rightarrow> 'd hnode" where
  "replaced now t newdata n = n\<lparr>hdata := newdata,
     hexpiry := (if hexpired t > 0 then now + hexpired t else hexpiry n)\<rparr>"

lemma replaced_simps [simp]:
  "hkey (replaced now t d n) = hkey n" "hdata (replaced now t d n) = d"
  by (simp_all add: replaced_def)

lemma hsh_replace_cases:
  assumes "hsh_wf t"
  shows "bucket t key = [] \<Longrightarrow> hsh_replace now t key d = Inr (t, own d, -1)"
    and "bucket t key = [n] \<Longrightarrow> hsh_replace now t key d =
      (if hkey n = key then Inr (set_bucket t key [replaced now t d n], own (hdata n), 0)
       else Inr (t, own d, -1))"
  using hsh_wf_bucket [OF assms, of key]
  by (auto simp: hsh_replace_def hsh_lookup_bucket [OF assms] arr_set_slot [OF assms]
      node_key_eq_def set_bucket_def own_def replaced_def)

lemma hsh_wf_set_bucket:
  assumes "hsh_wf t" and "\<And>n. n \<in> set b \<Longrightarrow> length (hkey n) < KEY_LENGTH \<and> hkey n = key"
    and "length b \<le> 1"
  shows "hsh_wf (set_bucket t key b)"
  unfolding set_bucket_def using assms by (intro hsh_wf_update) auto

lemma hsh_map_set_bucket:
  assumes "hsh_wf t" and "\<And>n. n \<in> set b \<Longrightarrow> hkey n = key"
    and "bucket t key = [] \<or> (\<exists>n. bucket t key = [n] \<and> hkey n = key)"
  shows "hsh_map (set_bucket t key b) =
     (case b of [] \<Rightarrow> (hsh_map t)(key := None) | n # _ \<Rightarrow> (hsh_map t)(key \<mapsto> hdata n))"
proof
  fix k
  have same: "k \<noteq> key \<Longrightarrow> slot t k = slot t key \<Longrightarrow> hsh_map t k = None"
    using assms(3) by (auto simp: hsh_map_def bucket_def)
  show "hsh_map (set_bucket t key b) k =
     (case b of [] \<Rightarrow> (hsh_map t)(key := None) | n # _ \<Rightarrow> (hsh_map t)(key \<mapsto> hdata n)) k"
  proof (cases "slot t k = slot t key")
    case True
    have "map_of (map (\<lambda>n. (hkey n, hdata n)) b) k = None" if "k \<noteq> key"
      using assms(2) that by (auto simp: map_of_eq_None_iff)
    then show ?thesis
      using True same assms(2) bucket_update [OF assms(1)]
      by (cases b) (auto simp: hsh_map_def set_bucket_def)
  next
    case False
    then have "k \<noteq> key" by auto
    then show ?thesis
      using False bucket_update [OF assms(1)]
      by (auto simp: hsh_map_def set_bucket_def split: list.splits)
  qed
qed

section \<open>Operations as values\<close>

datatype 'd hsh_op =
    HPut nat string "'d option"
  | HSearch string
  | HRemove string
  | HReplace nat string "'d option"

fun op_key :: "'d hsh_op \<Rightarrow> string" where
  "op_key (HPut now k d) = k"
| "op_key (HSearch k) = k"
| "op_key (HRemove k) = k"
| "op_key (HReplace now k d) = k"

text \<open>The output of an operation: the data it freed, its status, the data it found.\<close>

type_synonym 'd hsh_out = "'d list \<times> int \<times> 'd option"

fun hsh_step :: "'d hsh_op \<Rightarrow> 'd hashtable_t \<Rightarrow> ('d hashtable_t \<times> 'd hsh_out) result" where
  "hsh_step (HPut now k d) t = rbind (hsh_put now t k d) (\<lambda>(t', fr, st). Inr (t', fr, st, None))"
| "hsh_step (HSearch k) t = rbind (hsh_search t k) (\<lambda>d. Inr (t, [], 0, d))"
| "hsh_step (HRemove k) t = rbind (hsh_remove t k) (\<lambda>(t', fr, st). Inr (t', fr, st, None))"
| "hsh_step (HReplace now k d) t =
     rbind (hsh_replace now t k d) (\<lambda>(t', fr, st). Inr (t', fr, st, None))"

text \<open>The specification: a map from keys to data pointers.\<close>

fun map_spec :: "'d hsh_op \<Rightarrow> (string \<Rightarrow> 'd option option) \<Rightarrow> (string \<Rightarrow> 'd option option) \<times> 'd hsh_out" where
  "map_spec (HPut now k d) m =
     (case m k of None \<Rightarrow> (m(k \<mapsto> d), [], 0, None) | Some _ \<Rightarrow> (m, own d, -1, None))"
| "map_spec (HSearch k) m = (m, [], 0, (case m k of None \<Rightarrow> None | Some d \<Rightarrow> d))"
| "map_spec (HRemove k) m =
     (case m k of None \<Rightarrow> (m, [], -1, None) | Some d \<Rightarrow> (m(k := None), own d, 0, None))"
| "map_spec (HReplace now k d) m =
     (case m k of None \<Rightarrow> (m, own d, -1, None) | Some old \<Rightarrow> (m(k \<mapsto> d), own old, 0, None))"

lemma hsh_step_sim:
  assumes "hsh_wf t" and "length (op_key op) < KEY_LENGTH" and "hsh_step op t = Inr (t', out)"
  shows "hsh_wf t' \<and> hsize t' = hsize t \<and> map_spec op (hsh_map t) = (hsh_map t', out)"
proof -
  obtain k where k: "op_key op = k" by simp
  note wf = hsh_wf_set_bucket [OF assms(1)]
  note upd = hsh_map_set_bucket [OF assms(1)]
  have sz: "hsize (set_bucket t key b) = hsize t" for key b by (simp add: set_bucket_def)
  consider "bucket t k = []" | n where "bucket t k = [n]" "length (hkey n) < KEY_LENGTH"
    using hsh_wf_bucket [OF assms(1), of k] by blast
  then show ?thesis
  proof cases
    case 1
    note c = hsh_put_cases(1) [OF assms(1) _ 1] hsh_remove_cases(1) [OF assms(1) 1]
      hsh_replace_cases(1) [OF assms(1) 1] hsh_search_map [OF assms(1)] hsh_map_single(1) [OF 1]
    show ?thesis
      using assms k c 1 wf [of "[new_node now t k d]" k for now d]
        upd [of "[new_node now t k d]" k for now d]
      by (cases op) (auto simp: sz new_node_def)
  next
    case 2
    note c = hsh_put_cases(2) [OF assms(1) _ 2(1)] hsh_remove_cases(2) [OF assms(1) 2(1)]
      hsh_replace_cases(2) [OF assms(1) 2(1)] hsh_search_map [OF assms(1)]
      hsh_map_single(2) [OF 2(1)]
    show ?thesis
      using assms k c 2 wf [of "[]" k] wf [of "[replaced now t d n]" k for now d]
        upd [of "[]" k] upd [of "[replaced now t d n]" k for now d]
      by (cases op) (auto simp: sz split: if_splits)
  qed
qed

interpretation hsh: simulation hsh_wf "\<lambda>op. length (op_key op) < KEY_LENGTH" hsh_map hsh_step map_spec
  using hsh_step_sim by unfold_locales blast+


section \<open>Keys without collisions\<close>

definition slot_of :: "nat \<Rightarrow> string \<Rightarrow> nat" where
  "slot_of n key = nat (uint (hsh_hash key) mod int n)"

lemma slot_slot_of: "slot t key = slot_of (hsize t) key"
  by (simp add: slot_def slot_of_def)

definition keys_inv :: "nat \<Rightarrow> string set \<Rightarrow> 'd hashtable_t \<Rightarrow> bool" where
  "keys_inv n K t \<longleftrightarrow> hsh_wf t \<and> hsize t = n \<and> inj_on (slot_of n) K \<and> dom (hsh_map t) \<subseteq> K"

lemma bucket_key:
  assumes "hsh_wf t" and "bucket t k = [n]"
  shows "slot t (hkey n) = slot t k" and "hsh_map t (hkey n) = Some (hdata n)"
proof -
  have "n \<in> set (harr t ! slot t k)" using assms(2) by (simp add: bucket_def)
  then show "slot t (hkey n) = slot t k"
    using assms(1) slot_less [OF assms(1), of k] by (auto simp: hsh_wf_def slot_def)
  then have "bucket t (hkey n) = [n]" using assms(2) by (simp add: bucket_def)
  then show "hsh_map t (hkey n) = Some (hdata n)" by (simp add: hsh_map_single)
qed

lemma hsh_put_crash_iff:
  assumes "hsh_wf t" and "length key < KEY_LENGTH"
  shows "(hsh_put now t key data = Inl e) =
    (e = NullDeref \<and> (\<exists>k. k \<noteq> key \<and> slot t k = slot t key \<and> hsh_map t k \<noteq> None))"
proof -
  consider "bucket t key = []" | n where "bucket t key = [n]"
    using hsh_wf_bucket [OF assms(1), of key] by blast
  then show ?thesis
  proof cases
    case 1
    then have "hsh_map t k = None" if "slot t k = slot t key" for k
      using that by (simp add: hsh_map_def bucket_def)
    then show ?thesis using hsh_put_cases(1) [OF assms 1] by auto
  next
    case 2
    have "hkey n = k" if "slot t k = slot t key" "hsh_map t k \<noteq> None" for k
      using that 2 by (auto simp: hsh_map_def bucket_def split: if_splits)
    then have "(\<exists>k. k \<noteq> key \<and> slot t k = slot t key \<and> hsh_map t k \<noteq> None) = (hkey n \<noteq> key)"
      using bucket_key [OF assms(1) 2] by (metis option.distinct(1))
    then show ?thesis
      using hsh_put_cases(2) [OF assms 2, of now data] by (cases "hkey n = key") auto
  qed
qed

lemma hsh_step_ok:
  assumes "hsh_wf t" and "length (op_key op) < KEY_LENGTH"
    and "\<And>k. k \<noteq> op_key op \<Longrightarrow> slot t k = slot t (op_key op) \<Longrightarrow> hsh_map t k = None"
  shows "\<exists>r. hsh_step op t = Inr r"
proof -
  obtain k where k: "op_key op = k" by simp
  have put: "\<exists>r. hsh_put now t k d = Inr r" for now d
  proof (cases "hsh_put now t k d")
    case (Inl e)
    then obtain k' where "k' \<noteq> k" "slot t k' = slot t k" "hsh_map t k' \<noteq> None"
      using hsh_put_crash_iff [OF assms(1), of k now d e] assms(2) k by blast
    then show ?thesis using assms(3) [of k'] k by simp
  next
    case (Inr r)
    then show ?thesis by blast
  qed
  consider "bucket t k = []" | n where "bucket t k = [n]"
    using hsh_wf_bucket [OF assms(1), of k] by blast
  then have rem: "\<exists>r. hsh_remove t k = Inr r" and rep: "\<exists>r. hsh_replace now t k d = Inr r" for now d
    by (cases; simp add: hsh_remove_cases [OF assms(1)] hsh_replace_cases [OF assms(1)])+
  show ?thesis
  proof (cases op)
    case (HPut now k' d)
    then show ?thesis using put [of now d] k by auto
  next
    case (HSearch k')
    then show ?thesis using hsh_search_map [OF assms(1)] by simp
  next
    case (HRemove k')
    then show ?thesis using rem k by auto
  next
    case (HReplace now k' d)
    then show ?thesis using rep [of now d] k by auto
  qed
qed

lemma map_spec_dom: "map_spec op m = (m', out) \<Longrightarrow> dom m' \<subseteq> insert (op_key op) (dom m)"
  by (cases op) (auto split: option.splits if_splits)

interpretation hsh_keys: total_simulation
  "keys_inv n K" "\<lambda>op. length (op_key op) < KEY_LENGTH \<and> op_key op \<in> K" hsh_map hsh_step map_spec
  for n K
proof (unfold_locales, goal_cases)
  case (1 t op t' out)
  then show ?case
    using hsh_step_sim [of t op t' out] map_spec_dom [of op "hsh_map t" "hsh_map t'" out]
    by (auto simp: keys_inv_def)
next
  case (2 t op t' out)
  then show ?case using hsh_step_sim [of t op t' out] by (auto simp: keys_inv_def)
next
  case (3 t op)
  have "hsh_map t k = None" if "k \<noteq> op_key op" "slot t k = slot t (op_key op)" for k
  proof (rule ccontr)
    assume "hsh_map t k \<noteq> None"
    then have "k \<in> K" using 3 by (auto simp: keys_inv_def)
    then show False
      using that 3 by (auto simp: keys_inv_def slot_slot_of dest: inj_onD)
  qed
  then show ?case using 3 by (intro hsh_step_ok) (auto simp: keys_inv_def)
qed

lemma hsh_init_wf:
  assumes "hsh_init True True n e = Live t" and "0 < n"
  shows "hsh_wf t" and "hsize t = n" and "hsh_map t = (\<lambda>_. None)" and "hsh_destroy t = []"
proof -
  have t: "t = \<lparr>hexpired = e, hsize = n, harr = replicate n []\<rparr>"
    using assms(1) by (simp add: hsh_init_def)
  show "hsize t = n" by (simp add: t)
  show wf: "hsh_wf t" using assms(2) by (simp add: t hsh_wf_def)
  show "hsh_map t = (\<lambda>_. None)"
    using assms(2) by (auto simp: t hsh_map_def bucket_def slot_def nat_less_iff)
  show "hsh_destroy t = []" by (simp add: t hsh_destroy_def)
qed


text \<open>
  If no two of the keys used fall into the same slot, the table never crashes, so the
  run goes through and its answers are those of the map.
\<close>

theorem hsh_no_collision_total:
  assumes "hsh_init True True n e = Live t" and "0 < n"
    and "\<forall>op \<in> set ops. length (op_key op) < KEY_LENGTH"
    and "inj_on (slot_of n) (op_key ` set ops)"
  shows "\<exists>t' outs. run_steps hsh_step ops t = Inr (t', outs) \<and>
    run_spec map_spec ops (\<lambda>_. None) = (hsh_map t', outs)"
proof -
  have "keys_inv n (op_key ` set ops) t"
    using hsh_init_wf [OF assms(1,2)] assms(4) by (simp add: keys_inv_def)
  then show ?thesis
    using hsh_keys.run_total [of n "op_key ` set ops" t ops] assms(3) hsh_init_wf [OF assms(1,2)]
    by auto
qed

text \<open>
  Inserting a key crashes exactly when another key occupies its slot: the loop that
  walks the bucket steps behind its only node before it looks for the end of the list. So two
  keys of one slot never share a table.
\<close>

theorem hsh_put_crash:
  assumes "hsh_wf t" and "length key < KEY_LENGTH"
  shows "(hsh_put now t key data = Inl e) =
    (e = NullDeref \<and> (\<exists>k. k \<noteq> key \<and> slot t k = slot t key \<and> hsh_map t k \<noteq> None))"
  by (rule hsh_put_crash_iff [OF assms])

section \<open>Ownership of the data\<close>

fun op_data :: "'d hsh_op \<Rightarrow> 'd list" where
  "op_data (HPut now k d) = own d"
| "op_data (HSearch k) = []"
| "op_data (HRemove k) = []"
| "op_data (HReplace now k d) = own d"

lemma mset_concat_update:
  "i < length xs \<Longrightarrow>
   mset (concat (map g (xs[i := b]))) + mset (g (xs ! i)) = mset (concat (map g xs)) + mset (g b)"
proof (induction xs arbitrary: i)
  case (Cons x xs)
  then show ?case by (cases i) (auto simp: ac_simps)
qed simp

lemma concat_map_concat:
  "concat (map f (concat xss)) = concat (map (\<lambda>xs. concat (map f xs)) xss)"
  by (induction xss) auto

lemma hsh_destroy_set_bucket:
  assumes "hsh_wf t"
  shows "mset (hsh_destroy (set_bucket t key b)) + mset (concat (map free_node (bucket t key))) =
     mset (hsh_destroy t) + mset (concat (map free_node b))"
  using mset_concat_update [OF slot_less [OF assms, of key],
      of "\<lambda>b. concat (map free_node b)" b]
  by (simp add: hsh_destroy_def set_bucket_def bucket_def concat_map_concat del: free_node_own)

lemma hsh_step_owned:
  assumes "hsh_wf t" and "length (op_key op) < KEY_LENGTH" and "hsh_step op t = Inr (t', out)"
  shows "mset (hsh_destroy t') + mset (fst out) = mset (hsh_destroy t) + mset (op_data op)"
proof -
  obtain k where k: "op_key op = k" by simp
  consider "bucket t k = []" | n where "bucket t k = [n]"
    using hsh_wf_bucket [OF assms(1), of k] by blast
  then show ?thesis
  proof cases
    case 1
    note c = hsh_put_cases(1) [OF assms(1) _ 1] hsh_remove_cases(1) [OF assms(1) 1]
      hsh_replace_cases(1) [OF assms(1) 1] hsh_search_map [OF assms(1)]
    show ?thesis
      using assms k c 1 hsh_destroy_set_bucket [OF assms(1), of k]
      by (cases op) (auto simp: new_node_def)
  next
    case 2
    note c = hsh_put_cases(2) [OF assms(1) _ 2] hsh_remove_cases(2) [OF assms(1) 2]
      hsh_replace_cases(2) [OF assms(1) 2] hsh_search_map [OF assms(1)]
    show ?thesis
      using assms k c 2 hsh_destroy_set_bucket [OF assms(1), of k "[]"]
        hsh_destroy_set_bucket [OF assms(1), of k "[replaced now t d n]" for now d]
      by (cases op) (auto split: if_splits)
  qed
qed

lemma hsh_run_owned:
  "hsh_wf t \<Longrightarrow> \<forall>op \<in> set ops. length (op_key op) < KEY_LENGTH \<Longrightarrow>
   run_steps hsh_step ops t = Inr (t', outs) \<Longrightarrow>
   mset (hsh_destroy t') + mset (concat (map fst outs)) =
     mset (hsh_destroy t) + mset (concat (map op_data ops))"
proof (induction ops arbitrary: t outs)
  case (Cons op ops)
  then obtain t1 out1 outs2 where s1: "hsh_step op t = Inr (t1, out1)"
    and r: "run_steps hsh_step ops t1 = Inr (t', outs2)" and o: "outs = out1 # outs2"
    by (auto simp: result_simps split: prod.splits)
  have wf: "hsh_wf t1" using hsh_step_sim [OF _ _ s1] Cons.prems by simp
  have "mset (hsh_destroy t') + mset (concat (map fst outs)) =
      (mset (hsh_destroy t') + mset (concat (map fst outs2))) + mset (fst out1)"
    by (simp add: o ac_simps)
  also have "\<dots> = (mset (hsh_destroy t1) + mset (fst out1)) + mset (concat (map op_data ops))"
    using Cons.IH [OF wf _ r] Cons.prems by (simp add: ac_simps)
  also have "\<dots> = mset (hsh_destroy t) + mset (concat (map op_data (op # ops)))"
    using hsh_step_owned [OF _ _ s1] Cons.prems by (simp add: ac_simps)
  finally show ?case .
qed simp

text \<open>
  No leak and no double free: over a run of operations on a new table that is destroyed
  in the end, the data pointers freed by the operations and by \<open>hsh_destroy\<close> are exactly those
  that were handed to the table, each as often as it was handed over.
\<close>

theorem hsh_ownership:
  assumes "hsh_init True True n e = Live t" and "0 < n"
    and "\<forall>op \<in> set ops. length (op_key op) < KEY_LENGTH"
    and "run_steps hsh_step ops t = Inr (t', outs)"
  shows "mset (concat (map fst outs) @ hsh_destroy t') = mset (concat (map op_data ops))"
  using hsh_run_owned [of t ops t' outs] hsh_init_wf [OF assms(1,2)] assms(3,4)
  by (simp add: ac_simps)

section \<open>Concrete runs\<close>

definition table_203 :: "nat hashtable_t" where
  "table_203 = \<lparr>hexpired = 5, hsize = 203, harr = replicate 203 []\<rparr>"

lemma table_203_init: "hsh_init True True 203 5 = Live table_203"
  by (simp add: hsh_init_def table_203_def)

definition test_ops :: "nat hsh_op list" where
  "test_ops = [HPut 0 ''Node1'' (Some 1), HPut 1 ''Node1'' (Some 2), HPut 2 ''Node2'' (Some 3),
     HSearch ''Node1'', HSearch ''Node3'', HRemove ''Node3'', HRemove ''Node2'',
     HReplace 9 ''Node2'' (Some 4), HReplace 9 ''Node1'' (Some 5), HSearch ''Node1'']"

lemma test_run:
  "(case run_steps hsh_step test_ops table_203 of
      Inl _ \<Rightarrow> False
    | Inr (t, outs) \<Rightarrow> hsh_destroy t = [5] \<and>
        outs = [([], 0, None), ([2], -1, None), ([], 0, None), ([], 0, Some 1), ([], 0, None),
          ([], -1, None), ([3], 0, None), ([4], -1, None), ([1], 0, None), ([], 0, Some 5)])"
  by code_simp

lemma test_ops_short: "\<forall>op \<in> set test_ops. length (op_key op) < KEY_LENGTH"
  by code_simp


theorem hsh_ownership_witness:
  "\<exists>t outs. run_steps hsh_step test_ops table_203 = Inr (t, outs) \<and>
     mset (concat (map fst outs) @ hsh_destroy t) = mset [1, 2, 3, 4, 5]"
proof -
  have "concat (map op_data test_ops) = [1, 2, 3, 4, 5]" by (simp add: test_ops_def own_def)
  then show ?thesis
    using test_run hsh_ownership [OF table_203_init _ test_ops_short]
    by (auto split: sum.splits)
qed

lemma test_slots:
  "slot_of 203 ''Node1'' \<noteq> slot_of 203 ''Node2'' \<and> slot_of 203 ''Node1'' \<noteq> slot_of 203 ''Node3'' \<and>
   slot_of 203 ''Node2'' \<noteq> slot_of 203 ''Node3''"
  by code_simp

lemma test_ops_inj: "inj_on (slot_of 203) (op_key ` set test_ops)"
proof -
  have "op_key ` set test_ops = {''Node1'', ''Node2'', ''Node3''}" by (auto simp: test_ops_def)
  then show ?thesis using test_slots by (auto simp: inj_on_def)
qed

theorem hsh_no_collision_total_witness:
  "\<exists>t outs. run_steps hsh_step test_ops table_203 = Inr (t, outs) \<and>
     run_spec map_spec test_ops (\<lambda>_. None) = (hsh_map t, outs)"
  by (rule hsh_no_collision_total [OF table_203_init _ test_ops_short test_ops_inj]) simp

text \<open>Two keys that share the slot 136 of a table of the size the tests use.\<close>

definition table_n1 :: "nat hashtable_t" where
  "table_n1 = (case hsh_put 0 table_203 ''n1'' (Some 1) of Inl _ \<Rightarrow> table_203 | Inr (t, _, _) \<Rightarrow> t)"

lemma table_n1_facts:
  "hsh_search table_n1 ''n1'' = Inr (Some 1) \<and> slot table_n1 ''n1'' = slot table_n1 ''n30''"
  by code_simp

lemma table_n1_wf: "hsh_wf table_n1"
proof -
  have "hsh_wf table_203" using hsh_init_wf [OF table_203_init] by simp
  then show ?thesis
    using hsh_step_sim [of table_203 "HPut 0 ''n1'' (Some 1)"]
    by (cases "hsh_put 0 table_203 ''n1'' (Some 1)") (auto simp: table_n1_def KEY_LENGTH_def)
qed

theorem hsh_put_crash_witness:
  "hsh_put 7 table_n1 ''n30'' (Some 2) = Inl NullDeref"
proof -
  have "hsh_map table_n1 ''n1'' \<noteq> None"
  proof
    assume "hsh_map table_n1 ''n1'' = None"
    then have "hsh_search table_n1 ''n1'' = Inr None"
      by (simp only: hsh_search_map [OF table_n1_wf] option.case)
    then show False using table_n1_facts [THEN conjunct1] by (simp only: sum.inject option.distinct)
  qed
  then have "\<exists>k. k \<noteq> ''n30'' \<and> slot table_n1 k = slot table_n1 ''n30'' \<and> hsh_map table_n1 k \<noteq> None"
    using table_n1_facts [THEN conjunct2] by (intro exI [of _ "''n1''"] conjI) simp_all
  moreover have len: "length ''n30'' < KEY_LENGTH" by (simp add: KEY_LENGTH_def)
  ultimately show ?thesis
    by (intro hsh_put_crash [OF table_n1_wf len, THEN iffD2] conjI refl)
qed

end
