(* ===== verification/Trapmngr.thy ===== *)
theory Trapmngr
  imports Simulation
begin

text \<open>
  The trap manager (\<open>src/trapmngr.c\<close>, \<open>src/include/trapmngr.h\<close>): tables of the breakpoint traps
  by physical address and by frame, of the remapped frames and of the frames with a memory
  trap. A trap is a heap object; the tables hold pointers to traps (\<open>tptr\<close>), and the heap maps
  pointers to traps. Hash tables are maps and the \<open>GSList\<close> of traps is a list of pointers.
\<close>

section \<open>Data\<close>

definition PAGE_OFFSET_BITS :: nat where "PAGE_OFFSET_BITS = 12"
definition PAGESIZE :: u64 where "PAGESIZE = push_bit PAGE_OFFSET_BITS 1"

type_synonym tptr = nat

text \<open>
  \<open>trap_t\<close>; \<open>'cb\<close> is the type of callback functions and \<open>'x\<close> that of the data a callback
  leaves for its return trap.
\<close>

record ('cb, 'x) trap_t =
  trap_name :: string
  trap_cb :: "'cb option"
  trap_ret_cb :: "'cb option"
  trap_pa :: u64
  self_destroy :: bool
  trap_extra :: "'x option"

type_synonym ('cb, 'x) trap_heap = "tptr \<Rightarrow> ('cb, 'x) trap_t option"

record int3_wrapper_t =
  w_pa :: u64
  w_doubletrap :: u8
  w_traps :: "tptr list"

record remapped_t =
  rm_o :: u64
  rm_r :: u64

record trapmngr_t =
  remapped_tbl :: "u64 \<Rightarrow> remapped_t option"
  breakpoint_tbl :: "u64 \<Rightarrow> int3_wrapper_t option"
  breakpoint_gfn_tbl :: "u64 \<Rightarrow> tptr list option"
  memaccess_tbl :: "u64 \<Rightarrow> unit option"

section \<open>Operations\<close>

definition frame_of :: "u64 \<Rightarrow> u64" where
  "frame_of pa = drop_bit PAGE_OFFSET_BITS pa"

definition tm_init :: trapmngr_t where
  "tm_init = \<lparr>remapped_tbl = (\<lambda>_. None), breakpoint_tbl = (\<lambda>_. None),
     breakpoint_gfn_tbl = (\<lambda>_. None), memaccess_tbl = (\<lambda>_. None)\<rparr>"

text \<open>
  The key of a remapped entry lies inside its value, which the table frees on replacement while
  it keeps the old key. Inserting an entry for a frame that has one therefore leaves a key in
  freed memory and counts as a use of freed memory.
\<close>

definition tm_add_remapped :: "trapmngr_t \<Rightarrow> remapped_t \<Rightarrow> trapmngr_t result" where
  "tm_add_remapped tm r =
     (case remapped_tbl tm (rm_o r) of
        Some _ \<Rightarrow> Inl UseAfterFree
      | None \<Rightarrow> Inr (tm\<lparr>remapped_tbl := (remapped_tbl tm)(rm_o r \<mapsto> r)\<rparr>))"

definition tm_find_remapped :: "trapmngr_t \<Rightarrow> u64 \<Rightarrow> remapped_t option" where
  "tm_find_remapped tm original = remapped_tbl tm original"

definition tm_int3traps_at_pa :: "trapmngr_t \<Rightarrow> u64 \<Rightarrow> tptr list" where
  "tm_int3traps_at_pa tm pa =
     (case breakpoint_tbl tm pa of None \<Rightarrow> [] | Some w \<Rightarrow> w_traps w)"

text \<open>Reading \<open>trap->pa\<close> through a pointer.\<close>

definition read_pa :: "('cb, 'x) trap_heap \<Rightarrow> tptr \<Rightarrow> u64 result" where
  "read_pa h p = (case h p of None \<Rightarrow> Inl UseAfterFree | Some t \<Rightarrow> Inr (trap_pa t))"

definition tm_add_int3trap :: "('cb, 'x) trap_heap \<Rightarrow> trapmngr_t \<Rightarrow> tptr \<Rightarrow> trapmngr_t result" where
  "tm_add_int3trap h tm trap =
     rbind (read_pa h trap) (\<lambda>pa.
       let w = (case breakpoint_tbl tm pa of
                  None \<Rightarrow> \<lparr>w_pa = pa, w_doubletrap = 0, w_traps = []\<rparr> | Some w \<Rightarrow> w);
           w' = w\<lparr>w_traps := w_traps w @ [trap]\<rparr>;
           gfn = frame_of pa;
           traps_at_gfn = (case breakpoint_gfn_tbl tm gfn of None \<Rightarrow> [trap] | Some l \<Rightarrow> l @ [trap])
       in Inr (tm\<lparr>breakpoint_tbl := (breakpoint_tbl tm)(pa \<mapsto> w'),
                 breakpoint_gfn_tbl := (breakpoint_gfn_tbl tm)(gfn \<mapsto> traps_at_gfn)\<rparr>))"

definition tm_remove_int3trap ::
  "('cb, 'x) trap_heap \<Rightarrow> trapmngr_t \<Rightarrow> tptr \<Rightarrow> (trapmngr_t \<times> int) result" where
  "tm_remove_int3trap h tm trap =
     rbind (read_pa h trap) (\<lambda>pa.
       case breakpoint_tbl tm pa of
         None \<Rightarrow> Inr (tm, 0)
       | Some w \<Rightarrow>
           let traps = remove1 trap (w_traps w);
               bps = (if traps = [] then (breakpoint_tbl tm)(pa := None)
                      else (breakpoint_tbl tm)(pa \<mapsto> w\<lparr>w_traps := traps\<rparr>));
               gfn = frame_of pa;
               at_gfn = remove1 trap (case breakpoint_gfn_tbl tm gfn of None \<Rightarrow> [] | Some l \<Rightarrow> l);
               gfns = (breakpoint_gfn_tbl tm)(gfn := (if at_gfn = [] then None else Some at_gfn))
           in Inr (tm\<lparr>breakpoint_tbl := bps, breakpoint_gfn_tbl := gfns\<rparr>, int (length traps)))"

definition tm_check_doubletrap :: "trapmngr_t \<Rightarrow> u64 \<Rightarrow> u8 result" where
  "tm_check_doubletrap tm pa =
     (case breakpoint_tbl tm pa of None \<Rightarrow> Inl NullDeref | Some w \<Rightarrow> Inr (w_doubletrap w))"

definition tm_set_doubletrap :: "trapmngr_t \<Rightarrow> u64 \<Rightarrow> u8 \<Rightarrow> trapmngr_t result" where
  "tm_set_doubletrap tm pa doubletrap =
     (case breakpoint_tbl tm pa of
        None \<Rightarrow> Inl NullDeref
      | Some w \<Rightarrow>
          Inr (tm\<lparr>breakpoint_tbl := (breakpoint_tbl tm)(pa \<mapsto> w\<lparr>w_doubletrap := doubletrap\<rparr>)\<rparr>))"

definition tm_int3traps_at_gfn :: "trapmngr_t \<Rightarrow> u64 \<Rightarrow> tptr list" where
  "tm_int3traps_at_gfn tm gfn = (case breakpoint_gfn_tbl tm gfn of None \<Rightarrow> [] | Some l \<Rightarrow> l)"

definition tm_find_memtrap :: "trapmngr_t \<Rightarrow> u64 \<Rightarrow> unit option" where
  "tm_find_memtrap tm gfn = memaccess_tbl tm gfn"

definition tm_add_memtrap :: "trapmngr_t \<Rightarrow> u64 \<Rightarrow> trapmngr_t" where
  "tm_add_memtrap tm gfn = tm\<lparr>memaccess_tbl := (memaccess_tbl tm)(gfn \<mapsto> ())\<rparr>"

definition tm_trap_exist :: "trapmngr_t \<Rightarrow> u64 \<Rightarrow> bool" where
  "tm_trap_exist tm pa \<longleftrightarrow> breakpoint_tbl tm pa \<noteq> None"

text \<open>
  The two listings walk a hash table; \<open>order\<close> enumerates its keys in the order of the iterator.
\<close>

definition tm_all_remappeds :: "u64 list \<Rightarrow> trapmngr_t \<Rightarrow> remapped_t list" where
  "tm_all_remappeds order tm = List.map_filter (remapped_tbl tm) order"

definition tm_all_memtraps :: "u64 list \<Rightarrow> trapmngr_t \<Rightarrow> u64 list" where
  "tm_all_memtraps order tm = [k \<leftarrow> order. memaccess_tbl tm k \<noteq> None]"

text \<open>Freeing a trap; freeing it twice is a use of freed memory.\<close>

definition free_trap :: "tptr \<Rightarrow> ('cb, 'x) trap_heap \<Rightarrow> ('cb, 'x) trap_heap result" where
  "free_trap p h = (if h p = None then Inl UseAfterFree else Inr (h(p := None)))"

text \<open>
  \<open>tm_destroy\<close> frees the traps of every wrapper, in the order of the table's iterator, and then
  the tables. The result is the heap of traps that is left.
\<close>

definition tm_destroy ::
  "u64 list \<Rightarrow> trapmngr_t \<Rightarrow> ('cb, 'x) trap_heap \<Rightarrow> ('cb, 'x) trap_heap result" where
  "tm_destroy order tm h = foldm free_trap (concat (map (tm_int3traps_at_pa tm) order)) h"

end
