(* ===== verification/Vmi.thy ===== *)
theory Vmi
  imports Trapmngr
begin

text \<open>
  The libraries below the monitor: libvmi, libxc and libxl. They are not part of the repository,
  so their functions are a record \<open>vmi_api\<close> of functions on an abstract world \<open>'w\<close> (the
  hypervisor with its guests), which every definition that calls them takes as an argument. A
  status is a boolean (\<open>True\<close> for \<open>VMI_SUCCESS\<close>), a value read is an option.
  \<open>ram_laws\<close> states what the documentation says of the memory functions, in terms of the guest's
  physical memory \<open>mem\<close>, the frames \<open>used\<close> by it and the frame map \<open>slat\<close> of a view.
\<close>

datatype mem_access = VMI_MEMACCESS_N | VMI_MEMACCESS_RW | VMI_MEMACCESS_RWX

record 'w vmi_api =
  vmi_read_8_pa :: "u64 \<Rightarrow> 'w \<Rightarrow> u8 option \<times> 'w"
  vmi_write_8_pa :: "u64 \<Rightarrow> u8 \<Rightarrow> 'w \<Rightarrow> bool \<times> 'w"
  vmi_read_pa :: "u64 \<Rightarrow> nat \<Rightarrow> 'w \<Rightarrow> u8 list \<times> 'w"
  vmi_write_pa :: "u64 \<Rightarrow> u8 list \<Rightarrow> 'w \<Rightarrow> nat \<times> 'w"
  vmi_slat_change_gfn :: "u16 \<Rightarrow> u64 \<Rightarrow> u64 \<Rightarrow> 'w \<Rightarrow> bool \<times> 'w"
  vmi_set_mem_event :: "u64 \<Rightarrow> mem_access \<Rightarrow> u16 \<Rightarrow> 'w \<Rightarrow> bool \<times> 'w"
  xc_domain_setmaxmem :: "u64 \<Rightarrow> 'w \<Rightarrow> int \<times> 'w"
  xc_domain_increase_reservation_exact :: "u64 \<Rightarrow> 'w \<Rightarrow> int \<times> u64 \<times> 'w"
  xc_domain_populate_physmap_exact :: "u64 \<Rightarrow> 'w \<Rightarrow> int \<times> u64 \<times> 'w"
  xc_domain_decrease_reservation_exact :: "u64 \<Rightarrow> 'w \<Rightarrow> 'w"
  vmi_pause_vm :: "'w \<Rightarrow> 'w"
  vmi_resume_vm :: "'w \<Rightarrow> 'w"
  vmi_translate_ksym2v :: "string \<Rightarrow> 'w \<Rightarrow> u64"
  vmi_translate_kv2p :: "u64 \<Rightarrow> 'w \<Rightarrow> u64"
  vmi_read_addr :: "u64 \<Rightarrow> u64 \<Rightarrow> 'w \<Rightarrow> u64 option"
  vmi_pagetable_lookup :: "u64 \<Rightarrow> u64 \<Rightarrow> 'w \<Rightarrow> u64"

section \<open>src/xen\_helper.c\<close>

text \<open>
  \<open>xen_alloc_shadow_frame\<close>: the frame that was added to the guest, or 0. The frame variable is
  passed to both reservation calls by address.
\<close>

definition xen_alloc_shadow_frame :: "'w vmi_api \<Rightarrow> u64 \<Rightarrow> 'w \<Rightarrow> u64 \<times> 'w" where
  "xen_alloc_shadow_frame api proposed_memsize w =
     (case xc_domain_setmaxmem api proposed_memsize w of (rc, w) \<Rightarrow>
      if rc < 0 then (0, w)
      else case xc_domain_increase_reservation_exact api 0 w of (rc, gfn, w) \<Rightarrow>
      if rc < 0 then (gfn, w)
      else case xc_domain_populate_physmap_exact api gfn w of (rc, gfn, w) \<Rightarrow>
      if rc < 0 then (0, w) else (gfn, w))"

definition xen_free_shadow_frame :: "'w vmi_api \<Rightarrow> u64 \<Rightarrow> 'w \<Rightarrow> 'w" where
  "xen_free_shadow_frame api frame w = xc_domain_decrease_reservation_exact api frame w"

section \<open>Addresses\<close>

text \<open>The address at an offset of a frame.\<close>

definition addr :: "u64 \<Rightarrow> u64 \<Rightarrow> u64" where
  "addr frame off = push_bit PAGE_OFFSET_BITS frame + off"

definition offset_of :: "u64 \<Rightarrow> u64" where
  "offset_of pa = pa mod PAGESIZE"

lemma PAGESIZE_4096: "PAGESIZE = 4096"
  by (simp add: PAGESIZE_def PAGE_OFFSET_BITS_def push_bit_eq_mult)

lemma frame_div: "frame_of pa = pa div 4096"
  by (simp add: frame_of_def PAGE_OFFSET_BITS_def drop_bit_eq_div)

lemma addr_mult: "addr f off = f * 4096 + off"
  by (simp add: addr_def PAGE_OFFSET_BITS_def push_bit_eq_mult)

lemma addr_frame_offset [simp]: "addr (frame_of pa) (offset_of pa) = pa"
  unfolding addr_mult frame_div offset_of_def PAGESIZE_4096 by (rule div_mult_mod_eq)

lemma offset_less: "offset_of pa < 4096"
  by (simp add: offset_of_def PAGESIZE_4096 word_less_nat_alt unat_mod)

lemma frame_less: "frame_of pa < 2 ^ 52"
proof -
  have "unat pa < 2 ^ LENGTH(64)" by (rule unsigned_less)
  then have "unat pa div 4096 < 2 ^ 52" by (simp add: less_mult_imp_div_less)
  then show ?thesis by (simp add: frame_div word_less_nat_alt unat_div)
qed

lemma unat_addr:
  assumes "f < 2 ^ 52" and "off < 4096"
  shows "unat (addr f off) = unat f * 4096 + unat off"
proof -
  have f: "unat f < 2 ^ 52" and o1: "unat off < 4096"
    using assms by (simp_all add: word_less_nat_alt)
  then have b: "unat f * 4096 + unat off < 2 ^ 64" by simp
  have m: "unat (f * 4096) = unat f * 4096"
    using f by (simp add: unat_word_ariths)
  show ?thesis using b unfolding addr_mult by (simp add: unat_word_ariths m)
qed

lemma addr_split:
  assumes "f < 2 ^ 52" and "off < 4096"
  shows "frame_of (addr f off) = f" and "offset_of (addr f off) = off"
proof -
  have o1: "unat off < 4096" using assms(2) by (simp add: word_less_nat_alt)
  have "unat (frame_of (addr f off)) = unat f"
    using o1 by (simp add: frame_div unat_div unat_addr [OF assms])
  then show "frame_of (addr f off) = f" by (simp only: word_unat_eq_iff)
  have "unat (offset_of (addr f off)) = unat off"
    using o1 by (simp add: offset_of_def PAGESIZE_4096 unat_mod unat_addr [OF assms])
  then show "offset_of (addr f off) = off" by (simp only: word_unat_eq_iff)
qed


section \<open>Documented behaviour of the memory functions\<close>

text \<open>The part of the world that reading does not change.\<close>

definition same_ram ::
  "('w \<Rightarrow> u64 \<Rightarrow> u8) \<Rightarrow> ('w \<Rightarrow> u16 \<Rightarrow> u64 \<Rightarrow> u64 option) \<Rightarrow> ('w \<Rightarrow> u64 set) \<Rightarrow> 'w \<Rightarrow> 'w \<Rightarrow> bool" where
  "same_ram mem slat used w w' \<longleftrightarrow> mem w' = mem w \<and> slat w' = slat w \<and> used w' = used w"

text \<open>
  Reads return what is in memory and change nothing; a write that succeeds changes the bytes
  written and nothing else, one that fails nothing; a change of a view's frame map changes that
  entry only, and the frame number \<open>~0\<close> removes it; a frame that is populated was not in use
  before, and populating it leaves the rest of memory alone.
\<close>

definition ram_laws ::
  "'w vmi_api \<Rightarrow> ('w \<Rightarrow> u64 \<Rightarrow> u8) \<Rightarrow> ('w \<Rightarrow> u16 \<Rightarrow> u64 \<Rightarrow> u64 option) \<Rightarrow> ('w \<Rightarrow> u64 set) \<Rightarrow> bool" where
  "ram_laws api mem slat used \<longleftrightarrow>
     (\<forall>pa w r w'. vmi_read_8_pa api pa w = (r, w') \<longrightarrow>
        same_ram mem slat used w w' \<and> (\<forall>b. r = Some b \<longrightarrow> b = mem w pa)) \<and>
     (\<forall>pa b w ok w'. vmi_write_8_pa api pa b w = (ok, w') \<longrightarrow>
        slat w' = slat w \<and> used w' = used w \<and>
        mem w' = (if ok then (mem w)(pa := b) else mem w)) \<and>
     (\<forall>a n w bs w'. vmi_read_pa api a n w = (bs, w') \<longrightarrow>
        same_ram mem slat used w w' \<and> length bs \<le> n \<and>
        (\<forall>i < length bs. bs ! i = mem w (a + of_nat i))) \<and>
     (\<forall>a bs w n w'. vmi_write_pa api a bs w = (n, w') \<longrightarrow>
        slat w' = slat w \<and> used w' = used w \<and> n \<le> length bs \<and>
        (\<forall>i < n. mem w' (a + of_nat i) = bs ! i) \<and>
        (\<forall>x. (\<forall>i < n. x \<noteq> a + of_nat i) \<longrightarrow> mem w' x = mem w x)) \<and>
     (\<forall>idx gfn new w ok w'. vmi_slat_change_gfn api idx gfn new w = (ok, w') \<longrightarrow>
        mem w' = mem w \<and> used w' = used w \<and>
        slat w' = (if ok then (slat w)(idx := (slat w idx)
            (gfn := (if new = - 1 then None else Some new))) else slat w)) \<and>
     (\<forall>gfn acc idx w ok w'. vmi_set_mem_event api gfn acc idx w = (ok, w') \<longrightarrow>
        same_ram mem slat used w w') \<and>
     (\<forall>m w rc w'. xc_domain_setmaxmem api m w = (rc, w') \<longrightarrow> same_ram mem slat used w w') \<and>
     (\<forall>g w rc g' w'. xc_domain_increase_reservation_exact api g w = (rc, g', w') \<longrightarrow>
        same_ram mem slat used w w' \<and> (rc < 0 \<longrightarrow> g' = g)) \<and>
     (\<forall>g w rc g' w'. xc_domain_populate_physmap_exact api g w = (rc, g', w') \<longrightarrow>
        slat w' = slat w \<and>
        (if rc < 0 then mem w' = mem w \<and> used w' = used w
         else g' \<notin> used w \<and> g' < 2 ^ 52 \<and> used w' = insert g' (used w) \<and>
           (\<forall>x. frame_of x \<noteq> g' \<longrightarrow> mem w' x = mem w x)))"

lemma ram_read8:
  assumes "ram_laws api mem slat used" and "vmi_read_8_pa api pa w = (r, w')"
  shows "same_ram mem slat used w w'" and "r = Some b \<Longrightarrow> b = mem w pa"
  using assms by (auto simp: ram_laws_def)

lemma ram_write8:
  assumes "ram_laws api mem slat used" and "vmi_write_8_pa api pa b w = (ok, w')"
  shows "slat w' = slat w" and "used w' = used w"
    and "mem w' = (if ok then (mem w)(pa := b) else mem w)"
  using assms by (auto simp: ram_laws_def)

lemma ram_read:
  assumes "ram_laws api mem slat used" and "vmi_read_pa api a n w = (bs, w')"
  shows "same_ram mem slat used w w'" and "length bs \<le> n"
    and "i < length bs \<Longrightarrow> bs ! i = mem w (a + of_nat i)"
  using assms by (auto simp: ram_laws_def)

lemma ram_write:
  assumes "ram_laws api mem slat used" and "vmi_write_pa api a bs w = (n, w')"
  shows "slat w' = slat w" and "used w' = used w" and "n \<le> length bs"
    and "i < n \<Longrightarrow> mem w' (a + of_nat i) = bs ! i"
    and "(\<And>i. i < n \<Longrightarrow> x \<noteq> a + of_nat i) \<Longrightarrow> mem w' x = mem w x"
  using assms by (auto simp: ram_laws_def)

lemma ram_slat_change:
  assumes "ram_laws api mem slat used" and "vmi_slat_change_gfn api idx gfn new w = (ok, w')"
  shows "mem w' = mem w" and "used w' = used w"
    and "slat w' = (if ok then (slat w)(idx := (slat w idx)
          (gfn := (if new = - 1 then None else Some new))) else slat w)"
  using assms by (auto simp: ram_laws_def)

lemma ram_mem_event:
  assumes "ram_laws api mem slat used" and "vmi_set_mem_event api gfn acc idx w = (ok, w')"
  shows "same_ram mem slat used w w'"
  using assms by (auto simp: ram_laws_def)

lemma ram_populate:
  assumes "ram_laws api mem slat used"
    and "xc_domain_populate_physmap_exact api g w = (rc, g', w')"
  shows "slat w' = slat w \<and>
    (if rc < 0 then mem w' = mem w \<and> used w' = used w
     else g' \<notin> used w \<and> g' < 2 ^ 52 \<and> used w' = insert g' (used w) \<and>
       (\<forall>x. frame_of x \<noteq> g' \<longrightarrow> mem w' x = mem w x))"
proof -
  have "\<forall>g w rc g' w'. xc_domain_populate_physmap_exact api g w = (rc, g', w') \<longrightarrow>
      slat w' = slat w \<and>
      (if rc < 0 then mem w' = mem w \<and> used w' = used w
       else g' \<notin> used w \<and> g' < 2 ^ 52 \<and> used w' = insert g' (used w) \<and>
         (\<forall>x. frame_of x \<noteq> g' \<longrightarrow> mem w' x = mem w x))"
    using assms(1) unfolding ram_laws_def by (elim conjE) assumption
  then show ?thesis using assms(2) by blast
qed

lemma ram_alloc:
  assumes "ram_laws api mem slat used" and "xen_alloc_shadow_frame api m w = (r, w')"
  shows "slat w' = slat w"
    and "r = 0 \<or> r \<notin> used w \<and> r < 2 ^ 52 \<and> used w' = insert r (used w)"
    and "r \<noteq> 0 \<Longrightarrow> frame_of x \<noteq> r \<Longrightarrow> mem w' x = mem w x"
    and "used w \<subseteq> used w'"
    and "frame_of x \<in> used w \<Longrightarrow> mem w' x = mem w x"
proof -
  obtain rc1 w1 where 1: "xc_domain_setmaxmem api m w = (rc1, w1)" by fastforce
  obtain rc2 g2 w2 where 2: "xc_domain_increase_reservation_exact api 0 w1 = (rc2, g2, w2)"
    using prod_cases3 by blast
  obtain rc3 g3 w3 where 3: "xc_domain_populate_physmap_exact api g2 w2 = (rc3, g3, w3)"
    using prod_cases3 by blast
  have s1: "same_ram mem slat used w w1" using assms(1) 1 by (auto simp: ram_laws_def)
  have s2: "same_ram mem slat used w1 w2" "rc2 < 0 \<Longrightarrow> g2 = 0"
    using assms(1) 2 by (auto simp: ram_laws_def)
  have s3: "slat w3 = slat w2" "rc3 < 0 \<Longrightarrow> mem w3 = mem w2 \<and> used w3 = used w2"
    "\<not> rc3 < 0 \<Longrightarrow> g3 \<notin> used w2 \<and> g3 < 2 ^ 52 \<and> used w3 = insert g3 (used w2) \<and>
       (\<forall>x. frame_of x \<noteq> g3 \<longrightarrow> mem w3 x = mem w2 x)"
    using ram_populate [OF assms(1) 3] by auto
  note d = assms(2) [unfolded xen_alloc_shadow_frame_def 1 prod.case 2 3]
  show "slat w' = slat w" "r = 0 \<or> r \<notin> used w \<and> r < 2 ^ 52 \<and> used w' = insert r (used w)"
    "r \<noteq> 0 \<Longrightarrow> frame_of x \<noteq> r \<Longrightarrow> mem w' x = mem w x" "used w \<subseteq> used w'"
    "frame_of x \<in> used w \<Longrightarrow> mem w' x = mem w x"
    using d s1 s2 s3 by (auto simp: same_ram_def split: if_splits)
qed

end
