(* ===== verification/Trap_Registry.thy ===== *)
theory Trap_Registry
  imports Trapmngr
begin

text \<open>
  What the trap manager promises: it is one list of registered traps in the order of their
  registration, seen by address and by frame, together with a flag per occupied address. The
  tables simulate that list.
\<close>

section \<open>Specification\<close>

datatype tm_op =
    TAdd tptr
  | TRemove tptr
  | TAtPa u64
  | TAtGfn u64
  | TExist u64
  | TCheckDouble u64
  | TSetDouble u64 u8

datatype tm_out = OUnit | ORemain int | OTraps "tptr list" | OExist bool | ODouble u8

type_synonym registry = "tptr list \<times> (u64 \<Rightarrow> u8)"

definition pa_of :: "('cb, 'x) trap_heap \<Rightarrow> tptr \<Rightarrow> u64" where
  "pa_of h p = (case h p of None \<Rightarrow> 0 | Some t \<Rightarrow> trap_pa t)"

definition traps_at :: "('cb, 'x) trap_heap \<Rightarrow> tptr list \<Rightarrow> u64 \<Rightarrow> tptr list" where
  "traps_at h L pa = [p \<leftarrow> L. pa_of h p = pa]"

definition traps_in_frame :: "('cb, 'x) trap_heap \<Rightarrow> tptr list \<Rightarrow> u64 \<Rightarrow> tptr list" where
  "traps_in_frame h L gfn = [p \<leftarrow> L. frame_of (pa_of h p) = gfn]"

fun registry_spec :: "('cb, 'x) trap_heap \<Rightarrow> tm_op \<Rightarrow> registry \<Rightarrow> registry \<times> tm_out" where
  "registry_spec h (TAdd p) (L, D) =
     ((L @ [p], if traps_at h L (pa_of h p) = [] then D(pa_of h p := 0) else D), OUnit)"
| "registry_spec h (TRemove p) (L, D) =
     ((remove1 p L, D), ORemain (int (length (traps_at h (remove1 p L) (pa_of h p)))))"
| "registry_spec h (TAtPa pa) (L, D) = ((L, D), OTraps (traps_at h L pa))"
| "registry_spec h (TAtGfn gfn) (L, D) = ((L, D), OTraps (traps_in_frame h L gfn))"
| "registry_spec h (TExist pa) (L, D) = ((L, D), OExist (traps_at h L pa \<noteq> []))"
| "registry_spec h (TCheckDouble pa) (L, D) = ((L, D), ODouble (D pa))"
| "registry_spec h (TSetDouble pa b) (L, D) = ((L, D(pa := b)), OUnit)"

fun tm_step :: "('cb, 'x) trap_heap \<Rightarrow> tm_op \<Rightarrow> trapmngr_t \<Rightarrow> (trapmngr_t \<times> tm_out) result" where
  "tm_step h (TAdd p) tm = rbind (tm_add_int3trap h tm p) (\<lambda>tm'. Inr (tm', OUnit))"
| "tm_step h (TRemove p) tm =
     rbind (tm_remove_int3trap h tm p) (\<lambda>(tm', n). Inr (tm', ORemain n))"
| "tm_step h (TAtPa pa) tm = Inr (tm, OTraps (tm_int3traps_at_pa tm pa))"
| "tm_step h (TAtGfn gfn) tm = Inr (tm, OTraps (tm_int3traps_at_gfn tm gfn))"
| "tm_step h (TExist pa) tm = Inr (tm, OExist (tm_trap_exist tm pa))"
| "tm_step h (TCheckDouble pa) tm = rbind (tm_check_doubletrap tm pa) (\<lambda>b. Inr (tm, ODouble b))"
| "tm_step h (TSetDouble pa b) tm = rbind (tm_set_doubletrap tm pa b) (\<lambda>tm'. Inr (tm', OUnit))"

section \<open>The simulation relation\<close>

definition tm_rel :: "('cb, 'x) trap_heap \<Rightarrow> trapmngr_t \<Rightarrow> registry \<Rightarrow> bool" where
  "tm_rel h tm R \<longleftrightarrow> (case R of (L, D) \<Rightarrow>
     (\<forall>pa. breakpoint_tbl tm pa =
        (if traps_at h L pa = [] then None
         else Some \<lparr>w_pa = pa, w_doubletrap = D pa, w_traps = traps_at h L pa\<rparr>)) \<and>
     (\<forall>g. breakpoint_gfn_tbl tm g =
        (if traps_in_frame h L g = [] then None else Some (traps_in_frame h L g))))"

lemma tm_relD:
  assumes "tm_rel h tm (L, D)"
  shows "breakpoint_tbl tm pa = (if traps_at h L pa = [] then None
      else Some \<lparr>w_pa = pa, w_doubletrap = D pa, w_traps = traps_at h L pa\<rparr>)"
    and "breakpoint_gfn_tbl tm g =
      (if traps_in_frame h L g = [] then None else Some (traps_in_frame h L g))"
  using assms by (simp_all add: tm_rel_def)

lemma tm_rel_init: "tm_rel h tm_init ([], D)"
  by (simp add: tm_rel_def tm_init_def traps_at_def traps_in_frame_def)

lemma traps_at_append:
  "traps_at h (L @ [p]) pa = (if pa = pa_of h p then traps_at h L pa @ [p] else traps_at h L pa)"
  by (simp add: traps_at_def)

lemma traps_in_frame_append:
  "traps_in_frame h (L @ [p]) g =
     (if g = frame_of (pa_of h p) then traps_in_frame h L g @ [p] else traps_in_frame h L g)"
  by (simp add: traps_in_frame_def)

lemma filter_remove1_same: "P p \<Longrightarrow> filter P (remove1 p L) = remove1 p (filter P L)"
  by (induction L) auto

lemma filter_remove1_other: "\<not> P p \<Longrightarrow> filter P (remove1 p L) = filter P L"
  by (induction L) auto

lemma traps_at_remove1:
  "traps_at h (remove1 p L) pa =
     (if pa = pa_of h p then remove1 p (traps_at h L pa) else traps_at h L pa)"
  by (auto simp: traps_at_def filter_remove1_same filter_remove1_other)

lemma traps_in_frame_remove1:
  "traps_in_frame h (remove1 p L) g =
     (if g = frame_of (pa_of h p) then remove1 p (traps_in_frame h L g) else traps_in_frame h L g)"
  by (auto simp: traps_in_frame_def filter_remove1_same filter_remove1_other)

lemma traps_at_Nil_remove1: "traps_at h L (pa_of h p) = [] \<Longrightarrow> remove1 p L = L"
  by (rule remove1_idem) (auto simp: traps_at_def filter_empty_conv)

lemma read_pa_Inr: "read_pa h p = Inr pa \<longleftrightarrow> h p \<noteq> None \<and> pa = pa_of h p"
  by (auto simp: read_pa_def pa_of_def split: option.splits)

lemma tm_add_rel:
  assumes "tm_rel h tm (L, D)" and "tm_add_int3trap h tm p = Inr tm'"
  shows "tm_rel h tm'
    (L @ [p], if traps_at h L (pa_of h p) = [] then D(pa_of h p := 0) else D)"
  using assms(2) tm_relD [OF assms(1)]
  by (auto simp: tm_add_int3trap_def result_simps read_pa_Inr tm_rel_def Let_def traps_at_append
      traps_in_frame_append)

lemma tm_remove_rel:
  assumes "tm_rel h tm (L, D)" and "tm_remove_int3trap h tm p = Inr (tm', n)"
  shows "tm_rel h tm' (remove1 p L, D) \<and> n = int (length (traps_at h (remove1 p L) (pa_of h p)))"
proof (cases "traps_at h L (pa_of h p) = []")
  case True
  then show ?thesis
    using assms tm_relD [OF assms(1)] traps_at_Nil_remove1 [OF True]
    by (auto simp: tm_remove_int3trap_def result_simps read_pa_Inr)
next
  case False
  then show ?thesis
    using assms(2) tm_relD [OF assms(1)]
    by (auto simp: tm_remove_int3trap_def result_simps read_pa_Inr tm_rel_def Let_def
        traps_at_remove1 traps_in_frame_remove1)
qed

lemma tm_step_rel:
  assumes "tm_rel h tm R" and "tm_step h op tm = Inr (tm', out)"
  shows "\<exists>R'. registry_spec h op R = (R', out) \<and> tm_rel h tm' R'"
proof -
  obtain L D where R: "R = (L, D)" by (cases R)
  note rel = assms(1) [unfolded R]
  note eqs = tm_relD [OF rel]
  show ?thesis
  proof (cases op)
    case (TAdd p)
    then show ?thesis using assms(2) tm_add_rel [OF rel] by (auto simp: R result_simps)
  next
    case (TRemove p)
    then show ?thesis using assms(2) tm_remove_rel [OF rel] by (auto simp: R result_simps)
  next
    case (TAtPa pa)
    then show ?thesis using assms(2) rel eqs by (auto simp: R tm_int3traps_at_pa_def)
  next
    case (TAtGfn gfn)
    then show ?thesis using assms(2) rel eqs by (auto simp: R tm_int3traps_at_gfn_def)
  next
    case (TExist pa)
    then show ?thesis using assms(2) rel eqs by (auto simp: R tm_trap_exist_def)
  next
    case (TCheckDouble pa)
    then show ?thesis using assms(2) rel eqs
      by (auto simp: R tm_check_doubletrap_def split: if_splits)
  next
    case (TSetDouble pa b)
    then show ?thesis using assms(2) rel eqs
      by (auto simp: R tm_set_doubletrap_def tm_rel_def split: if_splits)
  qed
qed

interpretation tm: rel_simulation "tm_rel h" "\<lambda>_. True" "tm_step h" "registry_spec h" for h
  by unfold_locales (rule tm_step_rel)

text \<open>
  Property C8. The trap manager is a list of traps: whatever operations run through on a new one, the
  traps it reports at an address or in a frame are the registered ones there in the order of their
  registration, a removal reports how many are left at the address, and the double-trap flag of an
  address is the last one set since the address became occupied.
\<close>

theorem tm_simulates_registry:
  assumes "run_steps (tm_step h) ops tm_init = Inr (tm', outs)"
  shows "\<exists>R. run_spec (registry_spec h) ops ([], \<lambda>_. 0) = (R, outs) \<and> tm_rel h tm' R"
  using tm.run_rel [OF tm_rel_init _ assms] by simp

text \<open>
  Between registrations nothing is left over: no wrapper and no frame entry stays in
  the tables without a trap, each lists only traps of its own address or frame, and a trap is
  listed under its address exactly when it is listed under its frame.
\<close>

theorem tm_tables_consistent:
  assumes "run_steps (tm_step h) ops tm_init = Inr (tm', outs)"
  shows "(breakpoint_tbl tm' pa = Some w \<longrightarrow>
            w_traps w \<noteq> [] \<and> w_pa w = pa \<and> (\<forall>p \<in> set (w_traps w). pa_of h p = pa)) \<and>
         (breakpoint_gfn_tbl tm' g = Some ts \<longrightarrow>
            ts \<noteq> [] \<and> (\<forall>p \<in> set ts. frame_of (pa_of h p) = g)) \<and>
         (p \<in> set (tm_int3traps_at_pa tm' (pa_of h p)) \<longleftrightarrow>
            p \<in> set (tm_int3traps_at_gfn tm' (frame_of (pa_of h p))))"
proof -
  obtain L D where "tm_rel h tm' (L, D)"
    using tm.run_rel [OF tm_rel_init _ assms] by fastforce
  from tm_relD [OF this] show ?thesis
    by (auto simp: traps_at_def traps_in_frame_def tm_int3traps_at_pa_def
        tm_int3traps_at_gfn_def filter_empty_conv split: if_splits)
qed


lemma tm_step_Inl:
  assumes "tm_rel h tm (L, D)"
  shows "tm_step h op tm = Inl e \<longleftrightarrow>
    (case op of
       TAdd p \<Rightarrow> h p = None \<and> e = UseAfterFree
     | TRemove p \<Rightarrow> h p = None \<and> e = UseAfterFree
     | TCheckDouble pa \<Rightarrow> traps_at h L pa = [] \<and> e = NullDeref
     | TSetDouble pa b \<Rightarrow> traps_at h L pa = [] \<and> e = NullDeref
     | _ \<Rightarrow> False)"
  using tm_relD [OF assms]
  by (cases op)
    (auto simp: tm_add_int3trap_def tm_remove_int3trap_def read_pa_def tm_check_doubletrap_def
      tm_set_doubletrap_def Let_def split: option.splits if_splits)

section \<open>Destruction\<close>

lemma foldm_free_trap:
  "distinct ps \<Longrightarrow> \<forall>p \<in> set ps. h p \<noteq> None \<Longrightarrow>
   foldm free_trap ps h = Inr (\<lambda>p. if p \<in> set ps then None else h p)"
proof (induction ps arbitrary: h)
  case (Cons p ps)
  have "free_trap p h = Inr (h(p := None))" using Cons.prems by (simp add: free_trap_def)
  moreover have "foldm free_trap ps (h(p := None)) =
      Inr (\<lambda>q. if q \<in> set ps then None else (h(p := None)) q)"
    using Cons.prems by (intro Cons.IH) auto
  ultimately show ?case by (auto simp: fun_eq_iff)
qed (simp add: fun_eq_iff)

lemma traps_by_address:
  "distinct order \<Longrightarrow> distinct L \<Longrightarrow>
   distinct (concat (map (traps_at h L) order)) \<and>
   set (concat (map (traps_at h L) order)) = {p \<in> set L. pa_of h p \<in> set order}"
  by (induction order) (auto simp: traps_at_def)

text \<open>
  \<open>tm_destroy\<close> frees every registered trap once, in whatever order the table is walked,
  as long as no trap was registered twice and none was freed behind the manager's back.
\<close>

theorem tm_destroy_frees_all:
  assumes "tm_rel h tm (L, D)" and "distinct L" and "\<forall>p \<in> set L. h p \<noteq> None"
    and "distinct order" and "\<forall>p \<in> set L. pa_of h p \<in> set order"
  shows "tm_destroy order tm h = Inr (\<lambda>p. if p \<in> set L then None else h p)"
proof -
  have eq: "tm_int3traps_at_pa tm pa = traps_at h L pa" for pa
    using tm_relD [OF assms(1)] by (simp add: tm_int3traps_at_pa_def)
  have d: "distinct (concat (map (traps_at h L) order))"
    and s: "set (concat (map (traps_at h L) order)) = set L"
    using traps_by_address [OF assms(4,2), of h] assms(5) by auto
  have al: "\<forall>p \<in> set (concat (map (traps_at h L) order)). h p \<noteq> None"
    using assms(3) unfolding s .
  show ?thesis
    using foldm_free_trap [OF d al] unfolding tm_destroy_def eq [abs_def] s .
qed

section \<open>Concrete runs\<close>

definition trap_at :: "u64 \<Rightarrow> (unit, unit) trap_t" where
  "trap_at pa = \<lparr>trap_name = ''NtClose'', trap_cb = None, trap_ret_cb = None, trap_pa = pa,
     self_destroy = False, trap_extra = None\<rparr>"

definition three_traps :: "(unit, unit) trap_heap" where
  "three_traps = (\<lambda>_. None)(1 \<mapsto> trap_at 0x1234, 2 \<mapsto> trap_at 0x1234, 3 \<mapsto> trap_at 0x1FF0)"

definition trap_ops :: "tm_op list" where
  "trap_ops = [TAdd 1, TSetDouble 0x1234 1, TAdd 2, TAdd 3, TCheckDouble 0x1234, TAtGfn 1,
     TRemove 1, TAtPa 0x1234, TAtGfn 1, TRemove 2, TExist 0x1234]"

lemma trap_run:
  "(case run_steps (tm_step three_traps) trap_ops tm_init of
      Inl _ \<Rightarrow> False
    | Inr (tm, outs) \<Rightarrow> outs = [OUnit, OUnit, OUnit, OUnit, ODouble 1, OTraps [1, 2, 3], ORemain 1,
        OTraps [2], OTraps [2, 3], ORemain 0, OExist False] \<and>
        tm_int3traps_at_pa tm 0x1FF0 = [3])"
  by code_simp

lemma trap_run_result:
  obtains tm outs where "run_steps (tm_step three_traps) trap_ops tm_init = Inr (tm, outs)"
  using trap_run by (auto split: sum.splits)

theorem tm_simulates_registry_witness:
  "\<exists>tm outs R. run_steps (tm_step three_traps) trap_ops tm_init = Inr (tm, outs) \<and>
     run_spec (registry_spec three_traps) trap_ops ([], \<lambda>_. 0) = (R, outs) \<and>
     tm_rel three_traps tm R"
  using trap_run_result tm_simulates_registry by metis

theorem tm_tables_consistent_witness:
  "\<exists>tm outs. run_steps (tm_step three_traps) trap_ops tm_init = Inr (tm, outs) \<and>
     (3 \<in> set (tm_int3traps_at_pa tm (pa_of three_traps 3)) \<longleftrightarrow>
      3 \<in> set (tm_int3traps_at_gfn tm (frame_of (pa_of three_traps 3))))"
  using trap_run_result tm_tables_consistent by metis

theorem tm_destroy_frees_all_witness:
  "\<exists>tm. tm_rel three_traps tm ([1, 3], \<lambda>_. 0) \<and>
     tm_destroy [0x1FF0, 0x1234] tm three_traps =
       Inr (\<lambda>p. if p \<in> {1, 3} then None else three_traps p)"
proof -
  have pa: "pa_of three_traps 1 = 0x1234" "pa_of three_traps 3 = 0x1FF0" by code_simp+
  have al: "three_traps 1 \<noteq> None" "three_traps 3 \<noteq> None" by (simp_all add: three_traps_def)
  obtain t1 where t1: "tm_add_int3trap three_traps tm_init 1 = Inr t1"
    using al by (auto simp: tm_add_int3trap_def read_pa_def Let_def)
  obtain t2 where t2: "tm_add_int3trap three_traps t1 3 = Inr t2"
    using al by (auto simp: tm_add_int3trap_def read_pa_def Let_def)
  have r1: "tm_rel three_traps t1 ([1], \<lambda>_. 0)"
    using tm_add_rel [OF tm_rel_init [of _ "\<lambda>_. 0"] t1] by (simp add: traps_at_def fun_upd_def)
  have r2: "tm_rel three_traps t2 ([1, 3], \<lambda>_. 0)"
    using tm_add_rel [OF r1 t2] by (simp add: traps_at_def pa fun_upd_def if_distrib cong: if_cong)
  have "tm_destroy [0x1FF0, 0x1234] t2 three_traps =
      Inr (\<lambda>p. if p \<in> set [1, 3] then None else three_traps p)"
    by (rule tm_destroy_frees_all [OF r2]) (use al pa in auto)
  with r2 show ?thesis by auto
qed

end
