(* ===== verification/Hfm_Traps.thy ===== *)
theory Hfm_Traps
  imports Vmi Trap_Registry
begin

text \<open>
  Injecting and removing breakpoints (\<open>src/hfm.c\<close>: \<open>_create_shadow_page\<close>, \<open>_inject_trap\<close>,
  \<open>_remove_int3\<close>, \<open>hfm_monitor_syscall\<close>, \<open>_destroy_traps\<close>). The handler of a virtual machine
  (\<open>vmhdlr_t\<close>) is the record \<open>vm_t\<close>; it holds the trap manager, the heap of traps and the world
  of the hypervisor. Log output is not modelled.
\<close>

section \<open>State\<close>

text \<open>
  The callback armed for the next single-step event of a virtual CPU, with the data it gets:
  \<open>_singlestep_cb\<close> gets the handler, \<open>_post_mem_cb\<close> a \<open>memcb_pass_t\<close>, whose trap list is a list
  of pointers to addresses.
\<close>

record memcb_pass_t =
  pass_remapped :: "remapped_t option"
  pass_traps :: "u64 list"

datatype step_cb = Singlestep_cb | Post_mem_cb memcb_pass_t

record regs_t =
  r_cr3 :: u64
  r_rsp :: u64

record ('cb, 'x, 'w) vm_t =
  vm_tm :: trapmngr_t
  vm_heap :: "('cb, 'x) trap_heap"
  vm_fresh :: tptr
  vm_memsize :: u32
  vm_altp2m_idx :: u16
  vm_interrupted :: int
  vm_regs :: "regs_t option list"
  vm_step :: "step_cb option list"
  vm_world :: 'w

definition INT3_CHAR :: u8 where "INT3_CHAR = 0xCC"
definition ORIGIN_IDX :: u16 where "ORIGIN_IDX = 0"

section \<open>Operations\<close>

text \<open>
  \<open>memsize\<close> has 32 bits, so the proposed size wraps around. The frame is 0 on failure, also when
  the view was changed already.
\<close>

definition create_shadow_page ::
  "'w vmi_api \<Rightarrow> u64 \<Rightarrow> ('cb, 'x, 'w) vm_t \<Rightarrow> u64 \<times> ('cb, 'x, 'w) vm_t" where
  "create_shadow_page api frame vm =
     (let proposed_memsize = vm_memsize vm + ucast PAGESIZE
      in case xen_alloc_shadow_frame api (ucast proposed_memsize) (vm_world vm) of (remapped, w) \<Rightarrow>
      if remapped = 0 then (0, vm\<lparr>vm_world := w\<rparr>)
      else let vm = vm\<lparr>vm_memsize := proposed_memsize\<rparr>
      in case vmi_slat_change_gfn api (vm_altp2m_idx vm) frame remapped w of (ok, w) \<Rightarrow>
      if \<not> ok then (0, vm\<lparr>vm_world := w\<rparr>)
      else case vmi_read_pa api (push_bit PAGE_OFFSET_BITS frame) (unat PAGESIZE) w of (buff, w) \<Rightarrow>
      if length buff \<noteq> unat PAGESIZE then (0, vm\<lparr>vm_world := w\<rparr>)
      else case vmi_write_pa api (push_bit PAGE_OFFSET_BITS remapped) buff w of (ret, w) \<Rightarrow>
      if ret \<noteq> unat PAGESIZE then (0, vm\<lparr>vm_world := w\<rparr>)
      else (remapped, vm\<lparr>vm_world := w\<rparr>))"

text \<open>
  \<open>_inject_trap\<close>, first step: the shadow frame of \<open>frame\<close>, made if there is none. A frame 0 is
  not added to the table, and the caller goes on with it.
\<close>

definition ensure_shadow ::
  "'w vmi_api \<Rightarrow> u64 \<Rightarrow> ('cb, 'x, 'w) vm_t \<Rightarrow> (u64 \<times> ('cb, 'x, 'w) vm_t) result" where
  "ensure_shadow api frame vm =
     (case tm_find_remapped (vm_tm vm) frame of
        Some remapped \<Rightarrow> Inr (rm_r remapped, vm)
      | None \<Rightarrow>
          (case create_shadow_page api frame vm of (r, vm) \<Rightarrow>
           if r \<noteq> 0
           then rbind (tm_add_remapped (vm_tm vm) \<lparr>rm_o = frame, rm_r = r\<rparr>) (\<lambda>tm.
                  Inr (r, vm\<lparr>vm_tm := tm\<rparr>))
           else Inr (r, vm)))"

text \<open>Second step: the memory trap that protects the frame in the view with the breakpoints.\<close>

definition ensure_memtrap :: "'w vmi_api \<Rightarrow> u64 \<Rightarrow> ('cb, 'x, 'w) vm_t \<Rightarrow> ('cb, 'x, 'w) vm_t" where
  "ensure_memtrap api frame vm =
     (let tm = (case tm_find_memtrap (vm_tm vm) frame of
                  None \<Rightarrow> tm_add_memtrap (vm_tm vm) frame | Some _ \<Rightarrow> vm_tm vm)
      in case vmi_set_mem_event api frame VMI_MEMACCESS_RW (vm_altp2m_idx vm) (vm_world vm) of
           (_, w) \<Rightarrow> vm\<lparr>vm_tm := tm, vm_world := w\<rparr>)"

text \<open>Third step: the value for \<open>doubletrap\<close>, or \<open>None\<close> when memory cannot be read or written.\<close>

definition set_int3 ::
  "'w vmi_api \<Rightarrow> u64 \<Rightarrow> u64 \<Rightarrow> ('cb, 'x, 'w) vm_t \<Rightarrow> u8 option \<times> ('cb, 'x, 'w) vm_t" where
  "set_int3 api r pa vm =
     (let rpa = push_bit PAGE_OFFSET_BITS r + pa mod PAGESIZE
      in case vmi_read_8_pa api pa (vm_world vm) of
           (None, w) \<Rightarrow> (None, vm\<lparr>vm_world := w\<rparr>)
         | (Some test, w) \<Rightarrow>
             if test = INT3_CHAR then (Some 1, vm\<lparr>vm_world := w\<rparr>)
             else case vmi_write_8_pa api rpa INT3_CHAR w of (ok, w) \<Rightarrow>
               (if ok then Some 0 else None, vm\<lparr>vm_world := w\<rparr>))"

definition register_trap ::
  "tptr \<Rightarrow> u64 \<Rightarrow> u8 option \<Rightarrow> ('cb, 'x, 'w) vm_t \<Rightarrow> (bool \<times> ('cb, 'x, 'w) vm_t) result" where
  "register_trap trap pa doubletrap vm =
     rbind (tm_add_int3trap (vm_heap vm) (vm_tm vm) trap) (\<lambda>tm.
     rbind (case doubletrap of None \<Rightarrow> Inr tm | Some b \<Rightarrow> tm_set_doubletrap tm pa b) (\<lambda>tm.
       Inr (True, vm\<lparr>vm_tm := tm\<rparr>)))"

definition inject_trap ::
  "'w vmi_api \<Rightarrow> tptr \<Rightarrow> ('cb, 'x, 'w) vm_t \<Rightarrow> (bool \<times> ('cb, 'x, 'w) vm_t) result" where
  "inject_trap api trap vm =
     rbind (read_pa (vm_heap vm) trap) (\<lambda>pa.
       let frame = frame_of pa in
       if tm_trap_exist (vm_tm vm) pa then register_trap trap pa None vm
       else rbind (ensure_shadow api frame vm) (\<lambda>(r, vm).
         let vm = ensure_memtrap api frame vm in
         case set_int3 api r pa vm of
           (None, vm) \<Rightarrow> Inr (False, vm)
         | (Some doubletrap, vm) \<Rightarrow> register_trap trap pa (Some doubletrap) vm))"

text \<open>\<open>_remove_int3\<close>; a byte that could not be read is written back uninitialised.\<close>

definition remove_int3 ::
  "'w vmi_api \<Rightarrow> u64 \<Rightarrow> ('cb, 'x, 'w) vm_t \<Rightarrow> ('cb, 'x, 'w) vm_t result" where
  "remove_int3 api pa vm =
     (case vmi_read_8_pa api pa (vm_world vm) of
        (None, w) \<Rightarrow> Inl Uninitialised
      | (Some backup, w) \<Rightarrow>
          (case tm_find_remapped (vm_tm vm) (frame_of pa) of
             None \<Rightarrow> Inl NullDeref
           | Some remapped \<Rightarrow>
               (case vmi_write_8_pa api
                  (push_bit PAGE_OFFSET_BITS (rm_r remapped) + (pa AND mask 12)) backup w of
                  (ok, w) \<Rightarrow> Inr (vm\<lparr>vm_interrupted := (if ok then vm_interrupted vm else - 1),
                      vm_world := w\<rparr>))))"

text \<open>
  What \<open>_int3_cb\<close> does with a trap that destroys itself: unregister it, give the address its
  byte back when no trap is left there, and free it.
\<close>

definition drop_trap ::
  "'w vmi_api \<Rightarrow> tptr \<Rightarrow> ('cb, 'x, 'w) vm_t \<Rightarrow> ('cb, 'x, 'w) vm_t result" where
  "drop_trap api trap vm =
     rbind (tm_remove_int3trap (vm_heap vm) (vm_tm vm) trap) (\<lambda>(tm, trap_remains).
     rbind (read_pa (vm_heap vm) trap) (\<lambda>pa.
     rbind (if trap_remains = 0 then remove_int3 api pa (vm\<lparr>vm_tm := tm\<rparr>)
            else Inr (vm\<lparr>vm_tm := tm\<rparr>)) (\<lambda>vm.
     rbind (free_trap trap (vm_heap vm)) (\<lambda>heap. Inr (vm\<lparr>vm_heap := heap\<rparr>)))))"

text \<open>\<open>calloc\<close> of a trap: the pointers are handed out in order.\<close>

definition alloc_trap ::
  "('cb, 'x) trap_t \<Rightarrow> ('cb, 'x, 'w) vm_t \<Rightarrow> tptr \<times> ('cb, 'x, 'w) vm_t" where
  "alloc_trap t vm =
     (vm_fresh vm, vm\<lparr>vm_heap := (vm_heap vm)(vm_fresh vm \<mapsto> t), vm_fresh := vm_fresh vm + 1\<rparr>)"

text \<open>
  \<open>hfm_monitor_syscall\<close> returns \<open>SUCCESS\<close> whatever happens; the outcome of \<open>_inject_trap\<close> is not
  looked at. The name is copied with \<open>strncpy\<close> into an array of \<open>STR_BUFF\<close> bytes.
\<close>

definition hfm_monitor_syscall ::
  "'w vmi_api \<Rightarrow> string \<Rightarrow> 'cb option \<Rightarrow> 'cb option \<Rightarrow> ('cb, 'x, 'w) vm_t \<Rightarrow>
   (bool \<times> ('cb, 'x, 'w) vm_t) result" where
  "hfm_monitor_syscall api func_name sys_cb ret_cb vm =
     (let vm = vm\<lparr>vm_world := vmi_pause_vm api (vm_world vm)\<rparr>;
          func_addr = vmi_translate_ksym2v api func_name (vm_world vm);
          pa = vmi_translate_kv2p api func_addr (vm_world vm)
      in rbind
        (if func_addr = 0 then Inr vm
         else if pa = 0 then Inr vm
         else case alloc_trap \<lparr>trap_name = take 1024 func_name, trap_cb = sys_cb,
                trap_ret_cb = ret_cb, trap_pa = pa, self_destroy = False, trap_extra = None\<rparr> vm of
              (trap, vm) \<Rightarrow> rbind (inject_trap api trap vm) (\<lambda>(_, vm). Inr vm))
        (\<lambda>vm. Inr (True, vm\<lparr>vm_world := vmi_resume_vm api (vm_world vm)\<rparr>)))"

text \<open>
  \<open>_destroy_traps\<close>: memory events off, shadow frames unmapped and given back, traps freed. The
  three lists are the iteration orders of the tables.
\<close>

fun clear_mem_events :: "'w vmi_api \<Rightarrow> u16 \<Rightarrow> u64 list \<Rightarrow> 'w \<Rightarrow> 'w" where
  "clear_mem_events api idx [] w = w"
| "clear_mem_events api idx (gfn # gfns) w =
     clear_mem_events api idx gfns (snd (vmi_set_mem_event api gfn VMI_MEMACCESS_N idx w))"

fun unmap_shadows :: "'w vmi_api \<Rightarrow> u16 \<Rightarrow> remapped_t list \<Rightarrow> 'w \<Rightarrow> 'w" where
  "unmap_shadows api idx [] w = w"
| "unmap_shadows api idx (r # rs) w =
     unmap_shadows api idx rs
       (xen_free_shadow_frame api (rm_r r) (snd (vmi_slat_change_gfn api idx (rm_o r) (- 1) w)))"

definition destroy_traps ::
  "'w vmi_api \<Rightarrow> u64 list \<Rightarrow> u64 list \<Rightarrow> u64 list \<Rightarrow> ('cb, 'x, 'w) vm_t \<Rightarrow>
   ('cb, 'x, 'w) vm_t result" where
  "destroy_traps api mem_order rm_order bp_order vm =
     (let w = clear_mem_events api (vm_altp2m_idx vm) (tm_all_memtraps mem_order (vm_tm vm))
                (vm_world vm);
          w = unmap_shadows api (vm_altp2m_idx vm) (tm_all_remappeds rm_order (vm_tm vm)) w
      in rbind (tm_destroy bp_order (vm_tm vm) (vm_heap vm)) (\<lambda>heap.
           Inr (vm\<lparr>vm_heap := heap, vm_world := w\<rparr>)))"

end
