(* ===== verification/Hfm_Shadow.thy ===== *)
theory Hfm_Shadow
  imports Hfm_Traps
begin

text \<open>
  What the shadow view guarantees: a guest that runs in it executes the original memory with a
  breakpoint byte at every address that has a trap, and nothing else changes. The invariant
  \<open>shadow_inv\<close> links the trap manager, the frame map of the view and the memory.
\<close>

named_theorems vm_simps

section \<open>The invariant\<close>

type_synonym 'w memory = "'w \<Rightarrow> u64 \<Rightarrow> u8"
type_synonym 'w frame_map = "'w \<Rightarrow> u16 \<Rightarrow> u64 \<Rightarrow> u64 option"
type_synonym 'w frames = "'w \<Rightarrow> u64 set"

definition shadow_of :: "trapmngr_t \<Rightarrow> u64 \<Rightarrow> u64 option" where
  "shadow_of tm frame = map_option rm_r (remapped_tbl tm frame)"

definition shadow_inv ::
  "'w memory \<Rightarrow> 'w frame_map \<Rightarrow> 'w frames \<Rightarrow> u16 \<Rightarrow> trapmngr_t \<Rightarrow> 'w \<Rightarrow> bool" where
  "shadow_inv mem slat used idx tm w \<longleftrightarrow>
     (\<forall>o1. slat w idx o1 = shadow_of tm o1) \<and>
     (\<forall>o1 r. shadow_of tm o1 = Some r \<longrightarrow>
        r \<noteq> 0 \<and> r < 2 ^ 52 \<and> o1 < 2 ^ 52 \<and> r \<in> used w \<and> o1 \<in> used w \<and> shadow_of tm r = None \<and>
        (\<forall>off < 4096. mem w (addr r off) =
           (if tm_trap_exist tm (addr o1 off) then INT3_CHAR else mem w (addr o1 off)))) \<and>
     (\<forall>o1 o2 r. shadow_of tm o1 = Some r \<longrightarrow> shadow_of tm o2 = Some r \<longrightarrow> o1 = o2) \<and>
     (\<forall>pa. tm_trap_exist tm pa \<longrightarrow> shadow_of tm (frame_of pa) \<noteq> None)"

lemma shadow_invD:
  assumes "shadow_inv mem slat used idx tm w"
  shows "slat w idx o1 = shadow_of tm o1"
    and "shadow_of tm o1 = Some r \<Longrightarrow> r \<noteq> 0 \<and> r < 2 ^ 52 \<and> o1 < 2 ^ 52 \<and> r \<in> used w \<and> o1 \<in> used w \<and>
      shadow_of tm r = None"
    and "shadow_of tm o1 = Some r \<Longrightarrow> off < 4096 \<Longrightarrow> mem w (addr r off) =
      (if tm_trap_exist tm (addr o1 off) then INT3_CHAR else mem w (addr o1 off))"
    and "shadow_of tm o1 = Some r \<Longrightarrow> shadow_of tm o2 = Some r \<Longrightarrow> o1 = o2"
    and "tm_trap_exist tm pa \<Longrightarrow> shadow_of tm (frame_of pa) \<noteq> None"
  using assms unfolding shadow_inv_def by blast+

lemma shadow_invI:
  assumes "\<And>o1. slat w idx o1 = shadow_of tm o1"
    and "\<And>o1 r. shadow_of tm o1 = Some r \<Longrightarrow> r \<noteq> 0 \<and> r < 2 ^ 52 \<and> o1 < 2 ^ 52 \<and> r \<in> used w \<and>
      o1 \<in> used w \<and> shadow_of tm r = None"
    and "\<And>o1 r off. shadow_of tm o1 = Some r \<Longrightarrow> off < 4096 \<Longrightarrow> mem w (addr r off) =
      (if tm_trap_exist tm (addr o1 off) then INT3_CHAR else mem w (addr o1 off))"
    and "\<And>o1 o2 r. shadow_of tm o1 = Some r \<Longrightarrow> shadow_of tm o2 = Some r \<Longrightarrow> o1 = o2"
    and "\<And>pa. tm_trap_exist tm pa \<Longrightarrow> shadow_of tm (frame_of pa) \<noteq> None"
  shows "shadow_inv mem slat used idx tm w"
  using assms unfolding shadow_inv_def by blast

text \<open>What the guest reads at an address while view \<open>idx\<close> is active.\<close>

definition guest_view :: "'w memory \<Rightarrow> 'w frame_map \<Rightarrow> u16 \<Rightarrow> 'w \<Rightarrow> u64 \<Rightarrow> u8" where
  "guest_view mem slat idx w a =
     (case slat w idx (frame_of a) of
        None \<Rightarrow> mem w a | Some r \<Rightarrow> mem w (addr r (offset_of a)))"

lemma guest_view_inv:
  assumes "shadow_inv mem slat used idx tm w"
  shows "guest_view mem slat idx w a = (if tm_trap_exist tm a then INT3_CHAR else mem w a)"
proof (cases "shadow_of tm (frame_of a)")
  case None
  then show ?thesis
    using shadow_invD(1) [OF assms] shadow_invD(5) [OF assms, of a] by (auto simp: guest_view_def)
next
  case (Some r)
  then show ?thesis
    using shadow_invD(1) [OF assms] shadow_invD(3) [OF assms Some offset_less [of a]]
    by (simp add: guest_view_def)
qed

text \<open>The invariant does not depend on the memory outside the frames it speaks of.\<close>

definition shadow_frames :: "trapmngr_t \<Rightarrow> u64 set" where
  "shadow_frames tm = {f. \<exists>o1. shadow_of tm o1 = Some f}"

section \<open>Creating a shadow frame\<close>

lemma copy_page:
  assumes "\<And>i. i < 4096 \<Longrightarrow> m' (addr r 0 + of_nat i) = m (addr f 0 + of_nat i)" and "off < 4096"
  shows "m' (addr r off) = m (addr f off)"
proof -
  have "unat off < 4096" using assms(2) by (simp add: word_less_nat_alt)
  from assms(1) [OF this] show ?thesis by (simp add: addr_def)
qed

lemma create_shadow_page_ok:
  assumes laws: "ram_laws api mem slat used" and f: "frame \<in> used (vm_world vm)" "frame < 2 ^ 52"
    and c: "create_shadow_page api frame vm = (r, vm')" and r: "r \<noteq> 0" "frame \<noteq> - 1"
  shows "vm_tm vm' = vm_tm vm \<and> vm_heap vm' = vm_heap vm \<and> vm_altp2m_idx vm' = vm_altp2m_idx vm"
    and "r \<notin> used (vm_world vm) \<and> r < 2 ^ 52 \<and> used (vm_world vm') = insert r (used (vm_world vm))"
    and "slat (vm_world vm') (vm_altp2m_idx vm) =
      (slat (vm_world vm) (vm_altp2m_idx vm))(frame \<mapsto> r)"
    and "frame_of x \<noteq> r \<Longrightarrow> mem (vm_world vm') x = mem (vm_world vm) x"
    and "off < 4096 \<Longrightarrow> mem (vm_world vm') (addr r off) = mem (vm_world vm) (addr frame off)"
proof -
  let ?idx = "vm_altp2m_idx vm" and ?w = "vm_world vm"
  let ?m = "vm_memsize vm + 4096"
  obtain r1 w1 where 1: "xen_alloc_shadow_frame api (ucast ?m) ?w = (r1, w1)" by fastforce
  obtain ok w2 where 2: "vmi_slat_change_gfn api ?idx frame r1 w1 = (ok, w2)" by fastforce
  obtain bs w3 where 3: "vmi_read_pa api (push_bit PAGE_OFFSET_BITS frame) 4096 w2 = (bs, w3)"
    by fastforce
  obtain n w4 where 4: "vmi_write_pa api (push_bit PAGE_OFFSET_BITS r1) bs w3 = (n, w4)" by fastforce
  have cond: "r1 = r \<and> ok \<and> length bs = 4096 \<and> n = 4096"
    and vm': "vm' = vm\<lparr>vm_memsize := ?m, vm_world := w4\<rparr>"
    using c r by (auto simp: create_shadow_page_def Let_def 1 2 3 4 PAGESIZE_4096 split: if_splits)
  then show "vm_tm vm' = vm_tm vm \<and> vm_heap vm' = vm_heap vm \<and> vm_altp2m_idx vm' = vm_altp2m_idx vm"
    by simp
  note a = ram_alloc [OF laws 1] and s = ram_slat_change [OF laws 2]
  note rd = ram_read [OF laws 3] and wr = ram_write [OF laws 4]
  have rr: "r \<notin> used ?w" "r < 2 ^ 52" "used w1 = insert r (used ?w)"
    using a(2) cond r by auto
  have u4: "used w4 = used w1"
    using s(2) rd(1) wr(2) by (simp add: same_ram_def)
  then show "r \<notin> used ?w \<and> r < 2 ^ 52 \<and> used (vm_world vm') = insert r (used ?w)"
    using rr vm' by simp
  have "r \<noteq> - 1" using rr(2) by auto
  then have "slat w2 ?idx = (slat ?w ?idx)(frame \<mapsto> r)"
    using s(3) a(1) cond by simp
  then show "slat (vm_world vm') ?idx = (slat ?w ?idx)(frame \<mapsto> r)"
    using rd(1) wr(1) vm' by (simp add: same_ram_def)
  have m3: "mem w3 = mem w1" using s(1) rd(1) by (simp add: same_ram_def)
  have m1: "frame_of x \<noteq> r \<Longrightarrow> mem w1 x = mem ?w x" for x using a(3) cond r by blast
  have in_r: "frame_of (addr r 0 + of_nat i) = r" if "i < 4096" for i
  proof -
    have "(of_nat i :: u64) < 4096" using that by (simp add: word_less_nat_alt unat_of_nat)
    then show ?thesis using addr_split(1) [OF rr(2)] by (simp add: addr_def)
  qed
  have m4: "mem w4 x = mem w3 x" if "frame_of x \<noteq> r" for x
    using wr(5) [of x] in_r that cond by (auto simp: addr_def)
  show "mem (vm_world vm') x = mem ?w x" if "frame_of x \<noteq> r"
    using m4 [OF that] m3 m1 [OF that] vm' by simp
  have "frame \<noteq> r" using f(1) rr(1) by blast
  have in_f: "frame_of (addr frame 0 + of_nat i) = frame" if "i < 4096" for i
  proof -
    have "(of_nat i :: u64) < 4096" using that by (simp add: word_less_nat_alt unat_of_nat)
    then show ?thesis using addr_split(1) [OF f(2)] by (simp add: addr_def)
  qed
  have "mem w4 (addr r 0 + of_nat i) = mem ?w (addr frame 0 + of_nat i)" if i: "i < 4096" for i
  proof -
    have "mem w4 (addr r 0 + of_nat i) = bs ! i" using wr(4) [of i] cond i by (simp add: addr_def)
    also have "\<dots> = mem w2 (addr frame 0 + of_nat i)" using rd(3) [of i] cond i by (simp add: addr_def)
    also have "\<dots> = mem ?w (addr frame 0 + of_nat i)"
      using s(1) m1 in_f [OF i] \<open>frame \<noteq> r\<close> by simp
    finally show ?thesis .
  qed
  then show "mem (vm_world vm') (addr r off) = mem ?w (addr frame off)" if "off < 4096"
    using copy_page [of "mem w4" r "mem ?w" frame off] that vm' by simp
qed


section \<open>What the table operations do to the invariant's parts\<close>

lemma add_remapped_parts:
  assumes "tm_add_remapped tm \<lparr>rm_o = f, rm_r = r\<rparr> = Inr tm'"
  shows "shadow_of tm' = (shadow_of tm)(f \<mapsto> r)" and "tm_trap_exist tm' = tm_trap_exist tm"
    and "breakpoint_tbl tm' = breakpoint_tbl tm" and "breakpoint_gfn_tbl tm' = breakpoint_gfn_tbl tm"
  using assms by (auto simp: tm_add_remapped_def shadow_of_def tm_trap_exist_def fun_eq_iff
      split: option.splits)

lemma add_memtrap_parts [simp]:
  "shadow_of (tm_add_memtrap tm f) = shadow_of tm"
  "tm_trap_exist (tm_add_memtrap tm f) = tm_trap_exist tm"
  "breakpoint_tbl (tm_add_memtrap tm f) = breakpoint_tbl tm"
  "breakpoint_gfn_tbl (tm_add_memtrap tm f) = breakpoint_gfn_tbl tm"
  by (auto simp: tm_add_memtrap_def shadow_of_def tm_trap_exist_def fun_eq_iff)

lemma add_int3trap_parts:
  assumes "tm_add_int3trap h tm p = Inr tm'"
  shows "shadow_of tm' = shadow_of tm"
    and "tm_trap_exist tm' x \<longleftrightarrow> tm_trap_exist tm x \<or> x = pa_of h p"
  using assms by (auto simp: tm_add_int3trap_def shadow_of_def tm_trap_exist_def fun_eq_iff
      result_simps read_pa_Inr Let_def)

lemma set_doubletrap_parts:
  assumes "tm_set_doubletrap tm pa b = Inr tm'"
  shows "shadow_of tm' = shadow_of tm" and "tm_trap_exist tm' = tm_trap_exist tm"
  using assms by (auto simp: tm_set_doubletrap_def shadow_of_def tm_trap_exist_def fun_eq_iff
      split: option.splits if_splits)

lemma remove_int3trap_parts:
  assumes "tm_remove_int3trap h tm p = Inr (tm', n)"
  shows "shadow_of tm' = shadow_of tm"
    and "x \<noteq> pa_of h p \<Longrightarrow> tm_trap_exist tm' x \<longleftrightarrow> tm_trap_exist tm x"
    and "n = 0 \<Longrightarrow> \<not> tm_trap_exist tm' (pa_of h p)"
    and "n \<noteq> 0 \<Longrightarrow> tm_trap_exist tm' (pa_of h p) \<and> tm_trap_exist tm (pa_of h p)"
  using assms by (auto simp: tm_remove_int3trap_def shadow_of_def tm_trap_exist_def fun_eq_iff
      result_simps read_pa_Inr Let_def split: option.splits if_splits)

lemma shadow_inv_cong:
  assumes "shadow_inv mem slat used idx tm w" and "shadow_of tm' = shadow_of tm"
    and "tm_trap_exist tm' = tm_trap_exist tm" and "same_ram mem slat used w w'"
  shows "shadow_inv mem slat used idx tm' w'"
  using assms by (simp add: shadow_inv_def same_ram_def)

section \<open>The steps of an injection\<close>

definition kept :: "'w memory \<Rightarrow> 'w frames \<Rightarrow> trapmngr_t \<Rightarrow> 'w \<Rightarrow> 'w \<Rightarrow> bool" where
  "kept mem used tm w w' \<longleftrightarrow> used w \<subseteq> used w' \<and>
     (\<forall>x. frame_of x \<in> used w \<longrightarrow> frame_of x \<notin> shadow_frames tm \<longrightarrow> mem w' x = mem w x)"

lemma ensure_shadow_inv:
  assumes laws: "ram_laws api mem slat used"
    and inv: "shadow_inv mem slat used (vm_altp2m_idx vm) (vm_tm vm) (vm_world vm)"
    and f: "frame \<in> used (vm_world vm)" "frame < 2 ^ 52" "frame \<notin> shadow_frames (vm_tm vm)"
    and e: "ensure_shadow api frame vm = Inr (r, vm')" and r: "r \<noteq> 0"
  shows "shadow_inv mem slat used (vm_altp2m_idx vm) (vm_tm vm') (vm_world vm')"
    and "shadow_of (vm_tm vm') frame = Some r \<and> tm_trap_exist (vm_tm vm') = tm_trap_exist (vm_tm vm) \<and>
      vm_heap vm' = vm_heap vm \<and> vm_altp2m_idx vm' = vm_altp2m_idx vm \<and>
      (r \<in> shadow_frames (vm_tm vm) \<or> r \<notin> used (vm_world vm))"
    and "kept mem used (vm_tm vm) (vm_world vm) (vm_world vm')"
proof -
  let ?tm = "vm_tm vm" and ?w = "vm_world vm" and ?idx = "vm_altp2m_idx vm"
  have "shadow_inv mem slat used ?idx (vm_tm vm') (vm_world vm') \<and>
    (shadow_of (vm_tm vm') frame = Some r \<and> tm_trap_exist (vm_tm vm') = tm_trap_exist ?tm \<and>
      vm_heap vm' = vm_heap vm \<and> vm_altp2m_idx vm' = ?idx \<and>
      (r \<in> shadow_frames ?tm \<or> r \<notin> used ?w)) \<and>
    kept mem used ?tm ?w (vm_world vm')"
  proof (cases "remapped_tbl ?tm frame")
    case (Some rm)
    then show ?thesis
      using e inv by (auto simp: ensure_shadow_def tm_find_remapped_def shadow_of_def kept_def shadow_frames_def)
  next
    case None
    obtain r1 vm1 where c: "create_shadow_page api frame vm = (r1, vm1)" by fastforce
    have r1: "r1 = r"
      using e None r
      by (auto simp: ensure_shadow_def tm_find_remapped_def c result_simps split: if_splits)
    obtain tm2 where t2: "tm_add_remapped (vm_tm vm1) \<lparr>rm_o = frame, rm_r = r\<rparr> = Inr tm2"
      and vm': "vm' = vm1\<lparr>vm_tm := tm2\<rparr>"
      using e None r r1
      by (auto simp: ensure_shadow_def tm_find_remapped_def c result_simps split: if_splits)
    have "frame \<noteq> - 1" using f(2) by auto
    note ok = create_shadow_page_ok [OF laws f(1,2) c [unfolded r1] r this]
    note parts = add_remapped_parts [OF t2]
    have sh: "shadow_of tm2 = (shadow_of ?tm)(frame \<mapsto> r)" and ex: "tm_trap_exist tm2 = tm_trap_exist ?tm"
      using parts ok(1) by simp_all
    note D = shadow_invD [OF inv]
    have snone: "shadow_of ?tm frame = None" using None by (simp add: shadow_of_def)
    have fr: "frame \<noteq> r" using f(1) ok(2) by blast
    have no_trap: "\<not> tm_trap_exist ?tm (addr frame off)" if "off < 4096" for off
      using D(5) [of "addr frame off"] addr_split(1) [OF f(2) that] snone by auto
    have old: "mem (vm_world vm1) (addr g off) = mem ?w (addr g off)"
      if "g \<in> used ?w" "g < 2 ^ 52" "off < 4096" for g off
      using ok(4) [of "addr g off"] addr_split(1) [OF that(2,3)] that(1) ok(2) by auto
    have "shadow_inv mem slat used ?idx tm2 (vm_world vm1)"
    proof (rule shadow_invI)
      show "slat (vm_world vm1) ?idx o1 = shadow_of tm2 o1" for o1
        using D(1) ok(3) by (simp add: sh)
      show "r' \<noteq> 0 \<and> r' < 2 ^ 52 \<and> o1 < 2 ^ 52 \<and> r' \<in> used (vm_world vm1) \<and>
          o1 \<in> used (vm_world vm1) \<and> shadow_of tm2 r' = None"
        if "shadow_of tm2 o1 = Some r'" for o1 r'
      proof (cases "o1 = frame")
        case True
        then have "r' = r" using that by (simp add: sh)
        moreover have "shadow_of ?tm r = None" using D(2) [of r] ok(2) by (cases "shadow_of ?tm r") auto
        ultimately show ?thesis using True f ok(2) r fr by (simp add: sh)
      next
        case False
        then have s: "shadow_of ?tm o1 = Some r'" using that by (simp add: sh)
        then have "r' \<noteq> frame" using f(3) by (auto simp: shadow_frames_def)
        then show ?thesis using D(2) [OF s] ok(2) by (simp add: sh)
      qed
      show "mem (vm_world vm1) (addr r' off) =
          (if tm_trap_exist tm2 (addr o1 off) then INT3_CHAR else mem (vm_world vm1) (addr o1 off))"
        if "shadow_of tm2 o1 = Some r'" "off < 4096" for o1 r' off
      proof (cases "o1 = frame")
        case True
        then show ?thesis using that ok(5) [of off] old [OF f(1,2)] no_trap by (simp add: sh ex)
      next
        case False
        then have s: "shadow_of ?tm o1 = Some r'" using that by (simp add: sh)
        then show ?thesis using D(2) [OF s] D(3) [OF s] old that(2) by (simp add: ex)
      qed
      show "o1 = o2" if "shadow_of tm2 o1 = Some r'" "shadow_of tm2 o2 = Some r'" for o1 o2 r'
        using that D(2) [of o1 r'] D(2) [of o2 r'] D(4) [of o1 r' o2] ok(2)
        by (auto simp: sh split: if_splits)
      show "shadow_of tm2 (frame_of pa) \<noteq> None" if "tm_trap_exist tm2 pa" for pa
        using that D(5) [of pa] by (simp add: sh ex)
    qed
    moreover have "mem (vm_world vm1) x = mem ?w x" if "frame_of x \<in> used ?w" for x
      using ok(2) ok(4) [of x] that by metis
    then have "kept mem used ?tm ?w (vm_world vm1)"
      using ok(2) by (simp add: kept_def subset_insertI)
    ultimately show ?thesis using ok(1,2) by (simp add: vm' sh ex)
  qed
  then show "shadow_inv mem slat used ?idx (vm_tm vm') (vm_world vm')"
    "shadow_of (vm_tm vm') frame = Some r \<and> tm_trap_exist (vm_tm vm') = tm_trap_exist ?tm \<and>
      vm_heap vm' = vm_heap vm \<and> vm_altp2m_idx vm' = ?idx \<and>
      (r \<in> shadow_frames ?tm \<or> r \<notin> used ?w)"
    "kept mem used ?tm ?w (vm_world vm')"
    by blast+
qed

lemma ensure_memtrap_inv:
  assumes laws: "ram_laws api mem slat used"
  shows "same_ram mem slat used (vm_world vm) (vm_world (ensure_memtrap api frame vm))"
    and "shadow_of (vm_tm (ensure_memtrap api frame vm)) = shadow_of (vm_tm vm)"
    and "tm_trap_exist (vm_tm (ensure_memtrap api frame vm)) = tm_trap_exist (vm_tm vm)"
    and "vm_heap (ensure_memtrap api frame vm) = vm_heap vm"
    and "vm_altp2m_idx (ensure_memtrap api frame vm) = vm_altp2m_idx vm"
  using ram_mem_event [OF laws]
  by (auto simp: ensure_memtrap_def Let_def split: prod.splits option.splits)

lemma poke_shadow_inv:
  assumes inv: "shadow_inv mem slat used idx tm w" and s: "shadow_of tm (frame_of pa) = Some r"
    and m: "mem w' = (mem w)(addr r (offset_of pa) := b)" "slat w' = slat w" "used w' = used w"
    and tm': "shadow_of tm' = shadow_of tm" "\<And>x. x \<noteq> pa \<Longrightarrow> tm_trap_exist tm' x = tm_trap_exist tm x"
    and b: "b = (if tm_trap_exist tm' pa then INT3_CHAR else mem w pa)"
  shows "shadow_inv mem slat used idx tm' w'"
proof -
  note D = shadow_invD [OF inv]
  have r: "r < 2 ^ 52" "shadow_of tm r = None" using D(2) [OF s] by auto
  have at: "addr g off = addr r (offset_of pa) \<longleftrightarrow> g = r \<and> off = offset_of pa"
    if "g < 2 ^ 52" "off < 4096" for g off
    using addr_split [OF that] addr_split [OF r(1) offset_less] by metis
  have org: "addr o1 off = pa \<longleftrightarrow> o1 = frame_of pa \<and> off = offset_of pa"
    if "o1 < 2 ^ 52" "off < 4096" for o1 off
    using addr_split [OF that] addr_frame_offset [of pa] by metis
  show ?thesis
  proof (rule shadow_invI)
    show "slat w' idx o1 = shadow_of tm' o1" for o1 using D(1) m(2) tm'(1) by simp
    show "r1 \<noteq> 0 \<and> r1 < 2 ^ 52 \<and> o1 < 2 ^ 52 \<and> r1 \<in> used w' \<and> o1 \<in> used w' \<and> shadow_of tm' r1 = None"
      if "shadow_of tm' o1 = Some r1" for o1 r1
      using D(2) that m(3) tm'(1) by simp
    show "mem w' (addr r1 off) = (if tm_trap_exist tm' (addr o1 off) then INT3_CHAR else mem w' (addr o1 off))"
      if so: "shadow_of tm' o1 = Some r1" and off: "off < 4096" for o1 r1 off
    proof -
      have so1: "shadow_of tm o1 = Some r1" using so tm'(1) by simp
      note d = D(2) [OF so1]
      have "o1 \<noteq> r" using so1 r(2) by auto
      then have omem: "mem w' (addr o1 off) = mem w (addr o1 off)"
        using at [of o1 off] d off m(1) by auto
      show ?thesis
      proof (cases "r1 = r \<and> off = offset_of pa")
        case True
        then have "o1 = frame_of pa" using D(4) [OF so1] s by auto
        then have "addr o1 off = pa" using True by simp
        then show ?thesis using True omem b m(1) \<open>o1 \<noteq> r\<close> at [of o1 off] d off by auto
      next
        case False
        then have "mem w' (addr r1 off) = mem w (addr r1 off)"
          using at [of r1 off] d off m(1) by auto
        moreover have "tm_trap_exist tm' (addr o1 off) = tm_trap_exist tm (addr o1 off)"
        proof (rule tm'(2))
          show "addr o1 off \<noteq> pa"
          proof
            assume "addr o1 off = pa"
            then have "o1 = frame_of pa" "off = offset_of pa" using org d off by auto
            then show False using False s so1 by auto
          qed
        qed
        ultimately show ?thesis using D(3) [OF so1 off] omem by simp
      qed
    qed
    show "o1 = o2" if "shadow_of tm' o1 = Some r1" "shadow_of tm' o2 = Some r1" for o1 o2 r1
      using that D(4) tm'(1) by simp
    show "shadow_of tm' (frame_of x) \<noteq> None" if "tm_trap_exist tm' x" for x
      using that D(5) [of x] tm'(2) [of x] s tm'(1) by (cases "x = pa") auto
  qed
qed


section \<open>Injection and removal\<close>

lemma rpa_addr: "push_bit PAGE_OFFSET_BITS r + pa mod PAGESIZE = addr r (offset_of pa)"
  by (simp only: addr_def offset_of_def)

lemma set_int3_outcome:
  assumes laws: "ram_laws api mem slat used"
    and inv: "shadow_inv mem slat used (vm_altp2m_idx vm) (vm_tm vm) (vm_world vm)"
    and s: "shadow_of (vm_tm vm) (frame_of pa) = Some r"
    and i: "set_int3 api r pa vm = (d, vm')"
  shows "vm_tm vm' = vm_tm vm \<and> vm_heap vm' = vm_heap vm \<and> vm_altp2m_idx vm' = vm_altp2m_idx vm"
    and "d = None \<Longrightarrow> same_ram mem slat used (vm_world vm) (vm_world vm')"
    and "d \<noteq> None \<Longrightarrow> mem (vm_world vm') = (mem (vm_world vm))(addr r (offset_of pa) := INT3_CHAR) \<and>
      slat (vm_world vm') = slat (vm_world vm) \<and> used (vm_world vm') = used (vm_world vm)"
proof -
  obtain t w1 where 1: "vmi_read_8_pa api pa (vm_world vm) = (t, w1)" by fastforce
  obtain ok w2 where 2: "vmi_write_8_pa api (addr r (offset_of pa)) INT3_CHAR w1 = (ok, w2)"
    by fastforce
  note i' = i [unfolded set_int3_def Let_def rpa_addr 1 prod.case]
  note rd = ram_read8 [OF laws 1] and wr = ram_write8 [OF laws 2]
  have keep: "(mem (vm_world vm))(addr r (offset_of pa) := INT3_CHAR) = mem (vm_world vm)"
    if "t = Some INT3_CHAR"
  proof -
    have "mem (vm_world vm) pa = INT3_CHAR" using rd(2) that by simp
    then have "mem (vm_world vm) (addr r (offset_of pa)) = INT3_CHAR"
      using shadow_invD(3) [OF inv s offset_less [of pa]] by simp
    then show ?thesis by (simp add: fun_upd_idem)
  qed
  show "vm_tm vm' = vm_tm vm \<and> vm_heap vm' = vm_heap vm \<and> vm_altp2m_idx vm' = vm_altp2m_idx vm"
    using i' by (auto split: option.splits if_splits prod.splits)
  show "d = None \<Longrightarrow> same_ram mem slat used (vm_world vm) (vm_world vm')"
    using i' rd(1) wr by (auto simp: 2 same_ram_def split: option.splits if_splits)
  show "d \<noteq> None \<Longrightarrow> mem (vm_world vm') = (mem (vm_world vm))(addr r (offset_of pa) := INT3_CHAR) \<and>
      slat (vm_world vm') = slat (vm_world vm) \<and> used (vm_world vm') = used (vm_world vm)"
    using i' rd(1) wr keep by (auto simp: 2 same_ram_def split: option.splits if_splits)
qed

lemma register_trap_parts:
  assumes "register_trap p pa d vm = Inr (ok, vm')" and "pa = pa_of (vm_heap vm) p"
  shows "ok" and "shadow_of (vm_tm vm') = shadow_of (vm_tm vm)"
    and "tm_trap_exist (vm_tm vm') x \<longleftrightarrow> tm_trap_exist (vm_tm vm) x \<or> x = pa"
    and "vm_heap vm' = vm_heap vm \<and> vm_world vm' = vm_world vm \<and> vm_altp2m_idx vm' = vm_altp2m_idx vm"
    and "p \<in> set (tm_int3traps_at_pa (vm_tm vm') pa)"
proof -
  obtain tm1 where t1: "tm_add_int3trap (vm_heap vm) (vm_tm vm) p = Inr tm1"
    using assms(1) by (auto simp: register_trap_def result_simps)
  obtain tm2 where t2: "(case d of None \<Rightarrow> Inr tm1 | Some b \<Rightarrow> tm_set_doubletrap tm1 pa b) = Inr tm2"
    and r: "ok" "vm' = vm\<lparr>vm_tm := tm2\<rparr>"
    using assms(1) t1 by (auto simp: register_trap_def result_simps)
  show "ok" by fact
  show "vm_heap vm' = vm_heap vm \<and> vm_world vm' = vm_world vm \<and> vm_altp2m_idx vm' = vm_altp2m_idx vm"
    by (simp add: r)
  have "shadow_of tm2 = shadow_of tm1 \<and> tm_trap_exist tm2 = tm_trap_exist tm1"
    using t2 set_doubletrap_parts by (auto split: option.splits)
  then show "shadow_of (vm_tm vm') = shadow_of (vm_tm vm)"
    "tm_trap_exist (vm_tm vm') x \<longleftrightarrow> tm_trap_exist (vm_tm vm) x \<or> x = pa"
    using add_int3trap_parts [OF t1] assms(2) by (auto simp: r)
  have "p \<in> set (tm_int3traps_at_pa tm1 pa)"
    using t1 assms(2) by (auto simp: tm_add_int3trap_def result_simps read_pa_Inr Let_def
        tm_int3traps_at_pa_def)
  then show "p \<in> set (tm_int3traps_at_pa (vm_tm vm') pa)"
    using t2 by (auto simp: r tm_set_doubletrap_def tm_int3traps_at_pa_def split: option.splits)
qed

lemma kept_trans_same:
  "kept mem used tm w w1 \<Longrightarrow> same_ram mem slat used w1 w2 \<Longrightarrow> kept mem used tm w w2"
  by (simp add: kept_def same_ram_def)

lemma kept_refl: "same_ram mem slat used w w' \<Longrightarrow> kept mem used tm w w'"
  by (simp add: kept_def same_ram_def)

text \<open>The hypotheses of an injection: who may be trapped.\<close>

definition injectable :: "'w frames \<Rightarrow> ('cb, 'x, 'w) vm_t \<Rightarrow> u64 \<Rightarrow> bool" where
  "injectable used vm pa \<longleftrightarrow>
     frame_of pa \<in> used (vm_world vm) \<and> frame_of pa \<notin> shadow_frames (vm_tm vm)"

definition shadow_made :: "'w vmi_api \<Rightarrow> ('cb, 'x, 'w) vm_t \<Rightarrow> u64 \<Rightarrow> bool" where
  "shadow_made api vm pa \<longleftrightarrow> tm_trap_exist (vm_tm vm) pa \<or>
     tm_find_remapped (vm_tm vm) (frame_of pa) \<noteq> None \<or>
     fst (create_shadow_page api (frame_of pa) vm) \<noteq> 0"

lemma ensure_shadow_nonzero:
  assumes "shadow_inv mem slat used (vm_altp2m_idx vm) (vm_tm vm) (vm_world vm)"
    and "shadow_made api vm pa" and "\<not> tm_trap_exist (vm_tm vm) pa"
    and "ensure_shadow api (frame_of pa) vm = Inr (r, vm')"
  shows "r \<noteq> 0"
proof (cases "remapped_tbl (vm_tm vm) (frame_of pa)")
  case None
  then show ?thesis using assms(2-4)
    by (auto simp: shadow_made_def tm_find_remapped_def ensure_shadow_def result_simps
        split: prod.splits if_splits)
next
  case (Some rm)
  then have "shadow_of (vm_tm vm) (frame_of pa) = Some (rm_r rm)" by (simp add: shadow_of_def)
  then show ?thesis
    using shadow_invD(2) [OF assms(1)] assms(4) Some
    by (auto simp: ensure_shadow_def tm_find_remapped_def)
qed

lemma inject_trap_inv:
  assumes laws: "ram_laws api mem slat used"
    and inv: "shadow_inv mem slat used (vm_altp2m_idx vm) (vm_tm vm) (vm_world vm)"
    and pa: "pa = pa_of (vm_heap vm) p"
    and ij: "injectable used vm pa" and made: "shadow_made api vm pa"
    and i: "inject_trap api p vm = Inr (ok, vm')"
  shows "shadow_inv mem slat used (vm_altp2m_idx vm') (vm_tm vm') (vm_world vm') \<and>
    vm_altp2m_idx vm' = vm_altp2m_idx vm \<and> vm_heap vm' = vm_heap vm \<and>
    (ok \<longrightarrow> p \<in> set (tm_int3traps_at_pa (vm_tm vm') pa)) \<and>
    (\<forall>x. tm_trap_exist (vm_tm vm') x \<longleftrightarrow> tm_trap_exist (vm_tm vm) x \<or> ok \<and> x = pa) \<and>
    kept mem used (vm_tm vm) (vm_world vm) (vm_world vm')"
proof (cases "tm_trap_exist (vm_tm vm) pa")
  case True
  then have "register_trap p pa None vm = Inr (ok, vm')"
    using i pa by (auto simp: inject_trap_def result_simps read_pa_Inr)
  note r = register_trap_parts [OF this pa]
  have "shadow_inv mem slat used (vm_altp2m_idx vm) (vm_tm vm') (vm_world vm)"
    using True r(3) by (intro shadow_inv_cong [OF inv r(2)]) (auto simp: fun_eq_iff same_ram_def)
  then show ?thesis using r True by (auto simp: kept_def)
next
  case False
  obtain r vm1 where e: "ensure_shadow api (frame_of pa) vm = Inr (r, vm1)"
    using i pa False by (auto simp: inject_trap_def result_simps read_pa_Inr Let_def)
  define vm2 where "vm2 = ensure_memtrap api (frame_of pa) vm1"
  obtain d vm3 where s3: "set_int3 api r pa vm2 = (d, vm3)" by fastforce
  note r0 = ensure_shadow_nonzero [OF inv made False e]
  have f: "frame_of pa \<in> used (vm_world vm)" "frame_of pa \<notin> shadow_frames (vm_tm vm)"
    using ij by (simp_all add: injectable_def)
  note es = ensure_shadow_inv [OF laws inv f(1) frame_less f(2) e r0]
  note mt = ensure_memtrap_inv [OF laws, where vm = vm1 and frame = "frame_of pa", folded vm2_def]
  have inv2: "shadow_inv mem slat used (vm_altp2m_idx vm2) (vm_tm vm2) (vm_world vm2)"
    using shadow_inv_cong [OF es(1) mt(2,3,1)] mt(5) es(2) by simp
  have sh2: "shadow_of (vm_tm vm2) (frame_of pa) = Some r" using mt(2) es(2) by simp
  note o3 = set_int3_outcome [OF laws inv2 sh2 s3]
  have k2: "kept mem used (vm_tm vm) (vm_world vm) (vm_world vm2)"
    by (rule kept_trans_same [OF es(3) mt(1)])
  show ?thesis
  proof (cases d)
    case None
    then have res: "ok = False" "vm' = vm3"
      using i pa False e s3 by (auto simp: inject_trap_def result_simps read_pa_Inr Let_def vm2_def)
    have "shadow_inv mem slat used (vm_altp2m_idx vm3) (vm_tm vm3) (vm_world vm3)"
      using shadow_inv_cong [OF inv2, of "vm_tm vm3"] o3 None by simp
    then show ?thesis
      using res o3 None es(2) mt kept_trans_same [OF k2] by simp
  next
    case (Some b)
    then have reg: "register_trap p pa (Some b) vm3 = Inr (ok, vm')"
      using i pa False e s3 by (auto simp: inject_trap_def result_simps read_pa_Inr Let_def vm2_def)
    have pa3: "pa = pa_of (vm_heap vm3) p" using pa o3(1) mt(4) es(2) by simp
    note rp = register_trap_parts [OF reg pa3]
    have m: "mem (vm_world vm3) = (mem (vm_world vm2))(addr r (offset_of pa) := INT3_CHAR)"
      "slat (vm_world vm3) = slat (vm_world vm2)" "used (vm_world vm3) = used (vm_world vm2)"
      using o3(3) Some by auto
    have "shadow_inv mem slat used (vm_altp2m_idx vm2) (vm_tm vm') (vm_world vm3)"
      using rp(2,3) o3(1) by (intro poke_shadow_inv [OF inv2 sh2 m]) auto
    moreover have "kept mem used (vm_tm vm) (vm_world vm) (vm_world vm3)"
    proof -
      have "r < 2 ^ 52" using shadow_invD(2) [OF inv2 sh2] by simp
      then have "frame_of (addr r (offset_of pa)) = r" by (rule addr_split(1) [OF _ offset_less])
      then have "x \<noteq> addr r (offset_of pa)"
        if "frame_of x \<in> used (vm_world vm)" "frame_of x \<notin> shadow_frames (vm_tm vm)" for x
        using that es(2) by metis
      then show ?thesis using k2 m by (simp add: kept_def)
    qed
    ultimately show ?thesis using rp o3(1) mt es(2) by auto
  qed
qed

end
