(* ===== verification/Hfm_Shadow_Props.thy ===== *)
theory Hfm_Shadow_Props
  imports Hfm_Shadow
begin

text \<open>
  The properties of breakpoint injection and removal, and a concrete guest memory on which they
  apply.
\<close>

section \<open>Safety of an injection\<close>

lemma tm_add_int3trap_ok:
  "h p \<noteq> None \<Longrightarrow> \<exists>tm'. tm_add_int3trap h tm p = Inr tm' \<and> tm_trap_exist tm' (pa_of h p)"
  by (auto simp: tm_add_int3trap_def read_pa_def Let_def tm_trap_exist_def pa_of_def)

lemma register_trap_ok:
  assumes "vm_heap vm p \<noteq> None" and "pa = pa_of (vm_heap vm) p"
  shows "\<exists>vm'. register_trap p pa d vm = Inr (True, vm')"
proof -
  obtain tm1 where "tm_add_int3trap (vm_heap vm) (vm_tm vm) p = Inr tm1" "tm_trap_exist tm1 pa"
    using tm_add_int3trap_ok [of "vm_heap vm" p "vm_tm vm"] assms by auto
  then show ?thesis
    by (auto simp: register_trap_def tm_set_doubletrap_def tm_trap_exist_def split: option.splits)
qed

lemma create_shadow_page_frame:
  "vm_tm (snd (create_shadow_page api f vm)) = vm_tm vm \<and>
   vm_heap (snd (create_shadow_page api f vm)) = vm_heap vm \<and>
   vm_altp2m_idx (snd (create_shadow_page api f vm)) = vm_altp2m_idx vm"
  by (simp add: create_shadow_page_def Let_def split: prod.splits)

lemma ensure_shadow_ok:
  "\<exists>r vm'. ensure_shadow api f vm = Inr (r, vm') \<and> vm_heap vm' = vm_heap vm"
  using create_shadow_page_frame [of api f vm]
  by (auto simp: ensure_shadow_def tm_find_remapped_def tm_add_remapped_def
      split: option.splits prod.splits)

lemma ensure_memtrap_heap [simp]: "vm_heap (ensure_memtrap api f vm) = vm_heap vm"
  by (simp add: ensure_memtrap_def Let_def split: prod.splits)

lemma set_int3_frame:
  "vm_heap (snd (set_int3 api r pa vm)) = vm_heap vm \<and> vm_tm (snd (set_int3 api r pa vm)) = vm_tm vm"
  by (auto simp: set_int3_def Let_def split: prod.splits option.splits)

lemma inject_trap_returns:
  fixes vm :: "('cb, 'x, 'w) vm_t"
  assumes "vm_heap vm p \<noteq> None"
  shows "\<exists>ok vm'. inject_trap api p vm = Inr (ok, vm') \<and>
    ((\<forall>r pa (vm2 :: ('cb, 'x, 'w) vm_t). fst (set_int3 api r pa vm2) \<noteq> None) \<longrightarrow> ok)"
proof -
  let ?pa = "pa_of (vm_heap vm) p"
  have rp: "read_pa (vm_heap vm) p = Inr ?pa" using assms by (simp add: read_pa_Inr)
  obtain r vm1 where e: "ensure_shadow api (frame_of ?pa) vm = Inr (r, vm1)" "vm_heap vm1 = vm_heap vm"
    using ensure_shadow_ok by blast
  obtain d vm3 where s: "set_int3 api r ?pa (ensure_memtrap api (frame_of ?pa) vm1) = (d, vm3)"
    by fastforce
  have h: "vm_heap vm3 = vm_heap vm"
    using set_int3_frame [of api r ?pa "ensure_memtrap api (frame_of ?pa) vm1"] s e(2) by simp
  have r3: "\<exists>vm'. register_trap p ?pa d' vm3 = Inr (True, vm')" for d'
    using register_trap_ok [of vm3 p] assms h by simp
  have r0: "\<exists>vm'. register_trap p ?pa None vm = Inr (True, vm')"
    using register_trap_ok [of vm p] assms by simp
  show ?thesis
  proof (cases "tm_trap_exist (vm_tm vm) ?pa")
    case True
    then show ?thesis using r0 by (auto simp: inject_trap_def rp)
  next
    case False
    obtain vm' where "register_trap p ?pa d vm3 = Inr (True, vm')" using r3 by blast
    then have "inject_trap api p vm = Inr (d \<noteq> None, if d = None then vm3 else vm')"
      using False by (cases d) (simp_all add: inject_trap_def rp e(1) s Let_def)
    moreover have "d \<noteq> None" if "\<forall>r pa (vm2 :: ('cb, 'x, 'w) vm_t). fst (set_int3 api r pa vm2) \<noteq> None"
    proof -
      have "fst (set_int3 api r ?pa (ensure_memtrap api (frame_of ?pa) vm1)) \<noteq> None"
        using that by blast
      then show ?thesis by (simp add: s)
    qed
    ultimately show ?thesis by blast
  qed
qed

text \<open>
  Injecting a trap that is allocated never runs into undefined behaviour, whatever
  the hypervisor answers.
\<close>

theorem inject_trap_safe:
  assumes "vm_heap vm p \<noteq> None"
  shows "\<exists>ok vm'. inject_trap api p vm = Inr (ok, vm')"
  using inject_trap_returns [OF assms] by blast

section \<open>The guest's view\<close>

text \<open>
  Property C5. If injecting a trap succeeds (and a shadow frame could be made for its page), the
  guest then reads a breakpoint byte exactly at the addresses that had a trap and at the new one,
  and the original memory everywhere else; the memory of the frames that were in use and are not
  shadow frames is not changed, the trap is registered and the invariant holds again.
\<close>

theorem inject_trap_guest_view:
  assumes "ram_laws api mem slat used"
    and "shadow_inv mem slat used (vm_altp2m_idx vm) (vm_tm vm) (vm_world vm)"
    and "injectable used vm (pa_of (vm_heap vm) p)" and "shadow_made api vm (pa_of (vm_heap vm) p)"
    and "inject_trap api p vm = Inr (True, vm')"
  shows "shadow_inv mem slat used (vm_altp2m_idx vm') (vm_tm vm') (vm_world vm') \<and>
    p \<in> set (tm_int3traps_at_pa (vm_tm vm') (pa_of (vm_heap vm) p)) \<and>
    (\<forall>a. guest_view mem slat (vm_altp2m_idx vm') (vm_world vm') a =
       (if tm_trap_exist (vm_tm vm) a \<or> a = pa_of (vm_heap vm) p then INT3_CHAR
        else mem (vm_world vm') a)) \<and>
    (\<forall>a. frame_of a \<in> used (vm_world vm) \<longrightarrow> frame_of a \<notin> shadow_frames (vm_tm vm) \<longrightarrow>
       mem (vm_world vm') a = mem (vm_world vm) a)"
proof -
  note r = inject_trap_inv [OF assms(1,2) refl assms(3,4,5)]
  then have "shadow_inv mem slat used (vm_altp2m_idx vm') (vm_tm vm') (vm_world vm')" by blast
  from guest_view_inv [OF this] r show ?thesis by (auto simp: kept_def)
qed

text \<open>
  An injection that fails after its shadow frame was made leaves the guest's view and
  the set of trapped addresses as they were.
\<close>

lemma inject_trap_failure:
  assumes "ram_laws api mem slat used"
    and "shadow_inv mem slat used (vm_altp2m_idx vm) (vm_tm vm) (vm_world vm)"
    and "injectable used vm (pa_of (vm_heap vm) p)" and "shadow_made api vm (pa_of (vm_heap vm) p)"
    and "inject_trap api p vm = Inr (False, vm')"
    and "frame_of a \<in> used (vm_world vm)" and "frame_of a \<notin> shadow_frames (vm_tm vm)"
  shows "shadow_inv mem slat used (vm_altp2m_idx vm') (vm_tm vm') (vm_world vm') \<and>
    tm_trap_exist (vm_tm vm') = tm_trap_exist (vm_tm vm) \<and>
    guest_view mem slat (vm_altp2m_idx vm') (vm_world vm') a =
      guest_view mem slat (vm_altp2m_idx vm) (vm_world vm) a"
proof -
  note r = inject_trap_inv [OF assms(1,2) refl assms(3,4,5)]
  then have "shadow_inv mem slat used (vm_altp2m_idx vm') (vm_tm vm') (vm_world vm')" by blast
  from guest_view_inv [OF this, of a] guest_view_inv [OF assms(2), of a] r assms(6,7)
  show ?thesis by (auto simp: kept_def fun_eq_iff)
qed

lemma remove_int3_inv:
  assumes laws: "ram_laws api mem slat used"
    and inv: "shadow_inv mem slat used (vm_altp2m_idx vm) tm (vm_world vm)"
    and tm': "shadow_of (vm_tm vm) = shadow_of tm"
      "\<And>x. x \<noteq> pa \<Longrightarrow> tm_trap_exist (vm_tm vm) x = tm_trap_exist tm x"
      "\<not> tm_trap_exist (vm_tm vm) pa"
    and r: "remove_int3 api pa vm = Inr vm'" and ni: "vm_interrupted vm' \<noteq> - 1"
  shows "shadow_inv mem slat used (vm_altp2m_idx vm') (vm_tm vm') (vm_world vm')"
    and "vm_tm vm' = vm_tm vm \<and> vm_heap vm' = vm_heap vm \<and> vm_altp2m_idx vm' = vm_altp2m_idx vm"
proof -
  obtain t w1 where 1: "vmi_read_8_pa api pa (vm_world vm) = (t, w1)" by fastforce
  obtain b rm where t: "t = Some b" and rm: "remapped_tbl (vm_tm vm) (frame_of pa) = Some rm"
    using r by (auto simp: remove_int3_def 1 tm_find_remapped_def split: option.splits)
  obtain ok w2 where 2: "vmi_write_8_pa api
      (push_bit PAGE_OFFSET_BITS (rm_r rm) + (pa AND mask 12)) b w1 = (ok, w2)" by fastforce
  have ok: "ok" and vm': "vm_world vm' = w2" "vm_tm vm' = vm_tm vm"
    "vm_heap vm' = vm_heap vm" "vm_altp2m_idx vm' = vm_altp2m_idx vm"
    using r ni by (auto simp: remove_int3_def 1 t rm 2 tm_find_remapped_def split: if_splits)
  then show "vm_tm vm' = vm_tm vm \<and> vm_heap vm' = vm_heap vm \<and> vm_altp2m_idx vm' = vm_altp2m_idx vm"
    by simp
  have a: "push_bit PAGE_OFFSET_BITS (rm_r rm) + (pa AND mask 12) = addr (rm_r rm) (offset_of pa)"
    by (simp add: addr_def offset_of_def PAGESIZE_4096 take_bit_eq_mask [symmetric] take_bit_eq_mod)
  have b: "b = mem (vm_world vm) pa" using ram_read8(2) [OF laws 1 t] .
  have same: "same_ram mem slat used (vm_world vm) w1" by (rule ram_read8(1) [OF laws 1])
  have s: "shadow_of tm (frame_of pa) = Some (rm_r rm)" using rm tm'(1) by (metis option.simps(9) shadow_of_def)
  have "shadow_inv mem slat used (vm_altp2m_idx vm) (vm_tm vm) w2"
  proof (rule poke_shadow_inv [OF inv s])
    show "mem w2 = (mem (vm_world vm))(addr (rm_r rm) (offset_of pa) := b)"
      "slat w2 = slat (vm_world vm)" "used w2 = used (vm_world vm)"
      using ram_write8 [OF laws 2] ok same by (simp_all add: same_ram_def a)
  qed (use tm' b in auto)
  then show "shadow_inv mem slat used (vm_altp2m_idx vm') (vm_tm vm') (vm_world vm')"
    by (simp add: vm')
qed



section \<open>Injection without a shadow frame\<close>

text \<open>
  When no shadow frame can be made for the page, the injection goes on with frame 0:
  it writes the breakpoint byte into the guest's own frame 0, registers the trap and reports
  success, although the guest's view of the page has no breakpoint.
\<close>

theorem inject_without_shadow:
  assumes laws: "ram_laws api mem slat used" and h: "vm_heap vm p \<noteq> None"
    and pa: "pa = pa_of (vm_heap vm) p"
    and nt: "\<not> tm_trap_exist (vm_tm vm) pa" and nr: "tm_find_remapped (vm_tm vm) (frame_of pa) = None"
    and c: "create_shadow_page api (frame_of pa) vm = (0, vm1)"
    and s: "set_int3 api 0 pa (ensure_memtrap api (frame_of pa) vm1) = (Some 0, vm2)"
  shows "\<exists>vm'. inject_trap api p vm = Inr (True, vm') \<and>
    mem (vm_world vm') (offset_of pa) = INT3_CHAR \<and>
    shadow_of (vm_tm vm') (frame_of pa) = None \<and> tm_trap_exist (vm_tm vm') pa"
proof -
  let ?m = "ensure_memtrap api (frame_of pa) vm1"
  have rp: "read_pa (vm_heap vm) p = Inr pa" using h pa by (simp add: read_pa_Inr)
  have fr: "vm_tm vm1 = vm_tm vm" "vm_heap vm1 = vm_heap vm"
    using create_shadow_page_frame [of api "frame_of pa" vm] c by auto
  have fr2: "vm_heap vm2 = vm_heap vm" "vm_tm vm2 = vm_tm ?m"
    using set_int3_frame [of api 0 pa ?m] s fr by auto
  obtain vm' where reg: "register_trap p pa (Some 0) vm2 = Inr (True, vm')"
    using register_trap_ok [of vm2 p pa] h pa fr2 by auto
  have pa2: "pa = pa_of (vm_heap vm2) p" using pa fr2 by simp
  note parts = register_trap_parts [OF reg pa2]
  have "inject_trap api p vm = Inr (True, vm')"
    using nt nr c s reg by (simp add: inject_trap_def rp ensure_shadow_def)
  moreover have "mem (vm_world vm2) (offset_of pa) = INT3_CHAR"
  proof -
    obtain t w1 where 1: "vmi_read_8_pa api pa (vm_world ?m) = (t, w1)" by fastforce
    obtain ok w2 where 2: "vmi_write_8_pa api (addr 0 (offset_of pa)) INT3_CHAR w1 = (ok, w2)"
      by fastforce
    have "ok \<and> vm_world vm2 = w2"
      using s [unfolded set_int3_def Let_def rpa_addr 1 prod.case] 2
      by (auto split: option.splits if_splits)
    then show ?thesis using ram_write8(3) [OF laws 2] by (simp add: addr_def)
  qed
  moreover have "shadow_of (vm_tm vm') (frame_of pa) = None"
    using parts(2) fr2 ensure_memtrap_inv(2) [OF laws, where vm = vm1 and frame = "frame_of pa"] fr nr
    by (simp add: shadow_of_def tm_find_remapped_def)
  ultimately show ?thesis using parts(3,4) by auto
qed

section \<open>A concrete memory\<close>

text \<open>
  A guest memory as a function, with the frames below \<open>ram_next\<close> in use; \<open>ram_fail\<close> makes the
  allocation of frames fail. At most a page is written at once.
\<close>

record ram =
  ram_mem :: "u64 \<Rightarrow> u8"
  ram_slat :: "u16 \<Rightarrow> u64 \<Rightarrow> u64 option"
  ram_next :: u64
  ram_fail :: bool

definition ram_used :: "ram \<Rightarrow> u64 set" where
  "ram_used w = {f. f < ram_next w}"

definition ram_api :: "ram vmi_api" where
  "ram_api = \<lparr>
     vmi_read_8_pa = (\<lambda>pa w. (Some (ram_mem w pa), w)),
     vmi_write_8_pa = (\<lambda>pa b w. (True, w\<lparr>ram_mem := (ram_mem w)(pa := b)\<rparr>)),
     vmi_read_pa = (\<lambda>a n w. (map (\<lambda>i. ram_mem w (a + of_nat i)) [0 ..< n], w)),
     vmi_write_pa = (\<lambda>a bs w. (min (length bs) 4096,
        w\<lparr>ram_mem := (\<lambda>x. if unat (x - a) < min (length bs) 4096 then bs ! unat (x - a)
                          else ram_mem w x)\<rparr>)),
     vmi_slat_change_gfn = (\<lambda>idx gfn new w. (True, w\<lparr>ram_slat := (ram_slat w)(idx :=
        (ram_slat w idx)(gfn := (if new = - 1 then None else Some new)))\<rparr>)),
     vmi_set_mem_event = (\<lambda>gfn acc idx w. (True, w)),
     xc_domain_setmaxmem = (\<lambda>m w. (if ram_fail w then - 1 else 0, w)),
     xc_domain_increase_reservation_exact = (\<lambda>g w. (0, g, w)),
     xc_domain_populate_physmap_exact = (\<lambda>g w. if ram_next w < 2 ^ 52
        then (0, ram_next w, w\<lparr>ram_next := ram_next w + 1\<rparr>) else (- 1, g, w)),
     xc_domain_decrease_reservation_exact = (\<lambda>f w. w),
     vmi_pause_vm = (\<lambda>w. w), vmi_resume_vm = (\<lambda>w. w),
     vmi_translate_ksym2v = (\<lambda>s w. 0xFFFFF80000001234), vmi_translate_kv2p = (\<lambda>v w. 0x1234),
     vmi_read_addr = (\<lambda>dtb a w. Some 0x4321), vmi_pagetable_lookup = (\<lambda>dtb a w. 0x4321)\<rparr>"

lemma less_Suc_word: "(n :: u64) < 2 ^ 52 \<Longrightarrow> {f. f < n + 1} = insert n {f. f < n}"
  by (auto simp: word_less_nat_alt unat_word_ariths less_Suc_eq word_unat_eq_iff)

lemma ram_api_laws: "ram_laws ram_api ram_mem ram_slat ram_used"
proof -
  have off: "unat (of_nat i :: u64) = i" if "i < 4096" for i
    using that by (simp add: unat_of_nat)
  have w: "x = a + of_nat (unat (x - a))" for x a :: u64 by simp
  have keep: "\<not> unat (x - a) < n" if "\<forall>i < n. x \<noteq> a + of_nat i" for x a :: u64 and n
    using that w [of x a] by auto
  show ?thesis
    unfolding ram_laws_def
    by (intro conjI allI impI)
      (auto simp: ram_api_def same_ram_def ram_used_def off less_Suc_word split: if_splits
        dest: keep)
qed


definition ram0 :: "bool \<Rightarrow> ram" where
  "ram0 fail = \<lparr>ram_mem = (\<lambda>a. if a = 0x1FF0 then 0xCC else 0x90), ram_slat = (\<lambda>_ _. None),
     ram_next = 16, ram_fail = fail\<rparr>"

definition vm0 :: "bool \<Rightarrow> (unit, unit, ram) vm_t" where
  "vm0 fail = \<lparr>vm_tm = tm_init, vm_heap = three_traps, vm_fresh = 4, vm_memsize = 0x10000,
     vm_altp2m_idx = 1, vm_interrupted = 0, vm_regs = replicate 16 None,
     vm_step = replicate 16 (Some Singlestep_cb), vm_world = ram0 fail\<rparr>"

lemma vm0_inv: "shadow_inv ram_mem ram_slat ram_used (vm_altp2m_idx (vm0 f)) (vm_tm (vm0 f)) (vm_world (vm0 f))"
  by (rule shadow_invI) (simp_all add: vm0_def ram0_def tm_init_def shadow_of_def tm_trap_exist_def)

lemma vm0_pa: "pa_of (vm_heap (vm0 f)) 2 = 0x1234" "pa_of (vm_heap (vm0 f)) 3 = 0x1FF0"
  by (simp_all add: vm0_def three_traps_def pa_of_def trap_at_def)

lemma vm0_frame: "frame_of 0x1234 = 1" "frame_of 0x1FF0 = 1"
  by (simp_all add: frame_of_def PAGE_OFFSET_BITS_def)

lemma vm0_injectable: "injectable ram_used (vm0 f) 0x1234"
  by (simp add: injectable_def vm0_frame ram_used_def shadow_frames_def vm0_def ram0_def tm_init_def
      shadow_of_def)

lemma vm0_shadow: "fst (create_shadow_page ram_api 1 (vm0 False)) = 16"
  by (simp add: create_shadow_page_def Let_def xen_alloc_shadow_frame_def ram_api_def vm0_def
      ram0_def PAGESIZE_4096)

lemma vm0_made: "shadow_made ram_api (vm0 False) 0x1234"
  by (simp add: shadow_made_def vm0_frame vm0_shadow)

lemma set_int3_ram:
  "fst (set_int3 ram_api r pa vm) = Some (if ram_mem (vm_world vm) pa = INT3_CHAR then 1 else 0)"
  by (simp add: set_int3_def Let_def ram_api_def)


lemma set_int3_ram_some: "fst (set_int3 ram_api r pa vm) \<noteq> None"
  by (simp add: set_int3_ram)

lemma vm0_injected:
  obtains vm' where "inject_trap ram_api 2 (vm0 f) = Inr (True, vm')"
proof -
  have "vm_heap (vm0 f) 2 \<noteq> None" by (simp add: vm0_def three_traps_def)
  from inject_trap_returns [OF this, of ram_api] show ?thesis using that set_int3_ram_some by auto
qed

theorem inject_trap_safe_witness: "\<exists>ok vm'. inject_trap ram_api 2 (vm0 True) = Inr (ok, vm')"
  by (rule inject_trap_safe) (simp add: vm0_def three_traps_def)

theorem inject_trap_guest_view_witness:
  "\<exists>vm'. inject_trap ram_api 2 (vm0 False) = Inr (True, vm') \<and>
     guest_view ram_mem ram_slat (vm_altp2m_idx vm') (vm_world vm') 0x1234 = 0xCC"
proof -
  obtain vm' where i: "inject_trap ram_api 2 (vm0 False) = Inr (True, vm')" by (rule vm0_injected)
  have "injectable ram_used (vm0 False) (pa_of (vm_heap (vm0 False)) 2)"
    "shadow_made ram_api (vm0 False) (pa_of (vm_heap (vm0 False)) 2)"
    by (simp_all only: vm0_pa vm0_injectable vm0_made)
  from inject_trap_guest_view [OF ram_api_laws vm0_inv this i] i show ?thesis
    by (auto simp: vm0_pa INT3_CHAR_def)
qed

lemma create_shadow_page_interrupted:
  "vm_interrupted (snd (create_shadow_page api f vm)) = vm_interrupted vm"
  by (simp add: create_shadow_page_def Let_def split: prod.splits)

lemma ensure_shadow_interrupted:
  "ensure_shadow api f vm = Inr (r, vm') \<Longrightarrow> vm_interrupted vm' = vm_interrupted vm"
  using create_shadow_page_interrupted [of api f vm]
  by (auto simp: ensure_shadow_def result_simps split: option.splits prod.splits if_splits)

lemma ensure_memtrap_interrupted [simp]:
  "vm_interrupted (ensure_memtrap api f vm) = vm_interrupted vm"
  by (simp add: ensure_memtrap_def Let_def split: prod.splits)

lemma set_int3_interrupted:
  "vm_interrupted (snd (set_int3 api r pa vm)) = vm_interrupted vm"
  by (auto simp: set_int3_def Let_def split: prod.splits option.splits)

lemma inject_trap_interrupted:
  fixes vm vm' :: "('a, 'b, 'c) vm_t"
  assumes "inject_trap api p vm = Inr (ok, vm')"
  shows "vm_interrupted vm' = vm_interrupted vm"
proof -
  have reg: "register_trap p pa d vm1 = Inr (ok, vm') \<Longrightarrow> vm_interrupted vm' = vm_interrupted vm1"
    for pa d and vm1 :: "('a, 'b, 'c) vm_t"
    by (auto simp: register_trap_def result_simps)
  obtain pa where pa: "read_pa (vm_heap vm) p = Inr pa"
    using assms by (auto simp: inject_trap_def result_simps)
  show ?thesis
  proof (cases "tm_trap_exist (vm_tm vm) pa")
    case True
    then show ?thesis using assms reg by (simp add: inject_trap_def pa)
  next
    case False
    obtain r vm1 where e: "ensure_shadow api (frame_of pa) vm = Inr (r, vm1)"
      using assms False by (auto simp: inject_trap_def pa Let_def result_simps)
    obtain d vm3 where s: "set_int3 api r pa (ensure_memtrap api (frame_of pa) vm1) = (d, vm3)"
      by fastforce
    have "vm_interrupted vm3 = vm_interrupted vm"
      using set_int3_interrupted [of api r pa "ensure_memtrap api (frame_of pa) vm1"]
        ensure_shadow_interrupted [OF e] by (simp add: s)
    then show ?thesis
      using assms False reg [of pa d vm3] by (cases d) (auto simp: inject_trap_def pa e s Let_def)
  qed
qed

lemma drop_ram:
  assumes "vm_heap vm p \<noteq> None" and "vm_interrupted vm \<noteq> - 1"
    and "remapped_tbl (vm_tm vm) (frame_of (pa_of (vm_heap vm) p)) \<noteq> None"
  shows "\<exists>vm2. drop_trap ram_api p vm = Inr vm2 \<and> vm_interrupted vm2 \<noteq> - 1"
proof -
  have rp: "read_pa (vm_heap vm) p = Inr (pa_of (vm_heap vm) p)" using assms(1) by (simp add: read_pa_Inr)
  obtain tm n where rem: "tm_remove_int3trap (vm_heap vm) (vm_tm vm) p = Inr (tm, n)"
    and tbl: "remapped_tbl tm = remapped_tbl (vm_tm vm)"
    by (cases "breakpoint_tbl (vm_tm vm) (pa_of (vm_heap vm) p)")
      (auto simp: tm_remove_int3trap_def rp Let_def)
  obtain rm where rm: "remapped_tbl (vm_tm vm) (frame_of (pa_of (vm_heap vm) p)) = Some rm"
    using assms(3) by blast
  have "\<exists>vm1. remove_int3 ram_api (pa_of (vm_heap vm) p) (vm\<lparr>vm_tm := tm\<rparr>) = Inr vm1 \<and>
      vm_interrupted vm1 = vm_interrupted vm \<and> vm_heap vm1 = vm_heap vm"
    using rm tbl by (simp add: remove_int3_def ram_api_def tm_find_remapped_def)
  then show ?thesis using assms(1,2) by (auto simp: drop_trap_def rem rp free_trap_def)
qed

text \<open>Injecting and dropping the trap again.\<close>

lemma vm0_dropped:
  obtains vm1 vm2 where "inject_trap ram_api 2 (vm0 False) = Inr (True, vm1)"
    and "shadow_inv ram_mem ram_slat ram_used (vm_altp2m_idx vm1) (vm_tm vm1) (vm_world vm1)"
    and "tm_trap_exist (vm_tm vm1) (pa_of (vm_heap vm1) 2)"
    and "drop_trap ram_api 2 vm1 = Inr vm2" and "vm_interrupted vm2 \<noteq> - 1"
proof -
  obtain vm1 where i: "inject_trap ram_api 2 (vm0 False) = Inr (True, vm1)" by (rule vm0_injected)
  have m: "injectable ram_used (vm0 False) (pa_of (vm_heap (vm0 False)) 2)"
    "shadow_made ram_api (vm0 False) (pa_of (vm_heap (vm0 False)) 2)"
    by (simp_all only: vm0_pa vm0_injectable vm0_made)
  note r = inject_trap_inv [OF ram_api_laws vm0_inv refl m i]
  have h: "vm_heap vm1 2 \<noteq> None" "pa_of (vm_heap vm1) 2 = 0x1234"
    using r vm0_pa(1) [of False] by (simp_all add: vm0_def three_traps_def)
  have ex: "tm_trap_exist (vm_tm vm1) (pa_of (vm_heap vm1) 2)" using r by (metis)
  then have "remapped_tbl (vm_tm vm1) (frame_of (pa_of (vm_heap vm1) 2)) \<noteq> None"
    using shadow_invD(5) [OF r [THEN conjunct1]] by (simp add: shadow_of_def)
  moreover have "vm_interrupted vm1 \<noteq> - 1"
    using inject_trap_interrupted [OF i] by (simp add: vm0_def)
  ultimately obtain vm2 where "drop_trap ram_api 2 vm1 = Inr vm2" "vm_interrupted vm2 \<noteq> - 1"
    using drop_ram [OF h(1)] by blast
  then show ?thesis using that i r ex by blast
qed


text \<open>When no memory can be added to the guest, the trap at 0x1234 ends up in frame 0.\<close>

theorem inject_without_shadow_witness:
  "\<exists>vm'. inject_trap ram_api 2 (vm0 True) = Inr (True, vm') \<and> ram_mem (vm_world vm') 0x234 = 0xCC"
proof -
  have c: "create_shadow_page ram_api (frame_of 0x1234) (vm0 True) = (0, vm0 True)"
    by (simp add: create_shadow_page_def Let_def xen_alloc_shadow_frame_def ram_api_def vm0_def
        ram0_def PAGESIZE_4096)
  let ?m = "ensure_memtrap ram_api (frame_of 0x1234) (vm0 True)"
  obtain vm2 where s: "set_int3 ram_api 0 0x1234 ?m = (Some 0, vm2)"
    by (simp add: set_int3_def Let_def ram_api_def ensure_memtrap_def vm0_def ram0_def INT3_CHAR_def)
  have off: "offset_of 0x1234 = 0x234" by (simp add: offset_of_def PAGESIZE_4096)
  have h: "vm_heap (vm0 True) 2 \<noteq> None" by (simp add: vm0_def three_traps_def)
  have n: "\<not> tm_trap_exist (vm_tm (vm0 True)) 0x1234"
    "tm_find_remapped (vm_tm (vm0 True)) (frame_of 0x1234) = None"
    by (simp_all add: vm0_def tm_init_def tm_trap_exist_def tm_find_remapped_def)
  show ?thesis
    using inject_without_shadow [OF ram_api_laws h vm0_pa(1) [symmetric] n c s]
    by (auto simp: off INT3_CHAR_def)
qed

end
