(* ===== verification/Hfm_Events.thy ===== *)
theory Hfm_Events
  imports Hfm_Shadow_Props CString
begin

text \<open>
  The event callbacks of \<open>src/hfm.c\<close>: \<open>_int3_cb\<close>, \<open>_pre_mem_cb\<close>, \<open>_post_mem_cb\<close> and
  \<open>_singlestep_cb\<close>. A monitor's callback is the parameter \<open>run_cb\<close>: it is given the callback, the
  trap and the event and may change the state; its result is the data for a return trap, or
  \<open>None\<close> for the null pointer.
\<close>

section \<open>Events and responses\<close>

record event_t =
  e_vcpu :: nat
  e_regs :: regs_t
  e_gfn :: u64
  e_offset :: u64
  e_insn_length :: u32
  e_write :: bool

text \<open>
  The response flags that are set, and the fields of the event the callback wrote: the view to
  switch to (with \<open>VMI_EVENT_RESPONSE_VMM_PAGETABLE_ID\<close>) and the reinjection flag.
\<close>

record event_rsp_t =
  rsp_toggle :: bool
  rsp_slat :: "u16 option"
  rsp_reinject :: "bool option"

definition no_response :: event_rsp_t where
  "no_response = \<lparr>rsp_toggle = False, rsp_slat = None, rsp_reinject = None\<rparr>"

definition save_regs :: "event_t \<Rightarrow> ('cb, 'x, 'w) vm_t \<Rightarrow> ('cb, 'x, 'w) vm_t result" where
  "save_regs ev vm =
     rbind (arr_set (vm_regs vm) (int (e_vcpu ev)) (Some (e_regs ev))) (\<lambda>regs.
       Inr (vm\<lparr>vm_regs := regs\<rparr>))"

text \<open>
  \<open>handler->step_event[event->vcpu_id]->callback = cb\<close>: the array has 16 entries, and only those
  of existing CPUs point to an event.
\<close>

definition arm_step :: "nat \<Rightarrow> step_cb \<Rightarrow> ('cb, 'x, 'w) vm_t \<Rightarrow> ('cb, 'x, 'w) vm_t result" where
  "arm_step vcpu cb vm =
     rbind (arr_get (vm_step vm) (int vcpu)) (\<lambda>ev. case ev of
       None \<Rightarrow> Inl NullDeref
     | Some _ \<Rightarrow> Inr (vm\<lparr>vm_step := (vm_step vm)[vcpu := Some cb]\<rparr>))"

definition int3_pa :: "event_t \<Rightarrow> u64" where
  "int3_pa ev = push_bit 12 (e_gfn ev) + e_offset ev + ucast (e_insn_length ev) - 1"

section \<open>The breakpoint callback\<close>

text \<open>
  The loop of \<open>_int3_cb\<close> reads \<open>loop->next\<close> after \<open>tm_remove_int3trap\<close> has freed the list node
  \<open>loop\<close>. What that read gives is a parameter: undefined behaviour, the pointer that was there,
  or null.
\<close>

datatype freed_read = Undefined | OldNext | NullNext

text \<open>The return trap a callback asks for; \<open>sprintf\<close> writes its name into 1024 bytes.\<close>

definition inject_return_trap ::
  "'w vmi_api \<Rightarrow> event_t \<Rightarrow> ('cb, 'x) trap_t \<Rightarrow> 'x \<Rightarrow> ('cb, 'x, 'w) vm_t \<Rightarrow> ('cb, 'x, 'w) vm_t result" where
  "inject_return_trap api ev trap extra vm =
     (case vmi_read_addr api (r_cr3 (e_regs ev)) (r_rsp (e_regs ev)) (vm_world vm) of
        None \<Rightarrow> Inl Uninitialised
      | Some ret \<Rightarrow>
          let name = trap_name trap @ ''_return'' in
          if length name \<ge> 1024 then Inl OutOfBounds
          else case alloc_trap \<lparr>trap_name = name, trap_cb = trap_ret_cb trap, trap_ret_cb = None,
                 trap_pa = vmi_pagetable_lookup api (r_cr3 (e_regs ev)) ret (vm_world vm),
                 self_destroy = True, trap_extra = Some extra\<rparr> vm of (p, vm) \<Rightarrow>
               rbind (inject_trap api p vm) (\<lambda>(_, vm). Inr vm))"

definition read_trap :: "('cb, 'x) trap_heap \<Rightarrow> tptr \<Rightarrow> ('cb, 'x) trap_t result" where
  "read_trap h p = (case h p of None \<Rightarrow> Inl UseAfterFree | Some t \<Rightarrow> Inr t)"

text \<open>
  One round of the loop, for the node at position \<open>i\<close> of the list at \<open>pa\<close>. \<open>None\<close> is the end of
  the list; the boolean says whether the node was freed.
\<close>

type_synonym ('cb, 'x, 'w) run_cb =
  "'cb \<Rightarrow> tptr \<Rightarrow> event_t \<Rightarrow> ('cb, 'x, 'w) vm_t \<Rightarrow> ('x option \<times> ('cb, 'x, 'w) vm_t) result option"

definition run_trap_cb ::
  "'w vmi_api \<Rightarrow> ('cb, 'x, 'w) run_cb \<Rightarrow> event_t \<Rightarrow> tptr \<Rightarrow> ('cb, 'x, 'w) vm_t \<Rightarrow>
   ('cb, 'x, 'w) vm_t result option" where
  "run_trap_cb api run_cb ev p vm =
     tbind (Some (read_trap (vm_heap vm) p)) (\<lambda>trap. case trap_cb trap of
       None \<Rightarrow> Some (Inr vm)
     | Some cb \<Rightarrow>
         tbind (run_cb cb p ev vm) (\<lambda>(extra, vm). case extra of
           None \<Rightarrow> Some (Inr vm)
         | Some x \<Rightarrow>
             Some (rbind (read_trap (vm_heap vm) p) (\<lambda>trap.
               if trap_ret_cb trap = None then Inr vm
               else inject_return_trap api ev trap x vm))))"

definition int3_node ::
  "'w vmi_api \<Rightarrow> ('cb, 'x, 'w) run_cb \<Rightarrow> event_t \<Rightarrow> u64 \<Rightarrow> nat \<Rightarrow> ('cb, 'x, 'w) vm_t \<Rightarrow>
   (bool \<times> ('cb, 'x, 'w) vm_t) option result option" where
  "int3_node api run_cb ev pa i vm =
     (let traps = tm_int3traps_at_pa (vm_tm vm) pa in
      if length traps \<le> i then Some (Inr None)
      else tbind (run_trap_cb api run_cb ev (traps ! i) vm) (\<lambda>vm.
        Some (rbind (read_trap (vm_heap vm) (traps ! i)) (\<lambda>trap.
          if self_destroy trap
          then rbind (drop_trap api (traps ! i) vm) (\<lambda>vm. Inr (Some (True, vm)))
          else Inr (Some (False, vm))))))"

partial_function (option) int3_loop ::
  "'w vmi_api \<Rightarrow> ('cb, 'x, 'w) run_cb \<Rightarrow> freed_read \<Rightarrow> event_t \<Rightarrow> u64 \<Rightarrow> nat \<Rightarrow> ('cb, 'x, 'w) vm_t \<Rightarrow>
   ('cb, 'x, 'w) vm_t result option" where
  "int3_loop api run_cb fr ev pa i vm =
     (case int3_node api run_cb ev pa i vm of
        None \<Rightarrow> None
      | Some (Inl e) \<Rightarrow> Some (Inl e)
      | Some (Inr None) \<Rightarrow> Some (Inr vm)
      | Some (Inr (Some (freed, vm'))) \<Rightarrow>
          if \<not> freed then int3_loop api run_cb fr ev pa (i + 1) vm'
          else if fr = Undefined then Some (Inl UseAfterFree)
          else if fr = OldNext then int3_loop api run_cb fr ev pa i vm'
          else Some (Inr vm'))"

declare int3_loop.simps [code]

text \<open>\<open>None\<close>: the callback never returns.\<close>

definition int3_cb ::
  "'w vmi_api \<Rightarrow> ('cb, 'x, 'w) run_cb \<Rightarrow> freed_read \<Rightarrow> event_t \<Rightarrow> ('cb, 'x, 'w) vm_t \<Rightarrow>
   (event_rsp_t \<times> ('cb, 'x, 'w) vm_t) result option" where
  "int3_cb api run_cb fr ev vm =
     (case save_regs ev vm of
        Inl e \<Rightarrow> Some (Inl e)
      | Inr vm \<Rightarrow>
        let pa = int3_pa ev in
        if tm_int3traps_at_pa (vm_tm vm) pa = [] then
          (case vmi_read_8_pa api pa (vm_world vm) of
             (None, w) \<Rightarrow> Some (Inr (no_response, vm\<lparr>vm_interrupted := - 1, vm_world := w\<rparr>))
           | (Some test, w) \<Rightarrow>
               Some (Inr (no_response\<lparr>rsp_reinject := Some (test = INT3_CHAR)\<rparr>, vm\<lparr>vm_world := w\<rparr>)))
        else
          case tm_check_doubletrap (vm_tm vm) pa of
            Inl e \<Rightarrow> Some (Inl e)
          | Inr doubletrap \<Rightarrow>
              (case int3_loop api run_cb fr ev pa 0 vm of
                 None \<Rightarrow> None
               | Some (Inl e) \<Rightarrow> Some (Inl e)
               | Some (Inr vm) \<Rightarrow>
                   Some (rbind (arm_step (e_vcpu ev) Singlestep_cb vm) (\<lambda>vm.
                     Inr (\<lparr>rsp_toggle = True, rsp_slat = Some ORIGIN_IDX,
                            rsp_reinject = Some (doubletrap \<noteq> 0)\<rparr>, vm)))))"

section \<open>The memory callbacks\<close>

text \<open>\<open>calloc\<close> leaves the trap list of the new pass structure empty, and nothing fills it.\<close>

definition pre_mem_cb ::
  "event_t \<Rightarrow> ('cb, 'x, 'w) vm_t \<Rightarrow> (event_rsp_t \<times> ('cb, 'x, 'w) vm_t) result" where
  "pre_mem_cb ev vm =
     rbind (save_regs ev vm) (\<lambda>vm.
       if tm_find_memtrap (vm_tm vm) (e_gfn ev) = None then Inr (no_response, vm)
       else
         let pass = \<lparr>pass_remapped = None, pass_traps = []\<rparr>;
             pass = (if e_write ev \<and> pass_traps pass \<noteq> []
                     then pass\<lparr>pass_remapped := tm_find_remapped (vm_tm vm) (e_gfn ev)\<rparr> else pass)
         in rbind (arm_step (e_vcpu ev) (Post_mem_cb pass) vm) (\<lambda>vm.
              Inr (\<lparr>rsp_toggle = True, rsp_slat = Some ORIGIN_IDX, rsp_reinject = None\<rparr>, vm)))"

text \<open>
  \<open>_post_mem_cb\<close>. \<open>VMI_FAILURE\<close> is 1, which here is compared with a number of bytes. The loop that
  reapplies the traps answers \<open>False\<close> when memory fails.
\<close>

definition VMI_FAILURE :: nat where "VMI_FAILURE = 1"

fun reapply_traps ::
  "'w vmi_api \<Rightarrow> u64 \<Rightarrow> u64 list \<Rightarrow> ('cb, 'x, 'w) vm_t \<Rightarrow> (bool \<times> ('cb, 'x, 'w) vm_t) result" where
  "reapply_traps api r [] vm = Inr (True, vm)"
| "reapply_traps api r (pa # pas) vm =
     (case vmi_read_8_pa api pa (vm_world vm) of
        (None, w) \<Rightarrow> Inr (False, vm\<lparr>vm_world := w\<rparr>)
      | (Some test, w) \<Rightarrow>
          if test = INT3_CHAR then
            rbind (tm_set_doubletrap (vm_tm vm) pa 1) (\<lambda>tm.
              reapply_traps api r pas (vm\<lparr>vm_world := w, vm_tm := tm\<rparr>))
          else
            rbind (tm_set_doubletrap (vm_tm vm) pa 0) (\<lambda>tm.
              case vmi_write_8_pa api (push_bit 12 r + (pa AND mask 12)) INT3_CHAR w of (ok, w) \<Rightarrow>
              if ok then reapply_traps api r pas (vm\<lparr>vm_world := w, vm_tm := tm\<rparr>)
              else Inr (False, vm\<lparr>vm_world := w, vm_tm := tm\<rparr>)))"

definition recopy_page ::
  "'w vmi_api \<Rightarrow> memcb_pass_t \<Rightarrow> ('cb, 'x, 'w) vm_t \<Rightarrow> (bool \<times> ('cb, 'x, 'w) vm_t) result" where
  "recopy_page api pass vm =
     (case pass_remapped pass of
        None \<Rightarrow> Inl NullDeref
      | Some rm \<Rightarrow>
          (case vmi_read_pa api (push_bit 12 (rm_o rm)) 4096 (vm_world vm) of (bs, w) \<Rightarrow>
           if length bs = VMI_FAILURE then Inr (False, vm\<lparr>vm_world := w\<rparr>)
           else let backup = bs @ replicate (4096 - length bs) 0 in
           case vmi_write_pa api (push_bit 12 (rm_r rm)) backup w of (n, w) \<Rightarrow>
           if n = VMI_FAILURE then Inr (False, vm\<lparr>vm_world := w\<rparr>)
           else reapply_traps api (rm_r rm) (pass_traps pass) (vm\<lparr>vm_world := w\<rparr>)))"

definition post_mem_cb ::
  "'w vmi_api \<Rightarrow> event_t \<Rightarrow> memcb_pass_t \<Rightarrow> ('cb, 'x, 'w) vm_t \<Rightarrow>
   (event_rsp_t \<times> ('cb, 'x, 'w) vm_t) result" where
  "post_mem_cb api ev pass vm =
     rbind (save_regs ev vm) (\<lambda>vm.
     rbind (if pass_traps pass \<noteq> [] then recopy_page api pass vm else Inr (True, vm)) (\<lambda>(ok, vm).
       if \<not> ok then Inr (no_response, vm\<lparr>vm_interrupted := - 1\<rparr>)
       else rbind (arm_step (e_vcpu ev) Singlestep_cb vm) (\<lambda>vm.
         Inr (\<lparr>rsp_toggle = True, rsp_slat = Some (vm_altp2m_idx vm), rsp_reinject = None\<rparr>, vm))))"

definition singlestep_cb :: "('cb, 'x, 'w) vm_t \<Rightarrow> event_rsp_t" where
  "singlestep_cb vm =
     \<lparr>rsp_toggle = True, rsp_slat = Some (vm_altp2m_idx vm), rsp_reinject = None\<rparr>"

text \<open>A single-step event runs the callback that is armed for its CPU.\<close>

definition step_event ::
  "'w vmi_api \<Rightarrow> event_t \<Rightarrow> ('cb, 'x, 'w) vm_t \<Rightarrow> (event_rsp_t \<times> ('cb, 'x, 'w) vm_t) result" where
  "step_event api ev vm =
     rbind (arr_get (vm_step vm) (int (e_vcpu ev))) (\<lambda>cb. case cb of
       None \<Rightarrow> Inl NullDeref
     | Some Singlestep_cb \<Rightarrow> Inr (singlestep_cb vm, vm)
     | Some (Post_mem_cb pass) \<Rightarrow> post_mem_cb api ev pass vm)"

section \<open>The views a CPU goes through\<close>

record vcpu_t =
  v_slat :: u16
  v_singlestep :: bool

definition respond :: "event_rsp_t \<Rightarrow> vcpu_t \<Rightarrow> vcpu_t" where
  "respond r v = \<lparr>v_slat = (case rsp_slat r of None \<Rightarrow> v_slat v | Some s \<Rightarrow> s),
     v_singlestep = (if rsp_toggle r then \<not> v_singlestep v else v_singlestep v)\<rparr>"

text \<open>
  The events of one CPU. Breakpoints and protected memory are hit while the CPU runs freely; with
  single-stepping on, the next event is the one behind the instruction.
\<close>

inductive vcpu_step ::
  "'w vmi_api \<Rightarrow> ('cb, 'x, 'w) run_cb \<Rightarrow> freed_read \<Rightarrow> nat \<Rightarrow> vcpu_t \<times> ('cb, 'x, 'w) vm_t \<Rightarrow>
   vcpu_t \<times> ('cb, 'x, 'w) vm_t \<Rightarrow> bool"
  for api run_cb fr n where
  Breakpoint: "\<not> v_singlestep v \<Longrightarrow> e_vcpu ev = n \<Longrightarrow>
     int3_cb api run_cb fr ev vm = Some (Inr (r, vm')) \<Longrightarrow>
     vcpu_step api run_cb fr n (v, vm) (respond r v, vm')"
| Mem_access: "\<not> v_singlestep v \<Longrightarrow> e_vcpu ev = n \<Longrightarrow> pre_mem_cb ev vm = Inr (r, vm') \<Longrightarrow>
     vcpu_step api run_cb fr n (v, vm) (respond r v, vm')"
| Stepped: "v_singlestep v \<Longrightarrow> e_vcpu ev = n \<Longrightarrow> step_event api ev vm = Inr (r, vm') \<Longrightarrow>
     vcpu_step api run_cb fr n (v, vm) (respond r v, vm')"

inductive_cases vcpu_stepE: "vcpu_step api run_cb fr n (v, vm) (v', vm')"

end
