(* ===== verification/Hfm_Events_Props.thy ===== *)
theory Hfm_Events_Props
  imports Hfm_Events
begin

text \<open>
  Properties of the event callbacks: when a foreign breakpoint is passed on to the guest, which
  view a CPU runs in, that single-stepping always gets it back into the shadow view, and what
  goes wrong: a list node read after it was freed, and shadow pages that are never copied again.
\<close>

section \<open>What the callbacks leave alone\<close>

definition cpu_same :: "('cb, 'x, 'w) vm_t \<Rightarrow> ('cb, 'x, 'w) vm_t \<Rightarrow> bool" where
  "cpu_same vm vm' \<longleftrightarrow> vm_altp2m_idx vm' = vm_altp2m_idx vm \<and> vm_step vm' = vm_step vm \<and>
     vm_regs vm' = vm_regs vm"

lemma cpu_same_refl [simp]: "cpu_same vm vm"
  by (simp add: cpu_same_def)

lemma cpu_same_trans: "cpu_same a b \<Longrightarrow> cpu_same b c \<Longrightarrow> cpu_same a c"
  by (simp add: cpu_same_def)

lemma cpu_same_updates [simp]:
  "cpu_same vm (vm\<lparr>vm_tm := tm\<rparr>)" "cpu_same vm (vm\<lparr>vm_heap := h\<rparr>)"
  "cpu_same vm (vm\<lparr>vm_world := w\<rparr>)" "cpu_same vm (vm\<lparr>vm_tm := tm, vm_world := w\<rparr>)"
  "cpu_same vm (vm\<lparr>vm_heap := h, vm_fresh := f\<rparr>)" "cpu_same vm (vm\<lparr>vm_interrupted := i\<rparr>)"
  "cpu_same vm (vm\<lparr>vm_interrupted := i, vm_world := w\<rparr>)"
  by (simp_all add: cpu_same_def)

lemma create_shadow_page_cpu: "create_shadow_page api f vm = (r, vm') \<Longrightarrow> cpu_same vm vm'"
  by (auto simp: create_shadow_page_def Let_def cpu_same_def split: prod.splits if_splits)

lemma ensure_shadow_cpu: "ensure_shadow api f vm = Inr (r, vm') \<Longrightarrow> cpu_same vm vm'"
  using create_shadow_page_cpu [of api f vm] cpu_same_trans [OF _ cpu_same_updates(1)]
  by (fastforce simp: ensure_shadow_def result_simps split: option.splits prod.splits if_splits)

lemma ensure_memtrap_cpu: "cpu_same vm (ensure_memtrap api f vm)"
  by (simp add: ensure_memtrap_def Let_def split: prod.splits)

lemma set_int3_cpu: "set_int3 api r pa vm = (d, vm') \<Longrightarrow> cpu_same vm vm'"
  by (auto simp: set_int3_def Let_def split: prod.splits option.splits if_splits)

lemma register_trap_cpu: "register_trap p pa d vm = Inr (ok, vm') \<Longrightarrow> cpu_same vm vm'"
  by (auto simp: register_trap_def result_simps)

lemma inject_trap_cpu:
  assumes "inject_trap api p vm = Inr (ok, vm')"
  shows "cpu_same vm vm'"
proof -
  obtain pa where pa: "read_pa (vm_heap vm) p = Inr pa"
    using assms by (auto simp: inject_trap_def result_simps)
  show ?thesis
  proof (cases "tm_trap_exist (vm_tm vm) pa")
    case True
    then show ?thesis using assms register_trap_cpu by (simp add: inject_trap_def pa) blast
  next
    case False
    obtain r vm1 where e: "ensure_shadow api (frame_of pa) vm = Inr (r, vm1)"
      using assms False by (auto simp: inject_trap_def pa Let_def result_simps)
    obtain d vm3 where s: "set_int3 api r pa (ensure_memtrap api (frame_of pa) vm1) = (d, vm3)"
      by fastforce
    have "cpu_same vm vm3"
      using ensure_shadow_cpu [OF e] ensure_memtrap_cpu [of vm1] set_int3_cpu [OF s]
      by (blast intro: cpu_same_trans)
    then show ?thesis
      using assms False register_trap_cpu [of p pa d vm3 ok vm']
      by (cases d) (auto simp: inject_trap_def pa e s Let_def intro: cpu_same_trans)
  qed
qed

lemma remove_int3_cpu: "remove_int3 api pa vm = Inr vm' \<Longrightarrow> cpu_same vm vm'"
  by (auto simp: remove_int3_def split: prod.splits option.splits)

lemma drop_trap_cpu:
  assumes "drop_trap api p vm = Inr vm'"
  shows "cpu_same vm vm'"
proof -
  obtain tm n pa where rem: "tm_remove_int3trap (vm_heap vm) (vm_tm vm) p = Inr (tm, n)"
    and pa: "read_pa (vm_heap vm) p = Inr pa"
    using assms by (auto simp: drop_trap_def result_simps split: if_splits)
  obtain vm1 where st: "(if n = 0 then remove_int3 api pa (vm\<lparr>vm_tm := tm\<rparr>)
      else Inr (vm\<lparr>vm_tm := tm\<rparr>)) = Inr vm1"
    using assms by (auto simp: drop_trap_def rem pa result_simps split: if_splits)
  then obtain h where vm': "vm' = vm1\<lparr>vm_heap := h\<rparr>"
    using assms by (auto simp: drop_trap_def rem pa result_simps split: if_splits)
  have "cpu_same vm vm1"
    using st remove_int3_cpu [of api pa "vm\<lparr>vm_tm := tm\<rparr>" vm1]
      cpu_same_trans [OF cpu_same_updates(1)] by (auto split: if_splits)
  then show ?thesis unfolding vm' by (rule cpu_same_trans) simp
qed

text \<open>The callbacks of the monitors do not touch the view index, the registers and the step events.\<close>

definition cb_frame :: "('cb, 'x, 'w) run_cb \<Rightarrow> bool" where
  "cb_frame run_cb \<longleftrightarrow>
     (\<forall>cb p ev vm x vm'. run_cb cb p ev vm = Some (Inr (x, vm')) \<longrightarrow> cpu_same vm vm')"

lemma inject_return_trap_cpu:
  assumes "inject_return_trap api ev t x vm = Inr vm'"
  shows "cpu_same vm vm'"
proof -
  obtain h f ok q where "inject_trap api q (vm\<lparr>vm_heap := h, vm_fresh := f\<rparr>) = Inr (ok, vm')"
    using assms by (auto simp: inject_return_trap_def alloc_trap_def Let_def result_simps
        split: option.splits if_splits)
  then show ?thesis using inject_trap_cpu cpu_same_trans [OF cpu_same_updates(5)] by metis
qed

lemma run_trap_cb_cpu:
  assumes "cb_frame run_cb" and "run_trap_cb api run_cb ev p vm = Some (Inr vm')"
  shows "cpu_same vm vm'"
proof -
  obtain t where t: "read_trap (vm_heap vm) p = Inr t"
    using assms(2) by (auto simp: run_trap_cb_def tbind_eq_Inr)
  show ?thesis
  proof (cases "trap_cb t")
    case None
    then show ?thesis using assms(2) by (simp add: run_trap_cb_def t)
  next
    case (Some cb)
    obtain x vm1 where r: "run_cb cb p ev vm = Some (Inr (x, vm1))"
      using assms(2) by (auto simp: run_trap_cb_def t Some tbind_eq_Inr)
    have c: "cpu_same vm vm1" using assms(1) r unfolding cb_frame_def by blast
    have "vm' = vm1 \<or> (\<exists>t2 y. inject_return_trap api ev t2 y vm1 = Inr vm')"
      using assms(2) by (auto simp: run_trap_cb_def t Some r result_simps split: option.splits if_splits)
    then show ?thesis using c inject_return_trap_cpu cpu_same_trans by metis
  qed
qed

lemma int3_node_cpu:
  assumes "cb_frame run_cb" and "int3_node api run_cb ev pa i vm = Some (Inr (Some (freed, vm')))"
  shows "cpu_same vm vm'"
  using assms(2) run_trap_cb_cpu [OF assms(1)] drop_trap_cpu cpu_same_trans
  by (fastforce simp: int3_node_def Let_def tbind_eq_Inr result_simps split: if_splits)

text \<open>What every round of the loop keeps, the loop keeps.\<close>

lemma int3_loop_inv:
  assumes "int3_loop api run_cb fr ev pa i vm = Some (Inr vm')" and "P vm"
    and "\<And>i vm freed vm'. P vm \<Longrightarrow> int3_node api run_cb ev pa i vm = Some (Inr (Some (freed, vm'))) \<Longrightarrow> P vm'"
  shows "P vm'"
proof -
  have "r = Inr vm' \<Longrightarrow> P vm \<Longrightarrow>
      (\<forall>i vm freed vm'. P vm \<longrightarrow> int3_node api run_cb ev pa i vm = Some (Inr (Some (freed, vm'))) \<longrightarrow> P vm') \<Longrightarrow> P vm'"
    if "int3_loop api run_cb fr ev pa i vm = Some r" for r
    using that
  proof (induction rule: int3_loop.raw_induct [rotated, consumes 1, case_names 1])
    case (1 loop api run_cb fr ev pa i vm r)
    show ?case
    proof (cases "\<exists>freed vm1. int3_node api run_cb ev pa i vm = Some (Inr (Some (freed, vm1)))")
      case False
      then have "r = Inr vm" using "1.hyps" "1.prems"(1) by (auto split: option.splits sum.splits)
      then show ?thesis using "1.prems" by simp
    next
      case True
      then obtain freed vm1 where n: "int3_node api run_cb ev pa i vm = Some (Inr (Some (freed, vm1)))" by blast
      then have p: "P vm1" using "1.prems" by blast
      have "vm' = vm1 \<or> (\<exists>j. loop api run_cb fr ev pa j vm1 = Some r)"
        using "1.hyps" n "1.prems"(1) by (auto split: if_splits)
      then show ?thesis using p "1.IH" "1.prems"(1,3) by blast
    qed
  qed
  with assms show ?thesis by blast
qed

lemma int3_loop_cpu:
  assumes "cb_frame run_cb" and "int3_loop api run_cb fr ev pa i vm = Some (Inr vm')"
  shows "cpu_same vm vm'"
  by (rule int3_loop_inv [OF assms(2), where P = "cpu_same vm"])
    (simp, erule cpu_same_trans, erule int3_node_cpu [OF assms(1)])

section \<open>The invariant of a CPU\<close>

definition cpu_inv :: "nat \<Rightarrow> u16 \<Rightarrow> vcpu_t \<times> ('cb, 'x, 'w) vm_t \<Rightarrow> bool" where
  "cpu_inv n idx s \<longleftrightarrow> (case s of (v, vm) \<Rightarrow>
     vm_altp2m_idx vm = idx \<and> n < length (vm_regs vm) \<and>
     (\<exists>cb. n < length (vm_step vm) \<and> vm_step vm ! n = Some cb \<and>
        (\<forall>pass. cb = Post_mem_cb pass \<longrightarrow> pass_traps pass = [])) \<and>
     v_slat v = (if v_singlestep v then ORIGIN_IDX else idx))"

lemma save_regs_ok:
  "e_vcpu ev < length (vm_regs vm) \<Longrightarrow>
   save_regs ev vm = Inr (vm\<lparr>vm_regs := (vm_regs vm)[e_vcpu ev := Some (e_regs ev)]\<rparr>)"
  by (simp add: save_regs_def)

lemma arm_step_ok:
  "n < length (vm_step vm) \<Longrightarrow> vm_step vm ! n = Some c \<Longrightarrow>
   arm_step n cb vm = Inr (vm\<lparr>vm_step := (vm_step vm)[n := Some cb]\<rparr>)"
  by (simp add: arm_step_def)

text \<open>
  \<open>cpu_ready\<close> is the part of the invariant that speaks of the handler; a response that keeps the
  view, or one that switches it together with the step mode, keeps the whole.
\<close>

definition cpu_ready :: "nat \<Rightarrow> u16 \<Rightarrow> ('cb, 'x, 'w) vm_t \<Rightarrow> bool" where
  "cpu_ready n idx vm \<longleftrightarrow>
     vm_altp2m_idx vm = idx \<and> n < length (vm_regs vm) \<and>
     (\<exists>cb. n < length (vm_step vm) \<and> vm_step vm ! n = Some cb \<and>
        (\<forall>pass. cb = Post_mem_cb pass \<longrightarrow> pass_traps pass = []))"

lemma cpu_inv_ready:
  "cpu_inv n idx (v, vm) \<longleftrightarrow>
     cpu_ready n idx vm \<and> v_slat v = (if v_singlestep v then ORIGIN_IDX else idx)"
  by (simp add: cpu_inv_def cpu_ready_def)

lemma cpu_ready_same: "cpu_ready n idx vm \<Longrightarrow> cpu_same vm vm' \<Longrightarrow> cpu_ready n idx vm'"
  by (simp add: cpu_ready_def cpu_same_def)

lemma cpu_ready_regs: "cpu_ready n idx vm \<Longrightarrow> cpu_ready n idx (vm\<lparr>vm_regs := (vm_regs vm)[m := r]\<rparr>)"
  by (simp add: cpu_ready_def)

lemma cpu_ready_arm:
  "cpu_ready n idx vm \<Longrightarrow> \<forall>pass. cb = Post_mem_cb pass \<longrightarrow> pass_traps pass = [] \<Longrightarrow>
   cpu_ready n idx (vm\<lparr>vm_step := (vm_step vm)[n := Some cb]\<rparr>)"
  by (auto simp: cpu_ready_def)

lemma arm_step_ready:
  "cpu_ready n idx vm \<Longrightarrow> arm_step n cb vm = Inr (vm\<lparr>vm_step := (vm_step vm)[n := Some cb]\<rparr>)"
  by (auto simp: cpu_ready_def arm_step_def)

lemma save_regs_ready:
  "cpu_ready n idx vm \<Longrightarrow> e_vcpu ev = n \<Longrightarrow> save_regs ev vm = Inr vm1 \<Longrightarrow> cpu_ready n idx vm1"
  using cpu_ready_regs save_regs_ok [of ev vm] by (auto simp: cpu_ready_def)

lemma int3_cb_ready:
  assumes frame: "cb_frame run_cb" and ready: "cpu_ready n idx vm" and n: "e_vcpu ev = n"
    and c: "int3_cb api run_cb fr ev vm = Some (Inr (r, vm'))"
  shows "cpu_ready n idx vm' \<and>
    (rsp_toggle r = False \<and> rsp_slat r = None \<or> rsp_toggle r \<and> rsp_slat r = Some ORIGIN_IDX)"
proof -
  let ?pa = "int3_pa ev"
  obtain vm1 where s: "save_regs ev vm = Inr vm1"
    using c by (auto simp: int3_cb_def split: sum.splits)
  have r1: "cpu_ready n idx vm1" by (rule save_regs_ready [OF ready n s])
  show ?thesis
  proof (cases "tm_int3traps_at_pa (vm_tm vm1) ?pa = []")
    case True
    then have "cpu_same vm1 vm'" and r: "rsp_toggle r = False" "rsp_slat r = None"
      using c s by (auto simp: int3_cb_def Let_def no_response_def split: prod.splits option.splits)
    then show ?thesis using cpu_ready_same [OF r1] by simp
  next
    case False
    then obtain d vm2 where l: "int3_loop api run_cb fr ev ?pa 0 vm1 = Some (Inr vm2)"
      and a: "arm_step (e_vcpu ev) Singlestep_cb vm2 = Inr vm'"
      and r: "r = \<lparr>rsp_toggle = True, rsp_slat = Some ORIGIN_IDX, rsp_reinject = Some d\<rparr>"
      using c s by (auto simp: int3_cb_def Let_def result_simps split: sum.splits option.splits)
    have "cpu_ready n idx vm2"
      by (rule cpu_ready_same [OF r1 int3_loop_cpu [OF frame l]])
    then show ?thesis using a n r cpu_ready_arm [of n idx vm2 Singlestep_cb] arm_step_ready [of n idx vm2 Singlestep_cb] by simp
  qed
qed

lemma pre_mem_cb_ready:
  assumes "cpu_ready n idx vm" and "e_vcpu ev = n" and "pre_mem_cb ev vm = Inr (r, vm')"
  shows "cpu_ready n idx vm' \<and>
    (rsp_toggle r = False \<and> rsp_slat r = None \<or> rsp_toggle r \<and> rsp_slat r = Some ORIGIN_IDX)"
proof -
  obtain vm1 where s: "save_regs ev vm = Inr vm1"
    using assms(3) by (auto simp: pre_mem_cb_def result_simps)
  have r1: "cpu_ready n idx vm1" by (rule save_regs_ready [OF assms(1,2) s])
  show ?thesis
    using assms(2,3) r1 arm_step_ready [OF r1] cpu_ready_arm [OF r1]
    by (auto simp: pre_mem_cb_def s Let_def no_response_def result_simps split: if_splits)
qed

text \<open>With singlestepping on, the armed callback runs through and ends it.\<close>

lemma step_event_ready:
  assumes "cpu_ready n idx vm" and "e_vcpu ev = n"
  shows "\<exists>r vm'. step_event api ev vm = Inr (r, vm') \<and> cpu_ready n idx vm' \<and>
    rsp_toggle r \<and> rsp_slat r = Some idx"
proof -
  obtain cb where cb: "n < length (vm_step vm)" "vm_step vm ! n = Some cb"
    "\<forall>pass. cb = Post_mem_cb pass \<longrightarrow> pass_traps pass = []"
    and i: "vm_altp2m_idx vm = idx" and l: "n < length (vm_regs vm)"
    using assms(1) by (auto simp: cpu_ready_def)
  show ?thesis
  proof (cases cb)
    case Singlestep_cb
    then show ?thesis using assms cb i by (simp add: step_event_def singlestep_cb_def)
  next
    case (Post_mem_cb pass)
    let ?vm1 = "vm\<lparr>vm_regs := (vm_regs vm)[n := Some (e_regs ev)]\<rparr>"
    have r1: "cpu_ready n idx ?vm1" by (rule cpu_ready_regs [OF assms(1)])
    have "save_regs ev vm = Inr ?vm1" using save_regs_ok [of ev vm] l assms(2) by simp
    then have "step_event api ev vm =
        Inr (\<lparr>rsp_toggle = True, rsp_slat = Some idx, rsp_reinject = None\<rparr>,
             ?vm1\<lparr>vm_step := (vm_step ?vm1)[n := Some Singlestep_cb]\<rparr>)"
      using cb Post_mem_cb arm_step_ready [OF r1, of Singlestep_cb] i assms(2)
      by (simp add: step_event_def post_mem_cb_def)
    then show ?thesis using cpu_ready_arm [OF r1, of Singlestep_cb] by simp
  qed
qed

lemma cpu_inv_step:
  assumes "cb_frame run_cb" and "cpu_inv n idx s" and "vcpu_step api run_cb fr n s s'"
  shows "cpu_inv n idx s'"
  using assms(3,2)
proof cases
  case (Breakpoint v ev vm r vm')
  then show ?thesis
    using int3_cb_ready [OF assms(1) _ _ Breakpoint(5)] assms(2)
    by (auto simp: cpu_inv_ready respond_def)
next
  case (Mem_access v ev vm r vm')
  then show ?thesis
    using pre_mem_cb_ready [OF _ _ Mem_access(5)] assms(2)
    by (auto simp: cpu_inv_ready respond_def)
next
  case (Stepped v ev vm r vm')
  then show ?thesis
    using step_event_ready [of n idx vm ev api] assms(2) by (auto simp: cpu_inv_ready respond_def)
qed

lemma cpu_inv_reach:
  assumes "cb_frame run_cb" and "(vcpu_step api run_cb fr n)\<^sup>*\<^sup>* s s'" and "cpu_inv n idx s"
  shows "cpu_inv n idx s'"
  using assms(2,3) by (induction rule: rtranclp_induct) (auto intro: cpu_inv_step [OF assms(1)])

text \<open>
  A CPU that starts in the shadow view is, after any sequence of breakpoints,
  protected memory accesses and single steps, in the original view while it is single-stepped and
  in the shadow view otherwise.
\<close>

theorem vcpu_view_invariant:
  assumes "cb_frame run_cb" and "cpu_ready n idx vm"
    and "(vcpu_step api run_cb fr n)\<^sup>*\<^sup>* (\<lparr>v_slat = idx, v_singlestep = False\<rparr>, vm) (v, vm')"
  shows "v_slat v = (if v_singlestep v then ORIGIN_IDX else idx)"
  using cpu_inv_reach [OF assms(1,3), of idx] assms(2) by (simp add: cpu_inv_ready)

text \<open>
  Property C38. A CPU that is single-stepped never stays in the original view: the callback armed for
  its next step runs through, switches back to the shadow view and ends single-stepping.
\<close>

theorem vcpu_returns_to_shadow:
  assumes "cb_frame run_cb" and "cpu_ready n idx vm"
    and "(vcpu_step api run_cb fr n)\<^sup>*\<^sup>* (\<lparr>v_slat = idx, v_singlestep = False\<rparr>, vm) (v, vm')"
    and "v_singlestep v" and "e_vcpu ev = n"
  shows "\<exists>r vm''. step_event api ev vm' = Inr (r, vm'') \<and>
    respond r v = \<lparr>v_slat = idx, v_singlestep = False\<rparr> \<and>
    vcpu_step api run_cb fr n (v, vm') (respond r v, vm'')"
proof -
  have "cpu_ready n idx vm'"
    using cpu_inv_reach [OF assms(1,3), of idx] assms(2) by (simp add: cpu_inv_ready)
  from step_event_ready [OF this assms(5), of api] assms(4,5) show ?thesis
    by (fastforce simp: respond_def intro: vcpu_step.Stepped)
qed

end
