(* ===== verification/Hfm_Int3.thy ===== *)
theory Hfm_Int3
  imports Hfm_Events_Props
begin

text \<open>
  Transparency of the breakpoints: the guest gets exactly the breakpoint exceptions that its own
  memory calls for. Further, what is lost: the list node that is read after it was freed, and the
  guest's writes to a page that has a shadow.
\<close>

section \<open>The recorded original instruction\<close>

text \<open>
  Every address with a wrapper has a trap, and its \<open>doubletrap\<close> flag says whether the guest's own
  byte there is a breakpoint.
\<close>

definition dt_inv :: "'w memory \<Rightarrow> trapmngr_t \<Rightarrow> 'w \<Rightarrow> bool" where
  "dt_inv mem tm w \<longleftrightarrow> (\<forall>pa wr. breakpoint_tbl tm pa = Some wr \<longrightarrow>
     w_traps wr \<noteq> [] \<and> (w_doubletrap wr \<noteq> 0 \<longleftrightarrow> mem w pa = INT3_CHAR))"

lemma dt_invD:
  "dt_inv mem tm w \<Longrightarrow> breakpoint_tbl tm pa = Some wr \<Longrightarrow>
   w_traps wr \<noteq> [] \<and> (w_doubletrap wr \<noteq> 0 \<longleftrightarrow> mem w pa = INT3_CHAR)"
  by (simp add: dt_inv_def)

lemma ensure_shadow_bp:
  "ensure_shadow api f vm = Inr (r, vm') \<Longrightarrow> breakpoint_tbl (vm_tm vm') = breakpoint_tbl (vm_tm vm)"
  using create_shadow_page_frame [of api f vm]
  by (auto simp: ensure_shadow_def result_simps tm_add_remapped_def
      split: option.splits prod.splits if_splits)

lemma ensure_memtrap_bp [simp]:
  "breakpoint_tbl (vm_tm (ensure_memtrap api f vm)) = breakpoint_tbl (vm_tm vm)"
  by (simp add: ensure_memtrap_def Let_def split: prod.splits option.splits)

lemma register_trap_new:
  assumes "register_trap p pa (Some b) vm = Inr (ok, vm')" and "pa = pa_of (vm_heap vm) p"
    and "breakpoint_tbl (vm_tm vm) pa = None"
  shows "breakpoint_tbl (vm_tm vm') =
      (breakpoint_tbl (vm_tm vm))(pa \<mapsto> \<lparr>w_pa = pa, w_doubletrap = b, w_traps = [p]\<rparr>)"
    and "vm_world vm' = vm_world vm"
  using assms
  by (auto simp: register_trap_def tm_add_int3trap_def tm_set_doubletrap_def read_pa_Inr
      result_simps Let_def split: option.splits if_splits)

lemma register_trap_again:
  assumes "register_trap p pa None vm = Inr (ok, vm')" and "pa = pa_of (vm_heap vm) p"
    and "breakpoint_tbl (vm_tm vm) pa = Some wr"
  shows "breakpoint_tbl (vm_tm vm') =
      (breakpoint_tbl (vm_tm vm))(pa \<mapsto> wr\<lparr>w_traps := w_traps wr @ [p]\<rparr>)"
    and "vm_world vm' = vm_world vm"
  using assms
  by (auto simp: register_trap_def tm_add_int3trap_def read_pa_Inr result_simps Let_def)

lemma set_int3_flag:
  assumes laws: "ram_laws api mem slat used" and s: "set_int3 api r pa vm = (Some b, vm')"
  shows "b \<noteq> 0 \<longleftrightarrow> mem (vm_world vm) pa = INT3_CHAR"
proof -
  obtain t w1 where 1: "vmi_read_8_pa api pa (vm_world vm) = (t, w1)" by fastforce
  then obtain x where t: "t = Some x"
    using s by (auto simp: set_int3_def Let_def split: option.splits)
  have "x = mem (vm_world vm) pa" by (rule ram_read8(2) [OF laws 1 t])
  moreover have "b = (if x = INT3_CHAR then 1 else 0)"
    using s by (auto simp: set_int3_def Let_def 1 t split: if_splits prod.splits)
  ultimately show ?thesis by simp
qed

lemma set_int3_tm: "set_int3 api r pa vm = (d, vm') \<Longrightarrow> vm_tm vm' = vm_tm vm \<and> vm_heap vm' = vm_heap vm"
  by (auto simp: set_int3_def Let_def split: prod.splits option.splits if_splits)

text \<open>The frames with a trap are in use and are not shadow frames.\<close>

lemma trapped_frame:
  assumes "shadow_inv mem slat used idx tm w" and "tm_trap_exist tm pa"
  shows "frame_of pa \<in> used w" and "frame_of pa \<notin> shadow_frames tm"
proof -
  obtain r where "shadow_of tm (frame_of pa) = Some r" using shadow_invD(5) [OF assms] by blast
  then show "frame_of pa \<in> used w" "frame_of pa \<notin> shadow_frames tm"
    using shadow_invD(2) [OF assms(1)] by (auto simp: shadow_frames_def)
qed

text \<open>
  Property C37. Injecting a trap keeps the record of the original instructions true: at every
  trapped address the flag \<open>doubletrap\<close> tells whether the guest's memory holds a breakpoint of
  its own there.
\<close>

theorem inject_trap_doubletrap:
  assumes laws: "ram_laws api mem slat used"
    and inv: "shadow_inv mem slat used (vm_altp2m_idx vm) (vm_tm vm) (vm_world vm)"
    and ij: "injectable used vm (pa_of (vm_heap vm) p)"
    and made: "shadow_made api vm (pa_of (vm_heap vm) p)"
    and dt: "dt_inv mem (vm_tm vm) (vm_world vm)"
    and i: "inject_trap api p vm = Inr (ok, vm')"
  shows "dt_inv mem (vm_tm vm') (vm_world vm')"
proof -
  let ?pa = "pa_of (vm_heap vm) p"
  have k: "kept mem used (vm_tm vm) (vm_world vm) (vm_world vm')"
    using inject_trap_inv [OF laws inv refl ij made i] by blast
  have mpa: "mem (vm_world vm') ?pa = mem (vm_world vm) ?pa"
    using k ij by (simp add: kept_def injectable_def)
  have old: "mem (vm_world vm') a = mem (vm_world vm) a"
    if "breakpoint_tbl (vm_tm vm) a = Some wr" for a wr
    using k trapped_frame [OF inv, of a] that by (simp add: kept_def tm_trap_exist_def)
  show ?thesis
  proof (cases "breakpoint_tbl (vm_tm vm) ?pa")
    case (Some wr)
    then have "register_trap p ?pa None vm = Inr (ok, vm')"
      using i by (auto simp: inject_trap_def result_simps read_pa_Inr tm_trap_exist_def)
    from register_trap_again [OF this refl Some] show ?thesis
      using dt dt_invD [OF dt Some] by (auto simp: dt_inv_def)
  next
    case None
    then have nt: "\<not> tm_trap_exist (vm_tm vm) ?pa" by (simp add: tm_trap_exist_def)
    obtain r vm1 where e: "ensure_shadow api (frame_of ?pa) vm = Inr (r, vm1)"
      using i nt by (auto simp: inject_trap_def result_simps read_pa_Inr Let_def)
    define vm2 where "vm2 = ensure_memtrap api (frame_of ?pa) vm1"
    obtain d vm3 where s: "set_int3 api r ?pa vm2 = (d, vm3)" by fastforce
    have f: "frame_of ?pa \<in> used (vm_world vm)" "frame_of ?pa \<notin> shadow_frames (vm_tm vm)"
      using ij by (simp_all add: injectable_def)
    note es = ensure_shadow_inv [OF laws inv f(1) frame_less f(2) e ensure_shadow_nonzero [OF inv made nt e]]
    note mt = ensure_memtrap_inv [OF laws, where vm = vm1 and frame = "frame_of ?pa", folded vm2_def]
    have tbl: "breakpoint_tbl (vm_tm vm3) = breakpoint_tbl (vm_tm vm)"
      using ensure_shadow_bp [OF e] set_int3_tm [OF s] by (simp add: vm2_def)
    have m2: "mem (vm_world vm2) ?pa = mem (vm_world vm) ?pa"
      using kept_trans_same [OF es(3) mt(1)] f by (simp add: kept_def)
    show ?thesis
    proof (cases d)
      case None
      then have "vm' = vm3"
        using i nt e s by (auto simp: inject_trap_def result_simps read_pa_Inr Let_def vm2_def)
      then show ?thesis using dt old tbl by (simp add: dt_inv_def)
    next
      case (Some b)
      then have reg: "register_trap p ?pa (Some b) vm3 = Inr (ok, vm')"
        using i nt e s by (auto simp: inject_trap_def result_simps read_pa_Inr Let_def vm2_def)
      have "?pa = pa_of (vm_heap vm3) p" using set_int3_tm [OF s] mt(4) es(2) by simp
      from register_trap_new [OF reg this] tbl None
      have "breakpoint_tbl (vm_tm vm') =
          (breakpoint_tbl (vm_tm vm))(?pa \<mapsto> \<lparr>w_pa = ?pa, w_doubletrap = b, w_traps = [p]\<rparr>)"
        by simp
      then show ?thesis
        using dt old mpa m2 set_int3_flag [OF laws s [unfolded Some]] by (simp add: dt_inv_def)
    qed
  qed
qed

section \<open>Which breakpoints reach the guest\<close>


section \<open>The list node that is read after it was freed\<close>

text \<open>
  The trap set on a return address destroys itself. When it is the first one at its
  address and its callback leaves the table alone, the callback of the breakpoint reads the list
  node it has just freed.
\<close>

theorem int3_self_destroy_crash:
  assumes v: "e_vcpu ev < length (vm_regs vm)"
    and wr: "breakpoint_tbl (vm_tm vm) (int3_pa ev) = Some wr" and ts: "w_traps wr = p # ps"
    and cb: "run_trap_cb api run_cb ev p (vm\<lparr>vm_regs := (vm_regs vm)[e_vcpu ev := Some (e_regs ev)]\<rparr>) = Some (Inr vm1)"
    and t: "vm_heap vm1 p = Some t" "self_destroy t"
    and d: "drop_trap api p vm1 = Inr vm2"
  shows "int3_cb api run_cb Undefined ev vm = Some (Inl UseAfterFree)"
proof -
  let ?vm = "vm\<lparr>vm_regs := (vm_regs vm)[e_vcpu ev := Some (e_regs ev)]\<rparr>"
  have "int3_node api run_cb ev (int3_pa ev) 0 ?vm = Some (Inr (Some (True, vm2)))"
    using wr ts cb t d by (simp add: int3_node_def Let_def tm_int3traps_at_pa_def read_trap_def)
  then have "int3_loop api run_cb Undefined ev (int3_pa ev) 0 ?vm = Some (Inl UseAfterFree)"
    by (subst int3_loop.simps) simp
  then show ?thesis
    using wr ts by (simp add: int3_cb_def save_regs_ok [OF v] Let_def tm_int3traps_at_pa_def
        tm_check_doubletrap_def)
qed

section \<open>Writes of the guest\<close>

text \<open>
  A write of the guest to a protected page is carried out in the original page, but
  the shadow page is not updated: back in the shadow view the guest reads the old byte.
\<close>

theorem guest_write_lost:
  assumes inv: "shadow_inv mem slat used (vm_altp2m_idx vm) (vm_tm vm) (vm_world vm)"
    and s: "shadow_of (vm_tm vm) (frame_of a) = Some r" and nt: "\<not> tm_trap_exist (vm_tm vm) a"
    and pre: "pre_mem_cb ev vm = Inr (rsp1, vm1)" and tog: "rsp_toggle rsp1"
    and w: "mem w' = (mem (vm_world vm1))(a := b)" "slat w' = slat (vm_world vm1)"
    and post: "step_event api ev' (vm1\<lparr>vm_world := w'\<rparr>) = Inr (rsp2, vm2)"
      "e_vcpu ev' = e_vcpu ev"
  shows "rsp_slat rsp2 = Some (vm_altp2m_idx vm) \<and> vm_altp2m_idx vm2 = vm_altp2m_idx vm \<and>
    mem (vm_world vm2) a = b \<and>
    guest_view mem slat (vm_altp2m_idx vm2) (vm_world vm2) a = mem (vm_world vm) a"
proof -
  have 1: "vm_world vm1 = vm_world vm \<and> vm_altp2m_idx vm1 = vm_altp2m_idx vm \<and>
      vm_step vm1 = (vm_step vm)[e_vcpu ev := Some (Post_mem_cb \<lparr>pass_remapped = None, pass_traps = []\<rparr>)] \<and>
      e_vcpu ev < length (vm_step vm)"
    using pre tog by (auto simp: pre_mem_cb_def save_regs_def arm_step_def no_response_def Let_def
        result_simps split: if_splits option.splits)
  have 2: "vm_world vm2 = w' \<and> vm_altp2m_idx vm2 = vm_altp2m_idx vm \<and> rsp_slat rsp2 = Some (vm_altp2m_idx vm)"
    using post 1 by (auto simp: step_event_def post_mem_cb_def save_regs_def arm_step_def
        result_simps split: option.splits)
  have f: "r < 2 ^ 52" "shadow_of (vm_tm vm) r = None" using shadow_invD(2) [OF inv s] by auto
  have ne: "addr r (offset_of a) \<noteq> a"
    using addr_split(1) [OF f(1) offset_less, of a] f(2) s by (metis option.distinct(1))
  have "mem (vm_world vm) (addr r (offset_of a)) = mem (vm_world vm) a"
    using shadow_invD(3) [OF inv s offset_less [of a]] nt by simp
  then show ?thesis
    using 1 2 w ne shadow_invD(1) [OF inv, of "frame_of a"] s by (simp add: guest_view_def)
qed

end
