(* ===== verification/Hfm_Int3_Examples.thy ===== *)
theory Hfm_Int3_Examples
  imports Hfm_Int3
begin

text \<open>
  The event properties at concrete states: one page with a shadow, a trap at 0x1234 in it, and the
  memory \<open>ram_api\<close>. The callbacks leave no data for a return trap.
\<close>

definition quiet_cb :: "(unit, unit, ram) run_cb" where
  "quiet_cb cb p ev vm = Some (Inr (None, vm))"

lemma quiet_cb_frame: "cb_frame quiet_cb"
  by (simp add: cb_frame_def quiet_cb_def)

definition ev0 :: event_t where
  "ev0 = \<lparr>e_vcpu = 0, e_regs = \<lparr>r_cr3 = 0x1000, r_rsp = 0x2000\<rparr>, e_gfn = 1, e_offset = 0x234,
     e_insn_length = 1, e_write = True\<rparr>"

lemma ev0_simps [simp]:
  "e_vcpu ev0 = 0" "e_gfn ev0 = 1" "e_write ev0" "int3_pa ev0 = 0x1234"
  by (simp_all add: ev0_def int3_pa_def push_bit_eq_mult)

text \<open>Frame 16 is the shadow of frame 1; \<open>traps\<close> are the traps at 0x1234.\<close>

definition tm1 :: "tptr list \<Rightarrow> trapmngr_t" where
  "tm1 ts = \<lparr>remapped_tbl = [1 \<mapsto> \<lparr>rm_o = 1, rm_r = 16\<rparr>],
     breakpoint_tbl = (if ts = [] then Map.empty
       else [0x1234 \<mapsto> \<lparr>w_pa = 0x1234, w_doubletrap = 0, w_traps = ts\<rparr>]),
     breakpoint_gfn_tbl = (if ts = [] then Map.empty else [1 \<mapsto> ts]),
     memaccess_tbl = [1 \<mapsto> ()]\<rparr>"

definition ram1 :: ram where
  "ram1 = \<lparr>ram_mem = (\<lambda>_. 0x90), ram_slat = (\<lambda>idx f. if idx = 1 \<and> f = 1 then Some 16 else None),
     ram_next = 32, ram_fail = False\<rparr>"

definition vm1 :: "tptr list \<Rightarrow> (unit, unit, ram) vm_t" where
  "vm1 ts = (vm0 False)\<lparr>vm_tm := tm1 ts, vm_world := ram1,
     vm_heap := [2 \<mapsto> (trap_at 0x1234)\<lparr>self_destroy := True\<rparr>, 3 \<mapsto> trap_at 0x1234]\<rparr>"

lemma vm1_simps [simp]:
  "vm_tm (vm1 ts) = tm1 ts" "vm_world (vm1 ts) = ram1" "vm_altp2m_idx (vm1 ts) = 1"
  "vm_step (vm1 ts) = replicate 16 (Some Singlestep_cb)" "vm_regs (vm1 ts) = replicate 16 None"
  "vm_interrupted (vm1 ts) = 0"
  by (simp_all add: vm1_def vm0_def)

lemma vm1_ready: "cpu_ready 0 1 (vm1 ts)"
  by (simp add: cpu_ready_def)

lemma vm1_mem_access:
  obtains rsp vm' where "pre_mem_cb ev0 (vm1 ts) = Inr (rsp, vm')" and "rsp_toggle rsp"
    and "rsp_slat rsp = Some ORIGIN_IDX"
  by (auto simp: pre_mem_cb_def save_regs_def arm_step_def tm_find_memtrap_def tm1_def Let_def
      arr_set_def arr_get_def)

lemma vm1_stepping:
  obtains v vm' where "(vcpu_step ram_api quiet_cb fr 0)\<^sup>*\<^sup>* (\<lparr>v_slat = 1, v_singlestep = False\<rparr>, vm1 ts) (v, vm')"
    and "v_singlestep v"
proof -
  obtain rsp vm' where p: "pre_mem_cb ev0 (vm1 ts) = Inr (rsp, vm')" "rsp_toggle rsp"
    by (rule vm1_mem_access)
  have "vcpu_step ram_api quiet_cb fr 0 (\<lparr>v_slat = 1, v_singlestep = False\<rparr>, vm1 ts)
      (respond rsp \<lparr>v_slat = 1, v_singlestep = False\<rparr>, vm')"
    by (rule vcpu_step.Mem_access [where ev = ev0]) (use p in auto)
  moreover have "v_singlestep (respond rsp \<lparr>v_slat = 1, v_singlestep = False\<rparr>)"
    using p(2) by (simp add: respond_def)
  ultimately show ?thesis using that by blast
qed

theorem vcpu_view_invariant_witness:
  "\<exists>v vm'. (vcpu_step ram_api quiet_cb Undefined 0)\<^sup>*\<^sup>*
       (\<lparr>v_slat = 1, v_singlestep = False\<rparr>, vm1 []) (v, vm') \<and>
     v_singlestep v \<and> v_slat v = 0"
proof -
  obtain v vm' where "(vcpu_step ram_api quiet_cb Undefined 0)\<^sup>*\<^sup>*
       (\<lparr>v_slat = 1, v_singlestep = False\<rparr>, vm1 []) (v, vm')" "v_singlestep v"
    by (rule vm1_stepping)
  with vcpu_view_invariant [OF quiet_cb_frame vm1_ready] show ?thesis by (fastforce simp: ORIGIN_IDX_def)
qed

theorem vcpu_returns_to_shadow_witness:
  "\<exists>v (vm' :: (unit, unit, ram) vm_t) r vm''. v_singlestep v \<and> step_event ram_api ev0 vm' = Inr (r, vm'') \<and>
     respond r v = \<lparr>v_slat = 1, v_singlestep = False\<rparr>"
proof -
  obtain v vm' where s: "(vcpu_step ram_api quiet_cb Undefined 0)\<^sup>*\<^sup>*
       (\<lparr>v_slat = 1, v_singlestep = False\<rparr>, vm1 []) (v, vm')" and v: "v_singlestep v"
    by (rule vm1_stepping)
  from vcpu_returns_to_shadow [OF quiet_cb_frame vm1_ready s v, where ev = ev0] v
  show ?thesis by auto
qed

text \<open>The record of the original instructions.\<close>

theorem inject_trap_doubletrap_witness:
  "\<exists>vm'. inject_trap ram_api 2 (vm0 False) = Inr (True, vm') \<and>
     dt_inv ram_mem (vm_tm vm') (vm_world vm')"
proof -
  obtain vm' where i: "inject_trap ram_api 2 (vm0 False) = Inr (True, vm')" by (rule vm0_injected)
  have m: "injectable ram_used (vm0 False) (pa_of (vm_heap (vm0 False)) 2)"
    "shadow_made ram_api (vm0 False) (pa_of (vm_heap (vm0 False)) 2)"
    by (simp_all only: vm0_pa vm0_injectable vm0_made)
  have "dt_inv ram_mem (vm_tm (vm0 False)) (vm_world (vm0 False))"
    by (simp add: dt_inv_def vm0_def tm_init_def)
  from inject_trap_doubletrap [OF ram_api_laws vm0_inv m this i] i show ?thesis by blast
qed

lemma vm1_dt: "dt_inv ram_mem (tm1 ts) ram1"
  by (simp add: dt_inv_def tm1_def ram1_def INT3_CHAR_def)

lemma vm1_int3:
  obtains r vm' where "int3_cb ram_api quiet_cb Undefined ev0 (vm1 [3]) = Some (Inr (r, vm'))"
    and "vm_interrupted vm' \<noteq> - 1"
proof -
  define vm where "vm = (vm1 [3])\<lparr>vm_regs := (vm_regs (vm1 [3]))[0 := Some (e_regs ev0)]\<rparr>"
  have n: "int3_node ram_api quiet_cb ev0 0x1234 0 vm = Some (Inr (Some (False, vm)))"
    "int3_node ram_api quiet_cb ev0 0x1234 (Suc 0) vm = Some (Inr None)"
    by (simp_all add: int3_node_def tm_int3traps_at_pa_def tm1_def run_trap_cb_def read_trap_def
        vm1_def trap_at_def vm_def Let_def)
  have l: "int3_loop ram_api quiet_cb Undefined ev0 0x1234 (Suc 0) vm = Some (Inr vm)"
    by (subst int3_loop.simps) (simp add: n)
  have "int3_loop ram_api quiet_cb Undefined ev0 0x1234 0 vm = Some (Inr vm)"
    by (subst int3_loop.simps) (simp add: n l)
  then show ?thesis
    using that by (auto simp: vm_def int3_cb_def save_regs_def arr_set_def arr_get_def arm_step_def
        tm_int3traps_at_pa_def tm1_def tm_check_doubletrap_def Let_def)
qed


text \<open>Trap 2 destroys itself.\<close>

theorem int3_self_destroy_crash_witness:
  "int3_cb ram_api quiet_cb Undefined ev0 (vm1 [2]) = Some (Inl UseAfterFree)"
proof -
  let ?vm = "(vm1 [2])\<lparr>vm_regs := (vm_regs (vm1 [2]))[e_vcpu ev0 := Some (e_regs ev0)]\<rparr>"
  have cb: "run_trap_cb ram_api quiet_cb ev0 2 ?vm = Some (Inr ?vm)"
    by (simp add: run_trap_cb_def read_trap_def vm1_def trap_at_def)
  have h: "vm_heap ?vm 2 \<noteq> None" "pa_of (vm_heap ?vm) 2 = 0x1234"
    by (simp_all add: vm1_def pa_of_def trap_at_def)
  have "\<exists>vm2. drop_trap ram_api 2 ?vm = Inr vm2 \<and> vm_interrupted vm2 \<noteq> - 1"
    by (rule drop_ram) (simp_all only: h vm0_frame, simp_all add: tm1_def vm1_def vm0_def)
  then obtain vm2 where d: "drop_trap ram_api 2 ?vm = Inr vm2" by blast
  show ?thesis
    by (rule int3_self_destroy_crash [where ps = "[]" and t = "(trap_at 0x1234)\<lparr>self_destroy := True\<rparr>"
        and wr = "\<lparr>w_pa = 0x1234, w_doubletrap = 0, w_traps = [2]\<rparr>", OF _ _ _ cb _ _ d])
      (simp_all add: tm1_def vm1_def vm0_def trap_at_def)
qed

text \<open>The byte 0x33 that the guest writes at 0x1000 is not what it reads there afterwards.\<close>

lemma vm1_shadow_inv: "shadow_inv ram_mem ram_slat ram_used 1 (tm1 []) ram1"
  by (rule shadow_invI) (auto simp: tm1_def ram1_def ram_used_def shadow_of_def tm_trap_exist_def
      split: if_splits)

theorem guest_write_lost_witness:
  "\<exists>vm2 :: (unit, unit, ram) vm_t. ram_mem (vm_world vm2) 0x1000 = 0x33 \<and>
     guest_view ram_mem ram_slat (vm_altp2m_idx vm2) (vm_world vm2) 0x1000 = 0x90"
proof -
  obtain rsp vm' where p: "pre_mem_cb ev0 (vm1 []) = Inr (rsp, vm')" "rsp_toggle rsp"
    by (rule vm1_mem_access)
  let ?w = "(vm_world vm')\<lparr>ram_mem := (ram_mem (vm_world vm'))(0x1000 := 0x33)\<rparr>"
  have inv: "shadow_inv ram_mem ram_slat ram_used (vm_altp2m_idx (vm1 [])) (vm_tm (vm1 []))
      (vm_world (vm1 []))"
    using vm1_shadow_inv by simp
  have s: "shadow_of (vm_tm (vm1 [])) (frame_of 0x1000) = Some 16"
    "\<not> tm_trap_exist (vm_tm (vm1 [])) 0x1000"
    by (simp_all add: shadow_of_def tm1_def frame_of_def PAGE_OFFSET_BITS_def tm_trap_exist_def)
  have w: "ram_mem ?w = (ram_mem (vm_world vm'))(0x1000 := 0x33)" "ram_slat ?w = ram_slat (vm_world vm')"
    by simp_all
  have "cpu_ready 0 1 vm'" using pre_mem_cb_ready [OF vm1_ready ev0_simps(1) p(1)] by blast
  then have "cpu_ready 0 1 (vm'\<lparr>vm_world := ?w\<rparr>)" by (rule cpu_ready_same) simp
  from step_event_ready [OF this ev0_simps(1)]
  obtain rsp2 vm2 where st: "step_event ram_api ev0 (vm'\<lparr>vm_world := ?w\<rparr>) = Inr (rsp2, vm2)" by blast
  from guest_write_lost [OF inv s p w st refl] show ?thesis
    by (intro exI [of _ vm2]) (auto simp: ram1_def)
qed

end
