(* ===== verification/Log.thy ===== *)
theory Log
  imports CString
begin

text \<open>
  The logger (\<open>src/log.c\<close>): up to 20 entries, each a stream and a name, and messages filtered by
  level. What is written is kept as a list of lines with their streams. Whether a file can be
  opened, the text of the time and the formatted message are arguments.
\<close>

section \<open>Levels\<close>

datatype level_t = LV_FATAL | LV_ERROR | LV_WARN | LV_INFO | LV_DEBUG

fun level_num :: "level_t \<Rightarrow> nat" where
  "level_num LV_FATAL = 0"
| "level_num LV_ERROR = 1"
| "level_num LV_WARN = 2"
| "level_num LV_INFO = 3"
| "level_num LV_DEBUG = 4"

lemma level_num_inj: "level_num a = level_num b \<longleftrightarrow> a = b"
  by (cases a; cases b) simp_all

text \<open>Levels are compared as the numbers of the enumeration.\<close>

instantiation level_t :: linorder
begin

definition less_eq_level_t :: "level_t \<Rightarrow> level_t \<Rightarrow> bool" where
  "less_eq_level_t a b \<longleftrightarrow> level_num a \<le> level_num b"

definition less_level_t :: "level_t \<Rightarrow> level_t \<Rightarrow> bool" where
  "less_level_t a b \<longleftrightarrow> level_num a < level_num b"

instance
  by standard (auto simp: less_eq_level_t_def less_level_t_def level_num_inj)

end

definition str_level :: "level_t \<Rightarrow> string" where
  "str_level l = [''FATAL'', ''ERROR'', ''WARN'', ''INFO'', ''DEBUG''] ! level_num l"

section \<open>State\<close>

definition MAX_ENTRIES :: nat where "MAX_ENTRIES = 20"
definition MAINLOG :: string where "MAINLOG = ''hfm.log''"
definition MAINTHREAD :: string where "MAINTHREAD = ''MAIN THREAD''"

datatype logger_t = LOG_CONSOLE | LOG_TEXTFILE

datatype stream_t = Stdout | Log_file nat

text \<open>The two arrays are null pointers at the start and freed at the end.\<close>

datatype arrays_t = Null_arrays | Freed_arrays | Arrays "stream_t option list" "string list"

record log_t =
  lg_logger :: logger_t
  lg_dir :: string
  lg_level :: level_t
  lg_arrays :: arrays_t
  lg_count :: nat
  lg_opened :: nat
  lg_closed :: "nat list"
  lg_out :: "(stream_t \<times> string) list"

definition log_start :: log_t where
  "log_start = \<lparr>lg_logger = LOG_CONSOLE, lg_dir = [], lg_level = LV_ERROR, lg_arrays = Null_arrays,
     lg_count = 0, lg_opened = 0, lg_closed = [], lg_out = []\<rparr>"

definition get_arrays :: "log_t \<Rightarrow> (stream_t option list \<times> string list) result" where
  "get_arrays lg = (case lg_arrays lg of
     Null_arrays \<Rightarrow> Inl NullDeref | Freed_arrays \<Rightarrow> Inl UseAfterFree | Arrays fps names \<Rightarrow> Inr (fps, names))"

text \<open>\<open>sprintf\<close> into a buffer of 1024 bytes.\<close>

definition fits1024 :: "string \<Rightarrow> string result" where
  "fits1024 s = (if length s < 1024 then Inr s else Inl OutOfBounds)"

section \<open>Operations\<close>

text \<open>\<open>fopen\<close> of a path: a new stream, or a null pointer.\<close>

definition fopen_log :: "(string \<Rightarrow> bool) \<Rightarrow> string \<Rightarrow> log_t \<Rightarrow> stream_t option \<times> log_t" where
  "fopen_log can_open path lg =
     (if can_open path then (Some (Log_file (lg_opened lg)), lg\<lparr>lg_opened := lg_opened lg + 1\<rparr>)
      else (None, lg))"

definition log_init :: "(string \<Rightarrow> bool) \<Rightarrow> level_t \<Rightarrow> logger_t \<Rightarrow> string \<Rightarrow> log_t \<Rightarrow> log_t result" where
  "log_init can_open level log_type dir lg =
     (let lg = lg\<lparr>lg_logger := log_type, lg_level := level, lg_count := 1\<rparr>;
          fps = replicate MAX_ENTRIES None; names = replicate MAX_ENTRIES [] in
      case log_type of
        LOG_CONSOLE \<Rightarrow>
          Inr (lg\<lparr>lg_arrays := Arrays (fps[0 := Some Stdout]) (names[0 := MAINTHREAD])\<rparr>)
      | LOG_TEXTFILE \<Rightarrow>
          rbind (fits1024 (dir @ ''/'' @ MAINLOG)) (\<lambda>path.
            case fopen_log can_open path (lg\<lparr>lg_dir := dir\<rparr>) of (fp, lg) \<Rightarrow>
            Inr (lg\<lparr>lg_arrays := Arrays (fps[0 := fp]) names\<rparr>)))"

text \<open>
  \<open>_get_time\<close>: \<open>strftime\<close> of the local time with \<open>%Y-%m-%d %H:%M:%S\<close> into 26 bytes, which leaves
  them undefined when the text does not fit. The text is the argument \<open>time\<close> of the functions below.
\<close>

record tm_t =
  tm_year :: int
  tm_mon :: nat
  tm_mday :: nat
  tm_hour :: nat
  tm_min :: nat
  tm_sec :: nat

definition pad2 :: "nat \<Rightarrow> string" where
  "pad2 n = (if n < 10 then ''0'' else []) @ show_nat n"

definition get_time :: "tm_t \<Rightarrow> string result" where
  "get_time t =
     (let s = show_int (tm_year t + 1900) @ ''-'' @ pad2 (tm_mon t + 1) @ ''-'' @ pad2 (tm_mday t) @ '' '' @
        pad2 (tm_hour t) @ '':'' @ pad2 (tm_min t) @ '':'' @ pad2 (tm_sec t)
      in if length s < 26 then Inr s else Inl Uninitialised)"

text \<open>\<open>writelog\<close>; the id is an unsigned integer, so -1 is the largest one.\<close>

definition log_line :: "string \<Rightarrow> level_t \<Rightarrow> stream_t \<Rightarrow> string \<Rightarrow> string \<Rightarrow> string" where
  "log_line time level fp thread msg =
     time @ '' '' @ str_level level @ '' '' @
     (if fp = Stdout then ''['' @ thread @ ''] '' else []) @ msg @ [CHR 0x0A]"

definition writelog :: "string \<Rightarrow> u32 \<Rightarrow> level_t \<Rightarrow> string \<Rightarrow> log_t \<Rightarrow> log_t result" where
  "writelog time eid level msg lg =
     (if level > lg_level lg then Inr lg
      else rbind (get_arrays lg) (\<lambda>(fps, names).
           rbind (arr_get fps (uint eid)) (\<lambda>fp.
           rbind (arr_get names (uint eid)) (\<lambda>thread.
             let fp = (case fp of None \<Rightarrow> Stdout | Some fp \<Rightarrow> fp) in
             Inr (lg\<lparr>lg_out := lg_out lg @ [(fp, log_line time level fp thread msg)]\<rparr>)))))"

definition log_full_msg :: string where
  "log_full_msg = ''Number of log entry exceeds the maximum (20 entries)''"

definition log_add_entry :: "(string \<Rightarrow> bool) \<Rightarrow> string \<Rightarrow> string \<Rightarrow> log_t \<Rightarrow> (int \<times> log_t) result" where
  "log_add_entry can_open time name lg =
     (if lg_count lg \<ge> MAX_ENTRIES
      then rbind (writelog time 0 LV_WARN log_full_msg lg) (\<lambda>lg. Inr (- 1, lg))
      else rbind (get_arrays lg) (\<lambda>(fps, names).
           rbind (fits1024 name) (\<lambda>name.
           rbind (arr_set names (int (lg_count lg)) name) (\<lambda>names.
             case lg_logger lg of
               LOG_CONSOLE \<Rightarrow>
                 rbind (arr_set fps (int (lg_count lg)) (Some Stdout)) (\<lambda>fps.
                   Inr (int (lg_count lg), lg\<lparr>lg_arrays := Arrays fps names, lg_count := lg_count lg + 1\<rparr>))
             | LOG_TEXTFILE \<Rightarrow>
                 rbind (fits1024 (lg_dir lg @ ''/'' @ name @ ''.log'')) (\<lambda>path.
                   case fopen_log can_open path lg of (fp, lg) \<Rightarrow>
                   rbind (arr_set fps (int (lg_count lg)) fp) (\<lambda>fps.
                     let lg = lg\<lparr>lg_arrays := Arrays fps names\<rparr> in
                     if fp = None then Inr (- 1, lg)
                     else Inr (int (lg_count lg), lg\<lparr>lg_count := lg_count lg + 1\<rparr>)))))))"

text \<open>\<open>log_close\<close> closes the streams of the entries in use, except the standard output.\<close>

definition log_close :: "log_t \<Rightarrow> log_t result" where
  "log_close lg =
     rbind (if lg_count lg = 0 then Inr [] else map_sum id fst (get_arrays lg)) (\<lambda>fps.
       Inr (lg\<lparr>lg_closed := lg_closed lg @
                 List.map_filter (\<lambda>fp. case fp of Some (Log_file n) \<Rightarrow> Some n | _ \<Rightarrow> None)
                   (take (lg_count lg) fps),
               lg_arrays := Freed_arrays\<rparr>))"

section \<open>Properties\<close>

definition log_inv :: "log_t \<Rightarrow> bool" where
  "log_inv lg \<longleftrightarrow> (\<exists>fps names. lg_arrays lg = Arrays fps names \<and> length fps = MAX_ENTRIES \<and>
     length names = MAX_ENTRIES \<and> 1 \<le> lg_count lg \<and> lg_count lg \<le> MAX_ENTRIES \<and>
     (\<forall>i n. lg_count lg \<le> i \<longrightarrow> i < MAX_ENTRIES \<longrightarrow> fps ! i = Some (Log_file n) \<longrightarrow> False) \<and>
     (\<forall>i n. i < MAX_ENTRIES \<longrightarrow> fps ! i = Some (Log_file n) \<longrightarrow> n < lg_opened lg) \<and>
     (\<forall>n < lg_opened lg. \<exists>i < lg_count lg. fps ! i = Some (Log_file n)) \<and>
     (\<forall>i j n. i < MAX_ENTRIES \<longrightarrow> j < MAX_ENTRIES \<longrightarrow> fps ! i = Some (Log_file n) \<longrightarrow>
        fps ! j = Some (Log_file n) \<longrightarrow> i = j))"

text \<open>The stream and name of an entry.\<close>

definition log_entry :: "log_t \<Rightarrow> nat \<Rightarrow> stream_t \<times> string" where
  "log_entry lg i = (case lg_arrays lg of
     Arrays fps names \<Rightarrow> ((case fps ! i of None \<Rightarrow> Stdout | Some fp \<Rightarrow> fp), names ! i)
   | _ \<Rightarrow> (Stdout, []))"

definition write_all :: "(string \<times> u32 \<times> level_t \<times> string) list \<Rightarrow> log_t \<Rightarrow> log_t result" where
  "write_all = foldm (\<lambda>(t, i, l, m). writelog t i l m)"

lemma writelog_inv:
  assumes "log_inv lg" and "unat i < MAX_ENTRIES"
  shows "writelog t i l m lg = Inr (lg\<lparr>lg_out := lg_out lg @
    (if l \<le> lg_level lg then [(fst (log_entry lg (unat i)),
       log_line t l (fst (log_entry lg (unat i))) (snd (log_entry lg (unat i))) m)] else [])\<rparr>)"
proof -
  obtain fps names where ar: "lg_arrays lg = Arrays fps names" "length fps = MAX_ENTRIES"
    "length names = MAX_ENTRIES" using assms(1) by (auto simp: log_inv_def)
  have "uint i = int (unat i)" by simp
  then have g: "arr_get fps (uint i) = Inr (fps ! unat i)" "arr_get names (uint i) = Inr (names ! unat i)"
    using assms(2) ar by (simp_all only: arr_get_nat)
  show ?thesis
    by (simp add: writelog_def get_arrays_def ar g log_entry_def Let_def not_le not_less)
qed

text \<open>
  Messages for existing entries never fail; those whose level is enabled are written,
  each once, in their order and to the stream of their entry, and the others are dropped.
\<close>

theorem writelog_lines:
  assumes "log_inv lg" and "\<forall>(t, i, l, m) \<in> set msgs. unat i < MAX_ENTRIES"
  shows "write_all msgs lg = Inr (lg\<lparr>lg_out := lg_out lg @
    map (\<lambda>(t, i, l, m). (fst (log_entry lg (unat i)),
        log_line t l (fst (log_entry lg (unat i))) (snd (log_entry lg (unat i))) m))
      (filter (\<lambda>(t, i, l, m). l \<le> lg_level lg) msgs)\<rparr>)"
  using assms
proof (induction msgs arbitrary: lg)
  case (Cons x msgs)
  obtain t i l m where x: "x = (t, i, l, m)" by (cases x)
  let ?lg = "lg\<lparr>lg_out := lg_out lg @ (if l \<le> lg_level lg then [(fst (log_entry lg (unat i)),
       log_line t l (fst (log_entry lg (unat i))) (snd (log_entry lg (unat i))) m)] else [])\<rparr>"
  have w: "writelog t i l m lg = Inr ?lg" using Cons.prems by (intro writelog_inv) (auto simp: x)
  have inv: "log_inv ?lg" using Cons.prems(1) by (simp add: log_inv_def)
  have e: "log_entry ?lg = log_entry lg" by (simp add: log_entry_def fun_eq_iff)
  have "write_all msgs ?lg = Inr (?lg\<lparr>lg_out := lg_out ?lg @
    map (\<lambda>(t, i, l, m). (fst (log_entry ?lg (unat i)),
        log_line t l (fst (log_entry ?lg (unat i))) (snd (log_entry ?lg (unat i))) m))
      (filter (\<lambda>(t, i, l, m). l \<le> lg_level ?lg) msgs)\<rparr>)"
    by (rule Cons.IH [OF inv]) (use Cons.prems(2) in auto)
  then show ?case unfolding e by (simp add: write_all_def x w)
qed (simp add: write_all_def)

lemma MAX_ENTRIES_pos [simp]: "0 < MAX_ENTRIES" "Suc 0 \<le> MAX_ENTRIES"
  by (simp_all add: MAX_ENTRIES_def)

lemma stream_opt_cases:
  obtains "fp = None" | "fp = Some Stdout" | n where "fp = Some (Log_file n)"
  by (metis option.exhaust stream_t.exhaust)

lemma set_map_filter_eq: "set (List.map_filter f xs) = {y. \<exists>x \<in> set xs. f x = Some y}"
  by (induction xs) (auto simp: List.map_filter_simps split: option.splits)

lemma log_init_inv:
  assumes "lg_opened lg = 0" and "log_init f l ty dir lg = Inr lg'"
  shows "log_inv lg'"
proof -
  have fresh: "log_inv lg'" if "lg_arrays lg' = Arrays ((replicate MAX_ENTRIES None)[0 := fp]) names"
    "length names = MAX_ENTRIES" "lg_count lg' = 1"
    "lg_opened lg' = (case fp of Some (Log_file n) \<Rightarrow> 1 | _ \<Rightarrow> 0)"
    "\<And>n. fp = Some (Log_file n) \<Longrightarrow> n = 0" for fp names
    using that by (cases fp rule: stream_opt_cases) (auto simp: log_inv_def nth_list_update split: if_splits)
  show ?thesis
  proof (cases ty)
    case LOG_CONSOLE
    then have "lg' = lg\<lparr>lg_logger := ty, lg_level := l, lg_count := 1,
        lg_arrays := Arrays ((replicate MAX_ENTRIES None)[0 := Some Stdout])
          ((replicate MAX_ENTRIES [])[0 := MAINTHREAD])\<rparr>"
      using assms(2) by (simp add: log_init_def Let_def)
    then show ?thesis using assms(1) fresh [of "Some Stdout"] by simp
  next
    case LOG_TEXTFILE
    let ?lg = "lg\<lparr>lg_logger := ty, lg_level := l, lg_count := 1, lg_dir := dir\<rparr>"
    obtain fp lg1 where o: "fopen_log f (dir @ ''/'' @ MAINLOG) ?lg = (fp, lg1)" by fastforce
    then have "lg' = lg1\<lparr>lg_arrays := Arrays ((replicate MAX_ENTRIES None)[0 := fp]) (replicate MAX_ENTRIES [])\<rparr>"
      using assms(2) LOG_TEXTFILE by (auto simp: log_init_def Let_def fits1024_def split: if_splits)
    then show ?thesis
      using o assms(1) by (intro fresh) (auto simp: fopen_log_def split: if_splits)
  qed
qed

text \<open>A new entry keeps the invariant, with the standard output or with a new file.\<close>

lemma log_inv_add:
  assumes inv: "log_inv lg" and ar: "lg_arrays lg = Arrays fps names" and c: "lg_count lg < MAX_ENTRIES"
    and fp: "fp = Stdout \<and> m = lg_opened lg \<or> fp = Log_file (lg_opened lg) \<and> m = lg_opened lg + 1"
  shows "log_inv (lg\<lparr>lg_opened := m, lg_arrays := Arrays (fps[lg_count lg := Some fp])
    (names[lg_count lg := name]), lg_count := lg_count lg + 1\<rparr>)"
proof -
  let ?c = "lg_count lg" and ?f = "fps[lg_count lg := Some fp]"
  have old: "length fps = MAX_ENTRIES" "length names = MAX_ENTRIES"
    "\<And>i n. ?c \<le> i \<Longrightarrow> i < MAX_ENTRIES \<Longrightarrow> fps ! i \<noteq> Some (Log_file n)"
    "\<And>i n. i < MAX_ENTRIES \<Longrightarrow> fps ! i = Some (Log_file n) \<Longrightarrow> n < lg_opened lg"
    "\<And>n. n < lg_opened lg \<Longrightarrow> \<exists>i < ?c. fps ! i = Some (Log_file n)"
    "\<And>i j n. i < MAX_ENTRIES \<Longrightarrow> j < MAX_ENTRIES \<Longrightarrow> fps ! i = Some (Log_file n) \<Longrightarrow>
       fps ! j = Some (Log_file n) \<Longrightarrow> i = j"
    using inv ar by (auto simp: log_inv_def)
  have f: "?f ! i = (if i = ?c then Some fp else fps ! i)" for i using c old(1) by (simp add: nth_list_update)
  have "\<exists>i < Suc ?c. ?f ! i = Some (Log_file n)" if "n < m" for n
  proof (cases "n < lg_opened lg")
    case True
    then obtain i where "i < ?c" "fps ! i = Some (Log_file n)" using old(5) by blast
    then show ?thesis by (intro exI [of _ i]) (simp add: f)
  next
    case False
    then have "n = lg_opened lg" "fp = Log_file n" using that fp by auto
    then have "?f ! ?c = Some (Log_file n)" using f [of ?c] by simp
    then show ?thesis by blast
  qed
  moreover have "\<And>i n. Suc ?c \<le> i \<Longrightarrow> i < MAX_ENTRIES \<Longrightarrow> ?f ! i \<noteq> Some (Log_file n)"
    using old(3) by (simp add: f)
  moreover have "\<And>i n. i < MAX_ENTRIES \<Longrightarrow> ?f ! i = Some (Log_file n) \<Longrightarrow> n < m"
  proof -
    fix i n assume i: "i < MAX_ENTRIES" "?f ! i = Some (Log_file n)"
    show "n < m"
    proof (cases "i = ?c")
      case True
      then show ?thesis using i fp f [of i] by auto
    next
      case False
      then have "n < lg_opened lg" using old(4) i f [of i] by auto
      then show ?thesis using fp by auto
    qed
  qed
  moreover have "i = j" if "i < MAX_ENTRIES" "j < MAX_ENTRIES" "?f ! i = Some (Log_file n)"
    "?f ! j = Some (Log_file n)" for i j n
    using that old(4) [of i n] old(4) [of j n] old(6) [of i j n] fp
    unfolding f by (auto split: if_splits)
  ultimately show ?thesis using c old(1,2) unfolding log_inv_def by simp
qed

lemma log_inv_name: "log_inv lg \<Longrightarrow> lg_arrays lg = Arrays fps names \<Longrightarrow> lg_count lg < MAX_ENTRIES \<Longrightarrow>
    log_inv (lg\<lparr>lg_arrays := Arrays (fps[lg_count lg := None]) (names[lg_count lg := name])\<rparr>)"
proof -
  let ?c = "lg_count lg" and ?f = "fps[lg_count lg := None]"
  assume inv: "log_inv lg" and ar: "lg_arrays lg = Arrays fps names" and c: "?c < MAX_ENTRIES"
  have f: "?f ! i = Some (Log_file n) \<longleftrightarrow> fps ! i = Some (Log_file n)" if "i < MAX_ENTRIES" for i n
    using inv ar c that by (cases "i = ?c") (auto simp: log_inv_def)
  have g: "?f ! i = fps ! i" if "i < ?c" for i using that by simp
  have "\<forall>n < lg_opened lg. \<exists>i < ?c. fps ! i = Some (Log_file n)"
    using inv ar by (simp add: log_inv_def)
  then have "\<forall>n < lg_opened lg. \<exists>i < ?c. ?f ! i = Some (Log_file n)" using g by metis
  then show "log_inv (lg\<lparr>lg_arrays := Arrays ?f (names[?c := name])\<rparr>)"
    using inv ar f unfolding log_inv_def by simp
qed

lemma log_add_entry_inv:
  assumes inv: "log_inv lg" and a: "log_add_entry f t name lg = Inr (r, lg')"
  shows "log_inv lg'" and "r = - 1 \<or> r = int (lg_count lg) \<and> lg_count lg < MAX_ENTRIES"
proof -
  have "log_inv lg' \<and> (r = - 1 \<or> r = int (lg_count lg) \<and> lg_count lg < MAX_ENTRIES)"
  proof (cases "lg_count lg \<ge> MAX_ENTRIES")
    case True
    have w: "writelog t 0 LV_WARN log_full_msg lg = Inr (lg\<lparr>lg_out := lg_out lg @
      (if LV_WARN \<le> lg_level lg then [(fst (log_entry lg 0),
       log_line t LV_WARN (fst (log_entry lg 0)) (snd (log_entry lg 0)) log_full_msg)] else [])\<rparr>)"
      using writelog_inv [OF inv, of 0] by (simp add: MAX_ENTRIES_def)
    then have "r = - 1" "\<exists>out. lg' = lg\<lparr>lg_out := out\<rparr>"
      using a True by (auto simp: log_add_entry_def)
    then show ?thesis using inv by (auto simp: log_inv_def)
  next
    case False
    obtain fps names where ar: "lg_arrays lg = Arrays fps names" "length fps = MAX_ENTRIES"
      "length names = MAX_ENTRIES" using inv by (auto simp: log_inv_def)
    show ?thesis
    proof (cases "lg_logger lg")
      case LOG_CONSOLE
      then have "lg' = lg\<lparr>lg_arrays := Arrays (fps[lg_count lg := Some Stdout]) (names[lg_count lg := name]),
          lg_count := lg_count lg + 1\<rparr>" "r = int (lg_count lg)"
        using a False ar
        by (auto simp: log_add_entry_def get_arrays_def fits1024_def result_simps split: if_splits)
      then show ?thesis
        using log_inv_add [OF inv ar(1), of Stdout "lg_opened lg" name] False by simp
    next
      case LOG_TEXTFILE
      obtain fp lg1 where o: "fopen_log f (lg_dir lg @ ''/'' @ name @ ''.log'') lg = (fp, lg1)" by fastforce
      then have r: "lg' = (if fp = None then lg1\<lparr>lg_arrays := Arrays (fps[lg_count lg := None]) (names[lg_count lg := name])\<rparr>
          else lg1\<lparr>lg_arrays := Arrays (fps[lg_count lg := fp]) (names[lg_count lg := name]),
            lg_count := lg_count lg + 1\<rparr>)" "r = (if fp = None then - 1 else int (lg_count lg))"
        using a False ar LOG_TEXTFILE
        by (auto simp: log_add_entry_def get_arrays_def fits1024_def result_simps fopen_log_def Let_def
            split: if_splits)
      have l1: "fp = None \<and> lg1 = lg \<or> fp = Some (Log_file (lg_opened lg)) \<and> lg1 = lg\<lparr>lg_opened := lg_opened lg + 1\<rparr>"
        using o by (auto simp: fopen_log_def split: if_splits)
      from l1 show ?thesis
      proof (elim disjE conjE)
        assume "fp = None" "lg1 = lg"
        then show ?thesis using r log_inv_name [OF inv ar(1)] False by simp
      next
        assume "fp = Some (Log_file (lg_opened lg))" "lg1 = lg\<lparr>lg_opened := lg_opened lg + 1\<rparr>"
        then show ?thesis
          using r log_inv_add [OF inv ar(1), of "Log_file (lg_opened lg)" "lg_opened lg + 1" name] False
          by simp
      qed
    qed
  qed
  then show "log_inv lg'" "r = - 1 \<or> r = int (lg_count lg) \<and> lg_count lg < MAX_ENTRIES" by auto
qed

text \<open>Adding entries one after the other; the ids are dropped.\<close>

definition log_add_entries :: "(string \<Rightarrow> bool) \<Rightarrow> string \<Rightarrow> string list \<Rightarrow> log_t \<Rightarrow> log_t result" where
  "log_add_entries f t = foldm (\<lambda>n lg. map_sum id snd (log_add_entry f t n lg))"

lemma log_add_entries_inv:
  "log_inv lg \<Longrightarrow> log_add_entries f t ns lg = Inr lg' \<Longrightarrow> log_inv lg'"
proof (induction ns arbitrary: lg)
  case (Cons n ns)
  then obtain r lg1 where "log_add_entry f t n lg = Inr (r, lg1)" "log_add_entries f t ns lg1 = Inr lg'"
    by (cases "log_add_entry f t n lg") (auto simp: log_add_entries_def)
  then show ?case using Cons.IH log_add_entry_inv(1) [OF Cons.prems(1)] by blast
qed (simp add: log_add_entries_def)

lemma map_filter_distinct:
  assumes "\<And>i j n. i < length xs \<Longrightarrow> j < length xs \<Longrightarrow> f (xs ! i) = Some n \<Longrightarrow> f (xs ! j) = Some n \<Longrightarrow> i = j"
  shows "distinct (List.map_filter f xs)"
  using assms
proof (induction xs)
  case (Cons x xs)
  have "distinct (List.map_filter f xs)"
    by (rule Cons.IH) (use Cons.prems [of "Suc _" "Suc _"] in auto)
  moreover have "n \<notin> set (List.map_filter f xs)" if n: "f x = Some n" for n
  proof
    assume "n \<in> set (List.map_filter f xs)"
    then obtain j where "j < length xs" "f (xs ! j) = Some n"
      by (auto simp: List.map_filter_def in_set_conv_nth)
    then show False using Cons.prems [of 0 "Suc j" n] n by simp
  qed
  ultimately show ?case by (simp add: List.map_filter_simps split: option.split)
qed (simp add: List.map_filter_simps)

text \<open>
  Starting the logger, adding entries and closing it closes every file that was
  opened, and each exactly once.
\<close>

theorem log_close_closes_all:
  assumes "log_init f l ty dir log_start = Inr lg0" and "log_add_entries f t names lg0 = Inr lg"
  shows "\<exists>lg'. log_close lg = Inr lg' \<and> distinct (lg_closed lg') \<and> set (lg_closed lg') = {..< lg_opened lg}"
proof -
  have "log_inv lg0" by (rule log_init_inv [OF _ assms(1)]) (simp add: log_start_def)
  then have inv: "log_inv lg" by (rule log_add_entries_inv [OF _ assms(2)])
  then obtain fps ns where ar: "lg_arrays lg = Arrays fps ns" "length fps = MAX_ENTRIES"
    and c: "1 \<le> lg_count lg" "lg_count lg \<le> MAX_ENTRIES" by (auto simp: log_inv_def)
  have closed0: "lg_closed lg0 = []"
    using assms(1) by (auto simp: log_init_def Let_def fopen_log_def result_simps log_start_def
        split: logger_t.splits if_splits)
  have keep: "lg_closed x' = lg_closed x" if "log_add_entry f t n x = Inr (r, x')" for n x r x'
    using that by (cases "lg_logger x") (auto simp: log_add_entry_def writelog_def Let_def
        fopen_log_def result_simps split: if_splits)
  have "log_add_entries f t names lg1 = Inr lg \<Longrightarrow> lg_closed lg = lg_closed lg1" for lg1
  proof (induction names arbitrary: lg1)
    case (Cons n ns)
    then obtain r x where "log_add_entry f t n lg1 = Inr (r, x)" "log_add_entries f t ns x = Inr lg"
      by (cases "log_add_entry f t n lg1") (auto simp: log_add_entries_def)
    then show ?case using Cons.IH keep by metis
  qed (simp add: log_add_entries_def)
  then have closed: "lg_closed lg = []" using assms(2) closed0 by simp
  let ?g = "\<lambda>fp. case fp of Some (Log_file n) \<Rightarrow> Some n | _ \<Rightarrow> None"
  let ?xs = "take (lg_count lg) fps"
  have g: "?g fp = Some n \<longleftrightarrow> fp = Some (Log_file n)" for fp n
    by (auto split: option.splits stream_t.splits)
  have lc: "log_close lg = Inr (lg\<lparr>lg_closed := List.map_filter ?g ?xs, lg_arrays := Freed_arrays\<rparr>)"
    using c ar by (simp add: log_close_def get_arrays_def closed)
  have "distinct (List.map_filter ?g ?xs)"
    by (rule map_filter_distinct) (use inv ar c g in \<open>auto simp: log_inv_def\<close>)
  moreover have "set (List.map_filter ?g ?xs) = {..< lg_opened lg}"
  proof -
    have "set (List.map_filter ?g ?xs) = {n. \<exists>i < lg_count lg. fps ! i = Some (Log_file n)}"
      using c ar by (force simp: set_map_filter_eq g in_set_conv_nth)
    moreover have "n < lg_opened lg" if "i < lg_count lg" "fps ! i = Some (Log_file n)" for i n
    proof -
      have "i < MAX_ENTRIES" using that(1) c by simp
      then show ?thesis using inv ar that(2) unfolding log_inv_def by auto
    qed
    moreover have "\<exists>i < lg_count lg. fps ! i = Some (Log_file n)" if "n < lg_opened lg" for n
      using inv ar that by (simp add: log_inv_def)
    ultimately show ?thesis by blast
  qed
  ultimately show ?thesis using lc by simp
qed

text \<open>
  Entry 21 gets the id -1, and a message under this id reads far behind the array of
  streams as soon as its level is enabled.
\<close>

theorem log_entry_overflow:
  assumes "log_inv lg" and "lg_count lg = MAX_ENTRIES" and "l \<le> lg_level lg"
  shows "\<exists>lg'. log_add_entry f t name lg = Inr (- 1, lg') \<and>
    writelog t2 (word_of_int (- 1)) l msg lg' = Inl OutOfBounds"
proof -
  obtain out where a: "log_add_entry f t name lg = Inr (- 1, lg\<lparr>lg_out := out\<rparr>)"
    using writelog_inv [OF assms(1), of 0 t LV_WARN log_full_msg] assms(2)
    by (auto simp: log_add_entry_def MAX_ENTRIES_def)
  have "uint (- 1 :: u32) = 2 ^ 32 - 1" by (simp add: unsigned_minus_1_eq_mask mask_eq_exp_minus_1)
  then have "writelog t2 (word_of_int (- 1)) l msg (lg\<lparr>lg_out := out\<rparr>) = Inl OutOfBounds"
    using assms by (auto simp: writelog_def log_inv_def get_arrays_def arr_get_def MAX_ENTRIES_def)
  then show ?thesis using a by blast
qed

text \<open>The comment in \<open>writelog\<close> says it works without \<open>log_init\<close>; it reads a null pointer.\<close>

lemma writelog_without_init: "writelog t i LV_ERROR m log_start = Inl NullDeref"
  by (simp add: writelog_def log_start_def get_arrays_def)

section \<open>Concrete logs\<close>

theorem writelog_lines_witness:
  "\<exists>lg lg'. log_init (\<lambda>_. True) LV_WARN LOG_CONSOLE [] log_start = Inr lg \<and>
     write_all [(''12:00'', 0, LV_DEBUG, ''quiet''), (''12:01'', 0, LV_ERROR, ''loud'')] lg = Inr lg' \<and>
     lg_out lg' = [(Stdout, ''12:01 ERROR [MAIN THREAD] loud'' @ [CHR 0x0A])]"
proof -
  obtain lg where i: "log_init (\<lambda>_. True) LV_WARN LOG_CONSOLE [] log_start = Inr lg"
    by (simp add: log_init_def Let_def)
  then have inv: "log_inv lg" by (intro log_init_inv) (simp_all add: log_start_def)
  have e: "log_entry lg 0 = (Stdout, ''MAIN THREAD'')" "lg_level lg = LV_WARN" "lg_out lg = []"
    using i by (auto simp: log_init_def Let_def log_entry_def MAINTHREAD_def MAX_ENTRIES_def log_start_def)
  have "write_all [(''12:00'', 0, LV_DEBUG, ''quiet''), (''12:01'', 0, LV_ERROR, ''loud'')] lg =
      Inr (lg\<lparr>lg_out := [(Stdout, log_line ''12:01'' LV_ERROR Stdout ''MAIN THREAD'' ''loud'')]\<rparr>)"
    using writelog_lines [OF inv, of "[(''12:00'', 0, LV_DEBUG, ''quiet''), (''12:01'', 0, LV_ERROR, ''loud'')]"]
    by (simp add: e MAX_ENTRIES_def less_eq_level_t_def)
  then show ?thesis using i by (intro exI conjI) (auto simp: log_line_def str_level_def)
qed

theorem log_close_closes_all_witness:
  "\<exists>lg0 lg lg'. log_init (\<lambda>_. True) LV_WARN LOG_TEXTFILE ''/var/log'' log_start = Inr lg0 \<and>
     log_add_entries (\<lambda>_. True) ''12:00'' [''win7''] lg0 = Inr lg \<and> lg_opened lg = 2 \<and>
     log_close lg = Inr lg' \<and> set (lg_closed lg') = {0, 1}"
proof -
  let ?lg0 = "log_start\<lparr>lg_logger := LOG_TEXTFILE, lg_level := LV_WARN, lg_count := 1, lg_dir := ''/var/log'',
    lg_opened := 1, lg_arrays := Arrays ((replicate MAX_ENTRIES None)[0 := Some (Log_file 0)])
      (replicate MAX_ENTRIES [])\<rparr>"
  have 0: "log_init (\<lambda>_. True) LV_WARN LOG_TEXTFILE ''/var/log'' log_start = Inr ?lg0"
    by (simp add: log_init_def Let_def fits1024_def fopen_log_def MAINLOG_def log_start_def)
  obtain lg where 1: "log_add_entries (\<lambda>_. True) ''12:00'' [''win7''] ?lg0 = Inr lg" "lg_opened lg = 2"
    by (simp add: log_add_entries_def log_add_entry_def get_arrays_def fits1024_def arr_set_def
        MAX_ENTRIES_def fopen_log_def Let_def)
  from log_close_closes_all [OF 0 1(1)] 0 1 show ?thesis
    by (auto simp: lessThan_Suc numeral_2_eq_2)
qed

definition full_log :: log_t where
  "full_log = log_start\<lparr>lg_count := MAX_ENTRIES,
     lg_arrays := Arrays (replicate MAX_ENTRIES (Some Stdout)) (replicate MAX_ENTRIES [])\<rparr>"

theorem log_entry_overflow_witness:
  "\<exists>lg'. log_add_entry (\<lambda>_. True) ''12:00'' ''win7'' full_log = Inr (- 1, lg') \<and>
     writelog ''12:01'' (word_of_int (- 1)) LV_ERROR ''failed'' lg' = Inl OutOfBounds"
  by (rule log_entry_overflow) (simp_all add: full_log_def log_inv_def log_start_def)

section \<open>The text of the time\<close>

lemma show_nat_length: "n < 10 ^ Suc k \<Longrightarrow> length (show_nat n) \<le> Suc k"
proof (induction k arbitrary: n)
  case 0
  then show ?case by (simp add: show_nat.simps)
next
  case (Suc k)
  then have "n div 10 < 10 ^ Suc k" by (simp add: less_mult_imp_div_less)
  from Suc.IH [OF this] show ?case by (subst show_nat.simps) simp
qed

lemma pad2_length: "n < 100 \<Longrightarrow> length (pad2 n) = 2"
  using show_nat_length [of n 1] by (auto simp: pad2_def show_nat.simps [of n] show_nat.simps [of "n div 10"])

text \<open>The buffer holds the text for every year that fits in an \<open>int\<close>, from year 0 on.\<close>

theorem get_time_fits:
  assumes "0 \<le> tm_year t + 1900" and "tm_year t < 2 ^ 31" and "tm_mon t < 12" and "tm_mday t \<le> 31"
    and "tm_hour t < 24" and "tm_min t < 60" and "tm_sec t \<le> 60"
  shows "\<exists>s. get_time t = Inr s \<and> length s < 26"
proof -
  have "nat (tm_year t + 1900) < 10 ^ Suc 9" using assms(1,2) by simp
  from show_nat_length [OF this] have "length (show_int (tm_year t + 1900)) \<le> 10"
    using assms(1) by (simp add: show_int_def)
  then show ?thesis using assms(3-) by (simp add: get_time_def Let_def pad2_length)
qed

theorem get_time_fits_witness:
  "get_time \<lparr>tm_year = 117, tm_mon = 4, tm_mday = 24, tm_hour = 9, tm_min = 5, tm_sec = 0\<rparr> = Inr ''2017-05-24 09:05:00''"
  by code_simp

end
