(* ===== verification/Config.thy ===== *)
theory Config
  imports CString
begin

text \<open>
  The configuration (\<open>src/config.c\<close>): a table of strings filled from a key file. GLib's parser is
  not part of the repository: what it finds in the file is the argument \<open>keyfile\<close>, a list of
  groups with their keys, or \<open>None\<close> when the file cannot be loaded. A group whose keys cannot be
  listed and a key whose value cannot be read are \<open>None\<close> as well.
\<close>

type_synonym config_t = "string \<Rightarrow> string option"

type_synonym keyfile = "(string \<times> string option) list option list"

fun config_keys :: "(string \<times> string option) list \<Rightarrow> config_t \<Rightarrow> config_t" where
  "config_keys [] c = c"
| "config_keys ((k, v) # ks) c =
     (case v of None \<Rightarrow> config_keys ks c | Some value \<Rightarrow> config_keys ks (c(k \<mapsto> value)))"

fun config_groups :: "keyfile \<Rightarrow> config_t \<Rightarrow> config_t" where
  "config_groups [] c = c"
| "config_groups (None # gs) c = config_groups gs c"
| "config_groups (Some keys # gs) c = config_groups gs (config_keys keys c)"

definition config_init :: "keyfile option \<Rightarrow> config_t" where
  "config_init file = (case file of None \<Rightarrow> Map.empty | Some groups \<Rightarrow> config_groups groups Map.empty)"

definition config_get_int :: "config_t \<Rightarrow> string \<Rightarrow> int" where
  "config_get_int cfg key = (case cfg key of None \<Rightarrow> - 1 | Some value \<Rightarrow> atoi value)"

definition config_get_str :: "config_t \<Rightarrow> string \<Rightarrow> string option" where
  "config_get_str cfg key = cfg key"

definition config_set_str :: "config_t \<Rightarrow> string \<Rightarrow> string \<Rightarrow> config_t" where
  "config_set_str cfg key value = cfg(key \<mapsto> value)"

definition config_set_int :: "config_t \<Rightarrow> string \<Rightarrow> int \<Rightarrow> config_t" where
  "config_set_int cfg key value = cfg(key \<mapsto> show_int value)"

section \<open>Properties\<close>

text \<open>All readable settings of the file, in order.\<close>

definition settings :: "keyfile \<Rightarrow> (string \<times> string) list" where
  "settings groups = concat (map (\<lambda>g. case g of None \<Rightarrow> []
     | Some keys \<Rightarrow> List.map_filter (\<lambda>(k, v). map_option (Pair k) v) keys) groups)"

lemma config_keys_settings:
  "config_keys keys c = c ++ map_of (rev (List.map_filter (\<lambda>(k, v). map_option (Pair k) v) keys))"
proof (induction keys c rule: config_keys.induct)
  case (2 k v ks c)
  show ?case
  proof (cases v)
    case None
    then show ?thesis using 2(1) by (simp add: List.map_filter_simps)
  next
    case (Some a)
    from 2(2) [OF this] show ?thesis by (simp add: Some List.map_filter_simps del: fun_upd_apply)
  qed
qed (simp add: List.map_filter_simps)

lemma config_groups_settings: "config_groups groups c = c ++ map_of (rev (settings groups))"
  by (induction groups c rule: config_groups.induct)
    (simp_all add: settings_def config_keys_settings)

text \<open>
  A key has the value of the last group that sets it, whatever the groups are called;
  settings that cannot be read do not count.
\<close>

theorem config_last_setting:
  "config_get_str (config_init file) key =
     (case file of None \<Rightarrow> None | Some groups \<Rightarrow> map_of (rev (settings groups)) key)"
  by (simp add: config_get_str_def config_init_def config_groups_settings split: option.split)

text \<open>
  Writing an integer of the C type \<open>int\<close> and reading it gives it back, and leaves the
  other keys alone.
\<close>

theorem config_int_roundtrip:
  assumes "- (2 ^ 31) \<le> v" and "v < 2 ^ 31"
  shows "config_get_int (config_set_int cfg key v) k = (if k = key then v else config_get_int cfg k)"
  using atoi_show_int [OF assms] by (simp add: config_get_int_def config_set_int_def)

theorem config_int_roundtrip_witness:
  "config_get_int (config_set_int Map.empty ''auto-restart'' (- 12)) ''auto-restart'' = - 12"
  by (subst config_int_roundtrip) simp_all

end
