(* ===== verification/Outputs.thy ===== *)
theory Outputs
  imports CString
begin

text \<open>
  The outputs of the monitor (\<open>src/outputs/console.c\<close>, \<open>csv.c\<close>, \<open>es.c\<close> and \<open>out_write\<close> of
  \<open>output_format.c\<close>): the text each of them writes for a record. Opening and closing an output is
  in \<open>Lifecycle\<close>. What is written is a list of \<open>written\<close> items; the Elasticsearch client gets
  the query as its last argument.
\<close>

datatype output_type_t = OUT_CONSOLE | OUT_CSV | OUT_ELASTICSEARCH

text \<open>The field \<open>time\<close> is never written nor read.\<close>

record output_info_t =
  oi_time_sec :: u32
  oi_time_usec :: u32
  oi_pid :: int
  oi_vmid :: int
  oi_policy_id :: int
  oi_action :: int
  oi_sid :: string
  oi_data :: string
  oi_filepath :: string
  oi_extpath :: string

text \<open>\<open>ou_fp\<close> says whether the CSV file could be opened.\<close>

record output_t =
  ou_type :: output_type_t
  ou_fp :: bool
  ou_es_type :: string

datatype written = Console_line string | Csv_line string | Es_insert string string string

definition OUT_LF :: char where "OUT_LF = CHR 0x0A"

definition show_u32 :: "u32 \<Rightarrow> string" where
  "show_u32 n = show_nat (unat n)"

section \<open>Console and CSV\<close>

definition console_line :: "output_info_t \<Rightarrow> string" where
  "console_line info =
     ''time_sec : '' @ show_u32 (oi_time_sec info) @ '', time_usec : '' @ show_u32 (oi_time_usec info) @
     '', pid : '' @ show_int (oi_pid info) @ '', sid : '' @ oi_sid info @
     '', vmid : '' @ show_int (oi_vmid info) @ '', policy_id : '' @ show_int (oi_policy_id info) @
     '', action : '' @ show_int (oi_action info) @ '', filepath : '' @ oi_filepath info @
     '', extpath : '' @ oi_extpath info @ '', data : '' @ oi_data info @ [OUT_LF]"

definition out_console_write :: "output_t \<Rightarrow> output_info_t \<Rightarrow> written list" where
  "out_console_write output info = [Console_line (console_line info)]"

definition csv_line :: "output_info_t \<Rightarrow> string" where
  "csv_line info =
     show_u32 (oi_time_sec info) @ '','' @ show_u32 (oi_time_usec info) @ '','' @ show_int (oi_pid info) @
     '','' @ oi_sid info @ '','' @ show_int (oi_vmid info) @ '','' @ show_int (oi_policy_id info) @ '','' @
     show_int (oi_action info) @ '','' @ oi_filepath info @ '','' @ oi_extpath info @ '','' @ oi_data info @ [OUT_LF]"

definition out_csv_write :: "output_t \<Rightarrow> output_info_t \<Rightarrow> written list" where
  "out_csv_write output info = (if ou_fp output then [Csv_line (csv_line info)] else [])"

section \<open>Elasticsearch\<close>

definition BACKSLASH :: char where "BACKSLASH = CHR 0x5C"
definition QUOTE :: char where "QUOTE = CHR 0x22"

text \<open>
  \<open>_escape\<close>: \<open>n\<close> is the number of characters read, \<open>dest\<close> what was written to the destination of
  \<open>cap\<close> bytes so far. The character at which the loop stops is copied as well.
\<close>

definition put_char :: "nat \<Rightarrow> char list \<Rightarrow> char \<Rightarrow> char list result" where
  "put_char cap dest c = (if length dest < cap then Inr (dest @ [c]) else Inl OutOfBounds)"

fun escape_loop :: "nat \<Rightarrow> nat \<Rightarrow> nat \<Rightarrow> string \<Rightarrow> char list \<Rightarrow> char list result" where
  "escape_loop cap maxlen n [] dest = put_char cap dest NUL"
| "escape_loop cap maxlen n (c # source) dest =
     (if \<not> n < maxlen then put_char cap dest c
      else if c = BACKSLASH then
        rbind (put_char cap dest BACKSLASH) (\<lambda>dest.
        rbind (put_char cap dest BACKSLASH) (\<lambda>dest. escape_loop cap maxlen (n + 1) source dest))
      else rbind (put_char cap dest c) (\<lambda>dest. escape_loop cap maxlen (n + 1) source dest))"

definition escape :: "nat \<Rightarrow> string \<Rightarrow> nat \<Rightarrow> char list result" where
  "escape cap source maxlen = escape_loop cap maxlen 0 source []"

text \<open>One member of the query, \<open>"name" : "value"\<close>, and the gap up to the next one.\<close>

definition json_member :: "string \<Rightarrow> string \<Rightarrow> string" where
  "json_member name value = [QUOTE] @ name @ [QUOTE] @ '' : '' @ [QUOTE] @ value @ [QUOTE]"

definition json_gap :: "nat \<Rightarrow> string" where
  "json_gap n = '','' @ replicate n (CHR '' '')"

definition es_text :: "output_info_t \<Rightarrow> string \<Rightarrow> string" where
  "es_text info path_escaped =
     ''{'' @ json_member ''time_sec'' (show_u32 (oi_time_sec info)) @ json_gap 26 @
     json_member ''time_usec'' (show_u32 (oi_time_usec info)) @ json_gap 33 @
     json_member ''pid'' (show_int (oi_pid info)) @ json_gap 39 @
     json_member ''sid'' (oi_sid info) @ json_gap 39 @
     json_member ''vmid'' (show_int (oi_vmid info)) @ json_gap 38 @
     json_member ''policy_id'' (show_int (oi_policy_id info)) @ json_gap 33 @
     json_member ''action'' (show_int (oi_action info)) @ json_gap 36 @
     json_member ''filepath'' path_escaped @ json_gap 34 @
     json_member ''extpath'' (oi_extpath info) @ json_gap 35 @
     json_member ''data'' (oi_data info) @ ''}''"

definition es_query :: "output_info_t \<Rightarrow> string \<Rightarrow> string" where
  "es_query info path_escaped = take 2047 (es_text info path_escaped)"

definition out_es_write :: "output_t \<Rightarrow> output_info_t \<Rightarrow> written list result" where
  "out_es_write output info =
     rbind (escape 1024 (oi_filepath info) 1024) (\<lambda>path_escaped.
     rbind (read_str path_escaped) (\<lambda>path_escaped.
       Inr [Es_insert ''hfm'' (ou_es_type output) (es_query info path_escaped)]))"

section \<open>Dispatch\<close>

definition out_write :: "output_t \<Rightarrow> output_info_t \<Rightarrow> written list result" where
  "out_write out info = (case ou_type out of
       OUT_CONSOLE \<Rightarrow> Inr (out_console_write out info)
     | OUT_CSV \<Rightarrow> Inr (out_csv_write out info)
     | OUT_ELASTICSEARCH \<Rightarrow> out_es_write out info)"

end
