(* ===== verification/Lifecycle.thy ===== *)
theory Lifecycle
  imports Log Config Trapmngr Outputs
begin

text \<open>
  The life of a virtual machine handler (\<open>src/hfm.c\<close>: \<open>hfm_init\<close>, \<open>hfm_close\<close>,
  \<open>hfm_restart_vmi\<close> and their helpers; \<open>src/xen_helper.c\<close>: opening and closing the interface;
  \<open>src/outputs/output_format.c\<close>: \<open>out_init\<close>, \<open>out_close\<close>). The handler's state lists the
  resources that are held; using or releasing one that is not held is undefined behaviour. What
  the libraries answer is the record \<open>hfm_env\<close>.
\<close>

section \<open>State\<close>

datatype resource = Xc | Xl_ctx | Vmi | Altp2m_view | Trap_manager | Output

record xen_interface_t =
  xi_xc :: bool
  xi_ctx :: bool
  xi_domID :: u16



text \<open>
  \<open>vh_held\<close>: the resources held; \<open>vh_shadows\<close>: some frame of the trap manager has a shadow;
  \<open>vh_steps\<close>: the step events that are allocated.
\<close>

record vmhdlr_t =
  vh_name :: string
  vh_logid :: int
  vh_xen :: "xen_interface_t option"
  vh_domid :: int
  vh_vcpus :: u32
  vh_memsize :: u32
  vh_steps :: nat
  vh_out :: "output_type_t option"
  vh_init_flags :: "bool list"
  vh_shadows :: bool
  vh_held :: "resource list"
  vh_log :: log_t

record hfm_env =
  he_time :: string
  he_xc_open :: bool
  he_ctx_alloc :: bool
  he_name_to_domid :: "u32 option"
  he_vmi_init :: bool
  he_paging :: bool
  he_os_windows :: bool
  he_vcpus :: u32
  he_memsize :: u64
  he_reg_step :: "nat \<Rightarrow> bool"
  he_reg_int :: bool
  he_reg_mem :: bool
  he_slat_state :: bool
  he_slat_create :: bool
  he_slat_switch :: bool
  he_csv_open :: bool
  he_es_connect :: bool

section \<open>Resources and log\<close>

definition acquire :: "resource \<Rightarrow> vmhdlr_t \<Rightarrow> vmhdlr_t" where
  "acquire r h = h\<lparr>vh_held := vh_held h @ [r]\<rparr>"

definition use_res :: "resource \<Rightarrow> vmhdlr_t \<Rightarrow> vmhdlr_t result" where
  "use_res r h = (if r \<in> set (vh_held h) then Inr h else Inl UseAfterFree)"

definition release :: "resource \<Rightarrow> vmhdlr_t \<Rightarrow> vmhdlr_t result" where
  "release r h = (if r \<in> set (vh_held h) then Inr (h\<lparr>vh_held := remove1 r (vh_held h)\<rparr>) else Inl UseAfterFree)"

text \<open>A message under an id, -1 included; the function is \<open>writelog\<close> on the log of the program.\<close>

definition log_id :: "hfm_env \<Rightarrow> int \<Rightarrow> level_t \<Rightarrow> string \<Rightarrow> vmhdlr_t \<Rightarrow> vmhdlr_t result" where
  "log_id env eid level msg h =
     rbind (writelog (he_time env) (word_of_int eid) level msg (vh_log h)) (\<lambda>lg. Inr (h\<lparr>vh_log := lg\<rparr>))"

definition log_vm :: "hfm_env \<Rightarrow> level_t \<Rightarrow> string \<Rightarrow> vmhdlr_t \<Rightarrow> vmhdlr_t result" where
  "log_vm env level msg h = log_id env (vh_logid h) level (msg @ vh_name h) h"

section \<open>The Xen interface\<close>

definition xen_free_interface :: "xen_interface_t option \<Rightarrow> vmhdlr_t \<Rightarrow> vmhdlr_t result" where
  "xen_free_interface xen h =
     (case xen of
        None \<Rightarrow> Inr h
      | Some x \<Rightarrow>
          rbind (if xi_ctx x then release Xl_ctx h else Inr h) (\<lambda>h.
          if xi_xc x then release Xc h else Inr h))"

text \<open>
  The domain id has 16 bits, and 32 are written at its place; the comparison with \<open>~0U\<close> is
  never true. The handler is not yet set when the parts are freed.
\<close>

definition xen_init_interface ::
  "hfm_env \<Rightarrow> string \<Rightarrow> vmhdlr_t \<Rightarrow> (xen_interface_t option \<times> vmhdlr_t) result" where
  "xen_init_interface env name h =
     (if \<not> he_xc_open env then
        rbind (log_id env 0 LV_ERROR ''xc_interface_open() failed'' h) (\<lambda>h.
        rbind (xen_free_interface (Some \<lparr>xi_xc = False, xi_ctx = False, xi_domID = 0\<rparr>) h) (\<lambda>h.
          Inr (None, h)))
      else let h = acquire Xc h in
      if \<not> he_ctx_alloc env then
        rbind (log_id env 0 LV_ERROR ''libxl_ctx_alloc() failed'' h) (\<lambda>h.
        rbind (xen_free_interface (Some \<lparr>xi_xc = True, xi_ctx = False, xi_domID = 0\<rparr>) h) (\<lambda>h.
          Inr (None, h)))
      else
        let h = acquire Xl_ctx h;
            domID = (case he_name_to_domid env of None \<Rightarrow> 0 | Some d \<Rightarrow> ucast d) :: u16;
            xen = \<lparr>xi_xc = True, xi_ctx = True, xi_domID = domID\<rparr> in
        if domID = 0 \<or> uint domID = 2 ^ 32 - 1 then
          rbind (log_id env 0 LV_ERROR (''Failed to get domID from domain name '' @ name) h) (\<lambda>h.
          rbind (xen_free_interface (Some xen) h) (\<lambda>h. Inr (None, h)))
        else Inr (Some xen, h))"

section \<open>LibVMI and the views\<close>

definition close_vmi :: "vmhdlr_t \<Rightarrow> vmhdlr_t result" where
  "close_vmi h = release Vmi h"

text \<open>
  The loop over the virtual CPUs (at most 16); the result says whether every step event could be
  registered. The event of the CPU that fails stays allocated.
\<close>

fun register_steps :: "hfm_env \<Rightarrow> nat list \<Rightarrow> vmhdlr_t \<Rightarrow> (bool \<times> vmhdlr_t) result" where
  "register_steps env [] h = Inr (True, h)"
| "register_steps env (i # is) h =
     (let h = h\<lparr>vh_steps := max (vh_steps h) (i + 1)\<rparr> in
      if he_reg_step env i then register_steps env is h
      else rbind (log_vm env LV_ERROR ''Failed to register singlestep for vCPU on '' h) (\<lambda>h.
        Inr (False, h)))"

definition vcpu_list :: "u32 \<Rightarrow> nat list" where
  "vcpu_list n = [0 ..< min (unat n) 16]"

definition fail_with ::
  "hfm_env \<Rightarrow> string \<Rightarrow> (vmhdlr_t \<Rightarrow> vmhdlr_t result) \<Rightarrow> vmhdlr_t \<Rightarrow> (bool \<times> vmhdlr_t) result" where
  "fail_with env msg cleanup h =
     rbind (log_vm env LV_ERROR msg h) (\<lambda>h. rbind (cleanup h) (\<lambda>h. Inr (False, h)))"

text \<open>
  \<open>sprintf\<close> of the profile's path, with a setting that may be missing: \<open>%s\<close> of a null pointer is
  undefined.
\<close>

definition rekall_profile :: "config_t \<Rightarrow> string \<Rightarrow> string result" where
  "rekall_profile cfg name =
     (case config_get_str cfg ''rekall-base'' of
        None \<Rightarrow> Inl NullDeref
      | Some base \<Rightarrow> fits1024 (base @ ''/'' @ name @ ''.json''))"

text \<open>A failure to register the interrupt event is logged, but not treated as a failure.\<close>

definition init_vmi :: "config_t \<Rightarrow> hfm_env \<Rightarrow> vmhdlr_t \<Rightarrow> (bool \<times> vmhdlr_t) result" where
  "init_vmi cfg env h =
     rbind (log_vm env LV_INFO ''Init VMI on domain '' h) (\<lambda>h.
     if \<not> he_vmi_init env
     then fail_with env ''Failed to init LibVMI on domain '' Inr h
     else let h = acquire Vmi h in
     rbind (rekall_profile cfg (vh_name h)) (\<lambda>_.
     if \<not> he_paging env
     then fail_with env ''Failed to init LibVMI paging on domain '' close_vmi h
     else if \<not> he_os_windows env
     then fail_with env ''Failed to init LibVMI library on domain '' close_vmi h
     else
       let h = h\<lparr>vh_vcpus := he_vcpus env, vh_memsize := ucast (he_memsize env),
                 vh_domid := (case he_name_to_domid env of None \<Rightarrow> vh_domid h | Some d \<Rightarrow> sint d)\<rparr> in
       if vh_domid h = 0 \<or> vh_domid h = - 1
       then fail_with env ''Domain is not running, failed to get domID from name '' close_vmi h
       else rbind (register_steps env (vcpu_list (vh_vcpus h)) h) (\<lambda>(ok, h).
       if \<not> ok then rbind (close_vmi h) (\<lambda>h. Inr (False, h))
       else rbind (if he_reg_int env then Inr h
                   else log_vm env LV_ERROR ''Failed to register interrupt event on '' h) (\<lambda>h.
       if \<not> he_reg_mem env
       then fail_with env ''Failed to register generic mem event on '' close_vmi h
       else Inr (True, h)))))"

definition setup_altp2m :: "hfm_env \<Rightarrow> vmhdlr_t \<Rightarrow> (bool \<times> vmhdlr_t) result" where
  "setup_altp2m env h =
     rbind (use_res Vmi h) (\<lambda>h.
     if \<not> he_slat_state env
     then fail_with env ''Failed to enable altp2m on domain '' Inr h
     else if \<not> he_slat_create env
     then fail_with env ''Failed to create altp2m view idx on domain '' Inr h
     else let h = acquire Altp2m_view h in
     if \<not> he_slat_switch env
     then fail_with env ''Failed to switch to altp2m idx view on domain '' Inr h
     else Inr (True, h))"

definition reset_altp2m :: "vmhdlr_t \<Rightarrow> vmhdlr_t result" where
  "reset_altp2m h = rbind (use_res Vmi h) (release Altp2m_view)"

section \<open>The output\<close>

text \<open>A file or server that cannot be opened is logged by the output, which is used all the same.\<close>

definition out_init :: "hfm_env \<Rightarrow> output_type_t \<Rightarrow> string \<Rightarrow> vmhdlr_t \<Rightarrow> vmhdlr_t result" where
  "out_init env type target h =
     rbind (case type of
        OUT_CONSOLE \<Rightarrow> Inr h
      | OUT_CSV \<Rightarrow> if he_csv_open env then Inr h
                   else log_id env 0 LV_FATAL (''Error open csv file '' @ target) h
      | OUT_ELASTICSEARCH \<Rightarrow> if he_es_connect env then Inr h
                   else log_id env 0 LV_FATAL (''Error connect to elasticsearch server '' @ target) h)
       (\<lambda>h. Inr ((acquire Output h)\<lparr>vh_out := Some type\<rparr>))"

definition out_close :: "vmhdlr_t \<Rightarrow> vmhdlr_t result" where
  "out_close h = release Output h"

text \<open>The choice of the output in \<open>hfm_init\<close>; without the setting a null pointer is compared.\<close>

definition choose_output :: "config_t \<Rightarrow> hfm_env \<Rightarrow> vmhdlr_t \<Rightarrow> vmhdlr_t result" where
  "choose_output cfg env h =
     (case config_get_str cfg ''output'' of
        None \<Rightarrow> Inl NullDeref
      | Some output \<Rightarrow>
          if output = ''csv'' then
            let base = (case config_get_str cfg ''csv-path'' of None \<Rightarrow> ''./'' | Some b \<Rightarrow> b) in
            rbind (fits1024 (base @ ''/output/'' @ vh_name h @ ''.out'')) (\<lambda>out_file.
              out_init env OUT_CSV out_file h)
          else if output = ''es'' then
            (case config_get_str cfg ''output_es_url'' of
               None \<Rightarrow> Inl NullDeref
             | Some url \<Rightarrow> out_init env OUT_ELASTICSEARCH url h)
          else out_init env OUT_CONSOLE [] h)"

section \<open>Opening, closing and restarting\<close>

definition hfm_init :: "config_t \<Rightarrow> hfm_env \<Rightarrow> vmhdlr_t \<Rightarrow> (bool \<times> vmhdlr_t) result" where
  "hfm_init cfg env h =
     rbind (xen_init_interface env (vh_name h) h) (\<lambda>(xen, h).
     let h = h\<lparr>vh_xen := xen\<rparr> in
     if xen = None then fail_with env ''Failed to init XEN on domain '' (xen_free_interface xen) h
     else rbind (rekall_profile cfg (vh_name h)) (\<lambda>_.
     rbind (init_vmi cfg env h) (\<lambda>(ok, h).
     if \<not> ok then rbind (xen_free_interface (vh_xen h) h) (\<lambda>h. Inr (False, h))
     else rbind (setup_altp2m env h) (\<lambda>(ok, h).
     if \<not> ok then rbind (close_vmi h) (\<lambda>h.
                  rbind (xen_free_interface (vh_xen h) h) (\<lambda>h. Inr (False, h)))
     else let h = acquire Trap_manager h in
     rbind (choose_output cfg env h) (\<lambda>h. Inr (True, h))))))"

text \<open>\<open>_destroy_traps\<close>: the frames are given back through the Xen interface.\<close>

definition close_traps :: "vmhdlr_t \<Rightarrow> vmhdlr_t result" where
  "close_traps h =
     rbind (use_res Vmi h) (\<lambda>h.
     if vh_shadows h \<and> vh_xen h = None then Inl NullDeref
     else release Trap_manager h)"

definition hfm_close :: "hfm_env \<Rightarrow> vmhdlr_t \<Rightarrow> vmhdlr_t result" where
  "hfm_close env h =
     rbind (log_vm env LV_INFO ''Close LibVMI on domain '' h) (\<lambda>h.
     rbind (use_res Vmi h) (\<lambda>h.
     rbind (out_close h) (\<lambda>h.
     rbind (close_traps h) (\<lambda>h.
     rbind (reset_altp2m h) (\<lambda>h.
     rbind (xen_free_interface (vh_xen h) h) (\<lambda>h.
     rbind (use_res Vmi h) (\<lambda>h.
     close_vmi h)))))))"

definition hfm_listen :: "vmhdlr_t \<Rightarrow> vmhdlr_t result" where
  "hfm_listen h = use_res Vmi h"

text \<open>
  \<open>hfm_restart_vmi\<close>, the callback of the watcher, which has destroyed the instance (and with it
  the view) before. It returns 0 or -1; the monitors are set up again by \<open>set_policies\<close>.
\<close>

definition restart_fail :: "hfm_env \<Rightarrow> string \<Rightarrow> vmhdlr_t \<Rightarrow> (int \<times> vmhdlr_t) result" where
  "restart_fail env msg h =
     rbind (log_id env (vh_logid h) LV_ERROR msg h) (\<lambda>h. Inr (- 1, h))"

definition hfm_restart_vmi ::
  "config_t \<Rightarrow> hfm_env \<Rightarrow> (vmhdlr_t \<Rightarrow> vmhdlr_t result) \<Rightarrow> vmhdlr_t \<Rightarrow> (int \<times> vmhdlr_t) result" where
  "hfm_restart_vmi cfg env set_policies h =
     rbind (xen_free_interface (vh_xen h) h) (\<lambda>h.
     rbind (xen_init_interface env (vh_name h) h) (\<lambda>(xen, h).
     let h = h\<lparr>vh_xen := xen\<rparr> in
     if xen = None then restart_fail env ''Failed to init XEN after machine restart'' h
     else if \<not> he_vmi_init env then restart_fail env ''Failed to init LibVMI after machine restart'' h
     else let h = acquire Vmi h in
     rbind (rekall_profile cfg (vh_name h)) (\<lambda>_.
     if \<not> he_paging env then restart_fail env ''Failed to init LibVMI paging after machine restart'' h
     else if \<not> he_os_windows env
     then restart_fail env ''Failed to init LibVMI library after machine restart'' h
     else rbind (register_steps env (vcpu_list (vh_vcpus h)) h) (\<lambda>(ok, h).
     if \<not> ok then Inr (- 1, h)
     else if \<not> he_reg_int env
     then restart_fail env (''Failed to register interrupt event on '' @ vh_name h) h
     else if \<not> he_reg_mem env
     then restart_fail env (''Failed to register generic mem event on '' @ vh_name h) h
     else rbind (setup_altp2m env h) (\<lambda>(ok, h).
     if \<not> ok then restart_fail env ''Failed to re-init altp2m view'' h
     else rbind (release Trap_manager h) (\<lambda>h.
     let h = (acquire Trap_manager h)\<lparr>vh_shadows := False, vh_init_flags := replicate 5 False\<rparr> in
     rbind (set_policies h) (\<lambda>h. Inr (0, h))))))))"

text \<open>What \<open>vmi_destroy\<close> of the watcher takes away.\<close>

definition vmi_destroyed :: "vmhdlr_t \<Rightarrow> vmhdlr_t" where
  "vmi_destroyed h = h\<lparr>vh_held := [r \<leftarrow> vh_held h. r \<noteq> Vmi \<and> r \<noteq> Altp2m_view]\<rparr>"

end
