(* ===== verification/Lifecycle_Props.thy ===== *)
theory Lifecycle_Props
  imports Lifecycle
begin

text \<open>
  Which resources a handler holds: a failed \<open>hfm_init\<close> gives everything back except the view,
  a handler that was opened can be closed, also after a restart that succeeded, and one whose
  machine is down cannot.
\<close>

section \<open>Frames\<close>

definition same_handler :: "vmhdlr_t \<Rightarrow> vmhdlr_t \<Rightarrow> bool" where
  "same_handler h h' \<longleftrightarrow> vh_held h' = vh_held h \<and> vh_xen h' = vh_xen h \<and> vh_logid h' = vh_logid h \<and>
     vh_name h' = vh_name h \<and> vh_shadows h' = vh_shadows h \<and> (log_inv (vh_log h) \<longrightarrow> log_inv (vh_log h')) \<and>
     lg_logger (vh_log h') = lg_logger (vh_log h) \<and> lg_count (vh_log h') = lg_count (vh_log h)"

lemma same_handler_refl [simp]: "same_handler h h"
  by (simp add: same_handler_def)

lemma same_handler_trans: "same_handler a b \<Longrightarrow> same_handler b c \<Longrightarrow> same_handler a c"
  by (simp add: same_handler_def)

lemma writelog_keeps: "writelog t i l m lg = Inr lg' \<Longrightarrow> log_inv lg \<Longrightarrow> log_inv lg'"
  by (auto simp: writelog_def result_simps log_inv_def Let_def split: if_splits)

lemma writelog_keeps2: "writelog t i l m lg = Inr lg' \<Longrightarrow> lg_logger lg' = lg_logger lg \<and> lg_count lg' = lg_count lg"
  by (auto simp: writelog_def result_simps Let_def split: if_splits)

lemma log_id_same: "log_id env i l m h = Inr h' \<Longrightarrow> same_handler h h'"
  by (auto simp: log_id_def result_simps same_handler_def intro: writelog_keeps dest: writelog_keeps2)

lemma log_vm_same: "log_vm env l m h = Inr h' \<Longrightarrow> same_handler h h'"
  unfolding log_vm_def by (rule log_id_same)

lemma log_id_ok:
  assumes "log_inv (vh_log h)" and "0 \<le> i" and "i < int MAX_ENTRIES"
  shows "\<exists>h'. log_id env i l m h = Inr h'"
proof -
  have "unat (word_of_int i :: u32) = nat i"
    using assms(2,3) by (simp add: unat_eq_nat_uint word_of_int_inverse MAX_ENTRIES_def)
  then have "unat (word_of_int i :: u32) < MAX_ENTRIES" using assms(2,3) by simp
  from writelog_inv [OF assms(1) this] show ?thesis by (simp add: log_id_def)
qed

definition log_fine :: "vmhdlr_t \<Rightarrow> bool" where
  "log_fine h \<longleftrightarrow> log_inv (vh_log h) \<and> 0 \<le> vh_logid h \<and> vh_logid h < int MAX_ENTRIES"

lemma log_fine_same: "same_handler h h' \<Longrightarrow> log_fine h \<Longrightarrow> log_fine h'"
  by (simp add: same_handler_def log_fine_def)

lemma log_vm_ok: "log_fine h \<Longrightarrow> \<exists>h'. log_vm env l m h = Inr h'"
  unfolding log_vm_def log_fine_def by (intro log_id_ok) auto

text \<open>\<open>moves h h' L\<close>: like \<open>same_handler\<close>, but the resources are \<open>L\<close> then.\<close>

definition moves :: "vmhdlr_t \<Rightarrow> vmhdlr_t \<Rightarrow> resource list \<Rightarrow> bool" where
  "moves h h' L \<longleftrightarrow> vh_held h' = L \<and> vh_xen h' = vh_xen h \<and> vh_logid h' = vh_logid h \<and>
     vh_name h' = vh_name h \<and> vh_shadows h' = vh_shadows h \<and> (log_inv (vh_log h) \<longrightarrow> log_inv (vh_log h')) \<and>
     lg_logger (vh_log h') = lg_logger (vh_log h) \<and> lg_count (vh_log h') = lg_count (vh_log h)"

lemma moves_same: "same_handler a b \<Longrightarrow> moves b c L \<Longrightarrow> moves a c L"
  by (simp add: same_handler_def moves_def)

lemma moves_same2: "moves a b L \<Longrightarrow> same_handler b c \<Longrightarrow> moves a c L"
  by (simp add: same_handler_def moves_def)

lemma moves_trans: "moves a b K \<Longrightarrow> moves b c L \<Longrightarrow> moves a c L"
  by (simp add: moves_def)

lemma same_moves: "same_handler a b \<longleftrightarrow> moves a b (vh_held a)"
  by (simp add: same_handler_def moves_def)

lemma moves_acquire: "moves h (acquire r h) (vh_held h @ [r])"
  by (simp add: moves_def acquire_def)

lemma release_moves: "release r h = Inr h' \<Longrightarrow> moves h h' (remove1 r (vh_held h))"
  by (auto simp: release_def moves_def split: if_splits)

lemma fail_with_moves:
  assumes "fail_with env m c h = Inr (b, h')" and "\<And>x y. c x = Inr y \<Longrightarrow> vh_held x = vh_held h \<Longrightarrow> moves x y L"
  shows "\<not> b \<and> moves h h' L"
proof -
  obtain x where x: "log_vm env LV_ERROR m h = Inr x" "c x = Inr h'" "\<not> b"
    using assms(1) by (auto simp: fail_with_def result_simps)
  have s: "same_handler h x" by (rule log_vm_same [OF x(1)])
  then have "moves x h' L" using assms(2) [OF x(2)] by (simp add: same_handler_def)
  then show ?thesis using moves_same [OF s] x(3) by blast
qed

lemma xen_free_moves:
  assumes "xen_free_interface xen h = Inr h'"
  shows "moves h h' (case xen of None \<Rightarrow> vh_held h | Some x \<Rightarrow>
     (if xi_xc x then remove1 Xc else (\<lambda>l. l)) ((if xi_ctx x then remove1 Xl_ctx else (\<lambda>l. l)) (vh_held h)))"
  using assms
  by (auto simp: xen_free_interface_def result_simps moves_def release_def split: option.splits if_splits)

definition full_xen :: "xen_interface_t option \<Rightarrow> bool" where
  "full_xen xen \<longleftrightarrow> (\<exists>x. xen = Some x \<and> xi_xc x \<and> xi_ctx x)"

lemma xen_init_moves:
  assumes "xen_init_interface env name h = Inr (xen, h')" and "Xc \<notin> set (vh_held h)" and "Xl_ctx \<notin> set (vh_held h)"
  shows "if xen = None then moves h h' (vh_held h)
    else full_xen xen \<and> moves h h' (vh_held h @ [Xc, Xl_ctx])"
proof -
  consider "\<not> he_xc_open env" | "he_xc_open env" "\<not> he_ctx_alloc env" | "he_xc_open env" "he_ctx_alloc env"
    by blast
  then show ?thesis
  proof cases
    case 1
    then obtain x where "log_id env 0 LV_ERROR ''xc_interface_open() failed'' h = Inr x" "h' = x" "xen = None"
      using assms(1) by (auto simp: xen_init_interface_def xen_free_interface_def result_simps)
    then show ?thesis using log_id_same same_moves by auto
  next
    case 2
    then obtain x where "log_id env 0 LV_ERROR ''libxl_ctx_alloc() failed'' (acquire Xc h) = Inr x"
      "release Xc x = Inr h'" "xen = None"
      using assms(1) by (auto simp: xen_init_interface_def xen_free_interface_def result_simps Let_def)
    then have "moves h h' (remove1 Xc (vh_held x))" "vh_held x = vh_held h @ [Xc]"
      using release_moves log_id_same moves_acquire by (auto simp: moves_def same_handler_def acquire_def)
    then show ?thesis using assms(2) \<open>xen = None\<close> by (simp add: remove1_append)
  next
    case 3
    define d :: u16 where "d = (case he_name_to_domid env of None \<Rightarrow> 0 | Some d \<Rightarrow> ucast d)"
    let ?x = "\<lparr>xi_xc = True, xi_ctx = True, xi_domID = d\<rparr>"
    let ?h = "acquire Xl_ctx (acquire Xc h)"
    show ?thesis
    proof (cases "d = 0 \<or> uint d = 2 ^ 32 - 1")
      case True
      then obtain x where x: "log_id env 0 LV_ERROR (''Failed to get domID from domain name '' @ name) ?h = Inr x"
        "xen_free_interface (Some ?x) x = Inr h'" "xen = None"
        using assms(1) 3 by (auto simp: xen_init_interface_def result_simps Let_def d_def)
      have "vh_held x = vh_held h @ [Xc, Xl_ctx]" "moves h x (vh_held h @ [Xc, Xl_ctx])"
        using log_id_same [OF x(1)] by (simp_all add: same_handler_def acquire_def moves_def)
      then show ?thesis
        using xen_free_moves [OF x(2)] x(3) assms(2,3) moves_trans by (fastforce simp: remove1_append)
    next
      case False
      then have "xen = Some ?x" "h' = ?h"
        using assms(1) 3 by (auto simp: xen_init_interface_def Let_def d_def)
      then show ?thesis by (simp add: full_xen_def moves_def acquire_def)
    qed
  qed
qed

lemma xen_free_full:
  "xen_free_interface xen h = Inr h' \<Longrightarrow> full_xen xen \<Longrightarrow> moves h h' (remove1 Xc (remove1 Xl_ctx (vh_held h)))"
  using xen_free_moves by (fastforce simp: full_xen_def)

lemma xen_free_full_ok:
  "full_xen xen \<Longrightarrow> Xc \<in> set (vh_held h) \<Longrightarrow> Xl_ctx \<in> set (vh_held h) \<Longrightarrow>
   \<exists>h'. xen_free_interface xen h = Inr h'"
  by (auto simp: full_xen_def xen_free_interface_def release_def)

lemma register_steps_same: "register_steps env is h = Inr (ok, h') \<Longrightarrow> same_handler h h'"
proof (induction env "is" h arbitrary: ok h' rule: register_steps.induct)
  case (2 env i "is" h)
  let ?h = "h\<lparr>vh_steps := max (vh_steps h) (i + 1)\<rparr>"
  have s: "same_handler h ?h" by (simp add: same_handler_def)
  show ?case
  proof (cases "he_reg_step env i")
    case True
    then show ?thesis using 2 s same_handler_trans by (auto simp: Let_def)
  next
    case False
    then show ?thesis using 2(2) s same_handler_trans log_vm_same
      by (fastforce simp: Let_def result_simps)
  qed
qed simp

lemma init_vmi_moves:
  assumes i: "init_vmi cfg env h = Inr (ok, h')" and n: "Vmi \<notin> set (vh_held h)"
  shows "moves h h' (if ok then vh_held h @ [Vmi] else vh_held h)"
proof -
  obtain h1 where l: "log_vm env LV_INFO ''Init VMI on domain '' h = Inr h1"
    using i by (auto simp: init_vmi_def result_simps)
  have s1: "same_handler h h1" by (rule log_vm_same [OF l])
  show ?thesis
  proof (cases "he_vmi_init env")
    case False
    then have "fail_with env ''Failed to init LibVMI on domain '' Inr h1 = Inr (ok, h')"
      using i by (simp add: init_vmi_def l)
    from fail_with_moves [OF this, of "vh_held h1"] s1 show ?thesis
      by (auto simp: moves_def same_handler_def)
  next
    case True
    let ?h2 = "acquire Vmi h1"
    let ?h3 = "?h2\<lparr>vh_vcpus := he_vcpus env, vh_memsize := ucast (he_memsize env),
                 vh_domid := (case he_name_to_domid env of None \<Rightarrow> vh_domid ?h2 | Some d \<Rightarrow> sint d)\<rparr>"
    have held: "vh_held h1 = vh_held h" using s1 by (simp add: same_handler_def)
    have m2: "moves h ?h2 (vh_held h @ [Vmi])"
      using moves_same [OF s1 moves_acquire] held by simp
    have m3: "moves h ?h3 (vh_held h @ [Vmi])" using m2 by (simp add: moves_def)
    have cl: "moves x y (vh_held h)" if "close_vmi x = Inr y" "vh_held x = vh_held h @ [Vmi]" for x y
      using release_moves [OF that(1) [unfolded close_vmi_def]] that(2) n by (simp add: remove1_append)
    have f2: "\<not> ok \<and> moves h h' (vh_held h)" if "fail_with env m close_vmi ?h2 = Inr (ok, h')" for m
      using fail_with_moves [OF that, of "vh_held h"] cl m2 moves_trans by (auto simp: acquire_def held)
    have f3: "\<not> ok \<and> moves h h' (vh_held h)"
      if "fail_with env m close_vmi x = Inr (ok, h')" "moves h x (vh_held h @ [Vmi])" for m x
      using fail_with_moves [OF that(1), of "vh_held h"] cl that(2) moves_trans
      by (auto simp: moves_def)
    consider m where "fail_with env m close_vmi ?h2 = Inr (ok, h')"
      | m where "fail_with env m close_vmi ?h3 = Inr (ok, h')"
      | r h4 where "register_steps env (vcpu_list (he_vcpus env)) ?h3 = Inr (r, h4)"
        "(if \<not> r then rbind (close_vmi h4) (\<lambda>h. Inr (False, h))
          else rbind (if he_reg_int env then Inr h4
                   else log_vm env LV_ERROR ''Failed to register interrupt event on '' h4) (\<lambda>h.
            if \<not> he_reg_mem env
            then fail_with env ''Failed to register generic mem event on '' close_vmi h
            else Inr (True, h))) = Inr (ok, h')"
      using i True l by (auto simp: init_vmi_def Let_def result_simps simp del: fail_with_def split: if_splits)
    then show ?thesis
    proof cases
      case (1 m)
      from f2 [OF this] show ?thesis by simp
    next
      case (2 m)
      from f3 [OF this m3] show ?thesis by simp
    next
      case (3 r h4)
      have m4: "moves h h4 (vh_held h @ [Vmi])"
        by (rule moves_same2 [OF m3 register_steps_same [OF 3(1)]])
      show ?thesis
      proof (cases r)
        case False
        then have c: "close_vmi h4 = Inr h'" "\<not> ok" using 3(2) by (auto simp: result_simps)
        then show ?thesis using cl [OF c(1)] m4 moves_trans by (auto simp: moves_def)
      next
        case True
        then obtain h5 where h5: "(if he_reg_int env then Inr h4
             else log_vm env LV_ERROR ''Failed to register interrupt event on '' h4) = Inr h5"
          "(if \<not> he_reg_mem env then fail_with env ''Failed to register generic mem event on '' close_vmi h5
            else Inr (True, h5)) = Inr (ok, h')"
          using 3(2) True by (simp only: rbind_eq_Inr not_True_eq_False if_False) blast
        have "same_handler h4 h5" using h5(1) log_vm_same by (auto split: if_splits)
        then have m5: "moves h h5 (vh_held h @ [Vmi])" by (rule moves_same2 [OF m4])
        then show ?thesis using h5(2) f3 [OF _ m5] by (auto split: if_splits)
      qed
    qed
  qed
qed

lemma setup_altp2m_moves:
  assumes "setup_altp2m env h = Inr (ok, h')"
  shows "moves h h' (if ok \<or> he_slat_state env \<and> he_slat_create env then vh_held h @ [Altp2m_view] else vh_held h)"
    and "ok \<longleftrightarrow> he_slat_state env \<and> he_slat_create env \<and> he_slat_switch env"
proof -
  have u: "use_res Vmi h = Inr h" using assms by (auto simp: setup_altp2m_def use_res_def split: if_splits)
  have f: "fail_with env m Inr x = Inr (ok, h') \<Longrightarrow> \<not> ok \<and> moves x h' (vh_held x)" for m x
    using fail_with_moves [of env m Inr x ok h' "vh_held x"] by (auto simp: moves_def)
  note a = assms [unfolded setup_altp2m_def u rbind_Inr Let_def]
  have "moves h h' (if ok \<or> he_slat_state env \<and> he_slat_create env then vh_held h @ [Altp2m_view] else vh_held h) \<and>
    (ok \<longleftrightarrow> he_slat_state env \<and> he_slat_create env \<and> he_slat_switch env)"
    using a f [of _ h] f [of _ "acquire Altp2m_view h"] moves_acquire [of h Altp2m_view] moves_trans
    by (auto simp: acquire_def split: if_splits)
  then show "moves h h' (if ok \<or> he_slat_state env \<and> he_slat_create env then vh_held h @ [Altp2m_view] else vh_held h)"
    "ok \<longleftrightarrow> he_slat_state env \<and> he_slat_create env \<and> he_slat_switch env" by blast+
qed

lemma choose_output_moves:
  "choose_output cfg env h = Inr h' \<Longrightarrow> moves h h' (vh_held h @ [Output])"
proof -
  have o: "out_init env ty t h = Inr h' \<Longrightarrow> moves h h' (vh_held h @ [Output])" for ty t
  proof -
    assume "out_init env ty t h = Inr h'"
    then obtain x where x: "(case ty of
        OUT_CONSOLE \<Rightarrow> Inr h
      | OUT_CSV \<Rightarrow> if he_csv_open env then Inr h
                   else log_id env 0 LV_FATAL (''Error open csv file '' @ t) h
      | OUT_ELASTICSEARCH \<Rightarrow> if he_es_connect env then Inr h
                   else log_id env 0 LV_FATAL (''Error connect to elasticsearch server '' @ t) h) = Inr x"
      "h' = (acquire Output x)\<lparr>vh_out := Some ty\<rparr>"
      unfolding out_init_def rbind_eq_Inr by blast
    have "same_handler h x"
      using x(1) log_id_same by (cases ty) (auto split: if_splits)
    with x(2) show ?thesis by (simp add: moves_def same_handler_def acquire_def)
  qed
  then show "choose_output cfg env h = Inr h' \<Longrightarrow> moves h h' (vh_held h @ [Output])"
    by (auto simp: choose_output_def result_simps Let_def split: option.splits if_splits)
qed

section \<open>Opening\<close>

definition all_held :: "resource list" where
  "all_held = [Xc, Xl_ctx, Vmi, Altp2m_view, Trap_manager, Output]"

lemma hfm_init_moves:
  assumes i: "hfm_init cfg env h = Inr (ok, h')" and h0: "vh_held h = []"
  shows "vh_held h' = (if ok then all_held
      else if he_slat_create env \<and> \<not> he_slat_switch env \<and> vh_held h' \<noteq> [] then [Altp2m_view] else [])"
    and "ok \<Longrightarrow> full_xen (vh_xen h')" and "log_fine h \<Longrightarrow> log_fine h'" and "vh_shadows h' = vh_shadows h"
    and "vh_name h' = vh_name h \<and> lg_logger (vh_log h') = lg_logger (vh_log h) \<and>
      lg_count (vh_log h') = lg_count (vh_log h)"
proof -
  obtain xen h1 where x: "xen_init_interface env (vh_name h) h = Inr (xen, h1)"
    using i by (auto simp: hfm_init_def result_simps)
  note mx = xen_init_moves [OF x, simplified h0, simplified]
  define P where "P = (vh_held h' = (if ok then all_held
      else if he_slat_create env \<and> \<not> he_slat_switch env \<and> vh_held h' \<noteq> [] then [Altp2m_view] else []) \<and>
      (ok \<longrightarrow> full_xen (vh_xen h')) \<and> (log_fine h \<longrightarrow> log_fine h') \<and> vh_shadows h' = vh_shadows h \<and>
      vh_name h' = vh_name h \<and> lg_logger (vh_log h') = lg_logger (vh_log h) \<and>
      lg_count (vh_log h') = lg_count (vh_log h))"
  have P
  proof (cases "xen = None")
    case True
    then have "fail_with env ''Failed to init XEN on domain '' (xen_free_interface None) (h1\<lparr>vh_xen := None\<rparr>)
        = Inr (ok, h')"
      using i by (simp add: hfm_init_def x Let_def)
    from fail_with_moves [OF this, of "vh_held h1"] xen_free_moves
    have "\<not> ok \<and> moves (h1\<lparr>vh_xen := None\<rparr>) h' (vh_held h1)" by fastforce
    then show ?thesis using mx True by (simp add: P_def moves_def log_fine_def)
  next
    case False
    let ?h1 = "h1\<lparr>vh_xen := xen\<rparr>"
    have h1: "vh_held ?h1 = [Xc, Xl_ctx]" "full_xen (vh_xen ?h1)" "log_fine h \<longrightarrow> log_fine ?h1"
      "vh_shadows ?h1 = vh_shadows h" "vh_name ?h1 = vh_name h"
      "lg_logger (vh_log ?h1) = lg_logger (vh_log h)" "lg_count (vh_log ?h1) = lg_count (vh_log h)"
      using mx False by (simp_all add: moves_def log_fine_def)
    obtain k h2 where v: "init_vmi cfg env ?h1 = Inr (k, h2)"
      using i False by (auto simp: hfm_init_def x Let_def result_simps)
    have mv: "moves ?h1 h2 (if k then [Xc, Xl_ctx, Vmi] else [Xc, Xl_ctx])"
      using init_vmi_moves [OF v] h1(1) by (auto split: if_splits)
    show ?thesis
    proof (cases k)
      case False
      then have f: "xen_free_interface (vh_xen h2) h2 = Inr h'" "\<not> ok"
        using i \<open>xen \<noteq> None\<close> v by (auto simp: hfm_init_def x Let_def result_simps)
      have "full_xen (vh_xen h2)" using mv h1(2) by (simp add: moves_def)
      from xen_free_full [OF f(1) this] show ?thesis
        using mv h1 f(2) False by (simp add: P_def moves_def log_fine_def)
    next
      case True
      obtain j h3 where s: "setup_altp2m env h2 = Inr (j, h3)"
        using i \<open>xen \<noteq> None\<close> v True by (auto simp: hfm_init_def x Let_def result_simps)
      note ms = setup_altp2m_moves [OF s]
      show ?thesis
      proof (cases j)
        case False
        then obtain h4 where c: "close_vmi h3 = Inr h4" "xen_free_interface (vh_xen h4) h4 = Inr h'" "\<not> ok"
          using i \<open>xen \<noteq> None\<close> v True s by (auto simp: hfm_init_def x Let_def result_simps)
        note m4 = release_moves [OF c(1) [unfolded close_vmi_def]]
        have "full_xen (vh_xen h4)" using m4 ms(1) mv h1(2) by (simp add: moves_def)
        from xen_free_full [OF c(2) this] show ?thesis
          using m4 ms mv h1 c(3) True False by (simp add: P_def moves_def log_fine_def split: if_splits)
      next
        case j: True
        then have c: "choose_output cfg env (acquire Trap_manager h3) = Inr h'" "ok"
          using i \<open>xen \<noteq> None\<close> v True s by (auto simp: hfm_init_def x Let_def result_simps)
        from choose_output_moves [OF c(1)] show ?thesis
          using ms(1) mv h1 True j c(2) by (simp add: P_def moves_def log_fine_def all_held_def acquire_def)
      qed
    qed
  qed
  then show "vh_held h' = (if ok then all_held
      else if he_slat_create env \<and> \<not> he_slat_switch env \<and> vh_held h' \<noteq> [] then [Altp2m_view] else [])"
    "ok \<Longrightarrow> full_xen (vh_xen h')" "log_fine h \<Longrightarrow> log_fine h'" "vh_shadows h' = vh_shadows h"
    "vh_name h' = vh_name h \<and> lg_logger (vh_log h') = lg_logger (vh_log h) \<and>
      lg_count (vh_log h') = lg_count (vh_log h)"
    unfolding P_def by blast+
qed

text \<open>
  Property C31. When \<open>hfm_init\<close> fails it gives back everything it had acquired, in particular it
  never releases anything twice; only the view of the second page table can be left behind, when
  switching to it fails.
\<close>

theorem hfm_init_failure_releases:
  assumes "hfm_init cfg env h = Inr (False, h')" and "vh_held h = []"
  shows "vh_held h' = [] \<or> vh_held h' = [Altp2m_view] \<and> he_slat_create env \<and> \<not> he_slat_switch env"
  using hfm_init_moves(1) [OF assms] by (auto split: if_splits)

section \<open>Closing\<close>

definition closable :: "vmhdlr_t \<Rightarrow> bool" where
  "closable h \<longleftrightarrow> log_fine h \<and> full_xen (vh_xen h) \<and> distinct (vh_held h) \<and> set (vh_held h) = set all_held"

lemma release_held: "r \<in> set (vh_held h) \<Longrightarrow> \<exists>h'. release r h = Inr h' \<and> moves h h' (remove1 r (vh_held h))"
  by (auto simp: release_def moves_def)

lemma use_held: "r \<in> set (vh_held h) \<Longrightarrow> use_res r h = Inr h"
  by (simp add: use_res_def)

lemma hfm_close_ok:
  assumes "closable h"
  shows "\<exists>h'. hfm_close env h = Inr h' \<and> vh_held h' = []"
proof -
  obtain h1 where 1: "log_vm env LV_INFO ''Close LibVMI on domain '' h = Inr h1"
    using log_vm_ok [of h env LV_INFO "''Close LibVMI on domain ''"] assms by (auto simp: closable_def)
  have s1: "same_handler h h1" by (rule log_vm_same [OF 1])
  have H: "distinct (vh_held h)" "set (vh_held h) = {Xc, Xl_ctx, Vmi, Altp2m_view, Trap_manager, Output}"
    "full_xen (vh_xen h)" using assms by (auto simp: closable_def all_held_def)
  have e1: "vh_held h1 = vh_held h" "vh_xen h1 = vh_xen h" using s1 by (simp_all add: same_handler_def)
  obtain h2 where 2: "release Output h1 = Inr h2" "moves h1 h2 (remove1 Output (vh_held h))"
    using release_held [of Output h1] H e1 by auto
  obtain h3 where 3: "release Trap_manager h2 = Inr h3"
    "moves h2 h3 (remove1 Trap_manager (remove1 Output (vh_held h)))"
    using release_held [of Trap_manager h2] H 2 by (auto simp: moves_def)
  have x3: "vh_xen h2 = vh_xen h" "vh_xen h3 = vh_xen h" "vh_xen h \<noteq> None"
    using 2 3 e1 H(3) by (auto simp: moves_def full_xen_def)
  obtain h4 where 4: "release Altp2m_view h3 = Inr h4"
    "moves h3 h4 (remove1 Altp2m_view (remove1 Trap_manager (remove1 Output (vh_held h))))"
    using release_held [of Altp2m_view h3] H 3 by (auto simp: moves_def)
  have x4: "vh_xen h4 = vh_xen h" using 4 x3 by (simp add: moves_def)
  obtain h5 where 5: "xen_free_interface (vh_xen h4) h4 = Inr h5"
    using xen_free_full_ok [of "vh_xen h4" h4] H 4 x4 by (auto simp: moves_def)
  have m5: "moves h4 h5 (remove1 Xc (remove1 Xl_ctx
      (remove1 Altp2m_view (remove1 Trap_manager (remove1 Output (vh_held h))))))"
    using xen_free_full [OF 5] x4 H(3) 4 by (simp add: moves_def)
  then obtain h6 where 6: "release Vmi h5 = Inr h6"
    "moves h5 h6 (remove1 Vmi (remove1 Xc (remove1 Xl_ctx
      (remove1 Altp2m_view (remove1 Trap_manager (remove1 Output (vh_held h)))))))"
    using release_held [of Vmi h5] H by (auto simp: moves_def)
  have u: "Vmi \<in> set (vh_held h1)" "Vmi \<in> set (vh_held h2)" "Vmi \<in> set (vh_held h3)" "Vmi \<in> set (vh_held h5)"
    using H e1 2(2) 3(2) m5 by (auto simp: moves_def)
  have "hfm_close env h = Inr h6"
    by (simp add: hfm_close_def 1 use_held [OF u(1)] out_close_def 2(1) close_traps_def use_held [OF u(2)]
        x3 3(1) reset_altp2m_def use_held [OF u(3)] 4(1) 5 use_held [OF u(4)] close_vmi_def 6(1))
  moreover have "set (vh_held h6) = {}"
    using 6(2) H by (auto simp: moves_def)
  ultimately show ?thesis by simp
qed

text \<open>
  Property C14. A handler that was opened can be closed: \<open>hfm_close\<close> goes through, releases every
  resource exactly once and leaves none behind.
\<close>

theorem hfm_init_close:
  assumes "hfm_init cfg env h = Inr (True, h1)" and "vh_held h = []" and "log_fine h"
  shows "\<exists>h2. hfm_close env2 h1 = Inr h2 \<and> vh_held h2 = []"
proof -
  have "closable h1"
    using hfm_init_moves [OF assms(1,2)] assms(3) by (simp add: closable_def all_held_def)
  then show ?thesis by (rule hfm_close_ok)
qed

text \<open>
  Between the watcher's \<open>vmi_destroy\<close> and a restart that succeeds, a signal that ends
  the monitoring thread makes \<open>hfm_close\<close> (and every \<open>hfm_listen\<close>) use the destroyed instance.
\<close>

theorem close_while_down:
  assumes "hfm_init cfg env h = Inr (True, h1)" and "vh_held h = []" and "log_fine h"
  shows "hfm_close env2 (vmi_destroyed h1) = Inl UseAfterFree \<and>
    hfm_listen (vmi_destroyed h1) = Inl UseAfterFree"
proof -
  let ?d = "vmi_destroyed h1"
  have "log_fine ?d" using hfm_init_moves(3) [OF assms(1,2,3)] by (simp add: log_fine_def vmi_destroyed_def)
  then obtain h2 where h2: "log_vm env2 LV_INFO ''Close LibVMI on domain '' ?d = Inr h2" using log_vm_ok by blast
  have "Vmi \<notin> set (vh_held ?d)" by (simp add: vmi_destroyed_def)
  moreover have "Vmi \<notin> set (vh_held h2)"
    using log_vm_same [OF h2] by (simp add: same_handler_def vmi_destroyed_def)
  ultimately show ?thesis by (simp add: hfm_close_def h2 hfm_listen_def use_res_def)
qed

section \<open>Restarting\<close>


section \<open>A machine that comes up\<close>

definition good_env :: hfm_env where
  "good_env = \<lparr>he_time = ''12:00'', he_xc_open = True, he_ctx_alloc = True, he_name_to_domid = Some 7,
     he_vmi_init = True, he_paging = True, he_os_windows = True, he_vcpus = 2, he_memsize = 0x40000000,
     he_reg_step = (\<lambda>_. True), he_reg_int = False, he_reg_mem = True, he_slat_state = True,
     he_slat_create = True, he_slat_switch = True, he_csv_open = True, he_es_connect = True\<rparr>"

definition good_cfg :: config_t where
  "good_cfg = [''rekall-base'' \<mapsto> ''/etc/hfm'', ''output'' \<mapsto> ''console'']"

definition new_vm :: vmhdlr_t where
  "new_vm = \<lparr>vh_name = ''win7'', vh_logid = 0, vh_xen = None, vh_domid = 0, vh_vcpus = 0, vh_memsize = 0,
     vh_steps = 0, vh_out = None, vh_init_flags = replicate 5 False, vh_shadows = False, vh_held = [],
     vh_log = full_log\<rparr>"

lemma new_vm_fine: "vh_held new_vm = []" "log_fine new_vm"
  by (simp_all add: new_vm_def log_fine_def full_log_def log_inv_def log_start_def)

lemmas run_init = hfm_init_def xen_init_interface_def init_vmi_def setup_altp2m_def choose_output_def
  out_init_def log_id_def log_vm_def writelog_def get_arrays_def arr_get_def fits1024_def
  rekall_profile_def config_get_str_def acquire_def use_res_def release_def vcpu_list_def
  fail_with_def close_vmi_def xen_free_interface_def Let_def

lemma good_steps: "register_steps good_env (vcpu_list 2) h = Inr (True, h\<lparr>vh_steps := max (vh_steps h) 2\<rparr>)"
proof -
  have "vcpu_list 2 = [0, 1]" by (simp add: vcpu_list_def upt_rec)
  then show ?thesis by (simp add: good_env_def)
qed

text \<open>The machine comes up although the interrupt event could not be registered.\<close>

definition good_vm :: vmhdlr_t where
  "good_vm = new_vm\<lparr>vh_xen := Some \<lparr>xi_xc = True, xi_ctx = True, xi_domID = 7\<rparr>, vh_domid := 7,
     vh_vcpus := 2, vh_memsize := 0x40000000, vh_steps := 2, vh_out := Some OUT_CONSOLE, vh_held := all_held,
     vh_log := full_log\<lparr>lg_out := [(Stdout, log_line ''12:00'' LV_ERROR Stdout []
       ''Failed to register interrupt event on win7'')]\<rparr>\<rparr>"

lemma full_log_writes:
  "log_id good_env 0 LV_ERROR m (h\<lparr>vh_log := full_log\<rparr>) =
     Inr (h\<lparr>vh_log := full_log\<lparr>lg_out := [(Stdout, log_line ''12:00'' LV_ERROR Stdout [] m)]\<rparr>\<rparr>)"
  by (simp add: log_id_def writelog_def full_log_def log_start_def get_arrays_def arr_get_def
      MAX_ENTRIES_def good_env_def Let_def less_level_t_def)

lemma full_log_drops: "lg_level lg = LV_ERROR \<Longrightarrow> writelog t i LV_INFO m lg = Inr lg"
  by (simp add: writelog_def less_level_t_def)

lemma good_setup: "Vmi \<in> set (vh_held h) \<Longrightarrow> setup_altp2m good_env h = Inr (True, acquire Altp2m_view h)"
  by (simp add: setup_altp2m_def use_res_def good_env_def acquire_def Let_def)

lemma good_output: "choose_output good_cfg good_env h = Inr ((acquire Output h)\<lparr>vh_out := Some OUT_CONSOLE\<rparr>)"
  by (simp add: choose_output_def good_cfg_def config_get_str_def out_init_def)

lemma good_init: "hfm_init good_cfg good_env new_vm = Inr (True, good_vm)"
proof -
  let ?x = "\<lparr>xi_xc = True, xi_ctx = True, xi_domID = 7\<rparr>"
  let ?a = "new_vm\<lparr>vh_held := [Xc, Xl_ctx]\<rparr>"
  let ?b = "?a\<lparr>vh_xen := Some ?x\<rparr>"
  have x: "xen_init_interface good_env (vh_name new_vm) new_vm = Inr (Some ?x, ?a)"
    by (simp add: xen_init_interface_def good_env_def acquire_def new_vm_def Let_def)
  have l: "log_vm good_env LV_INFO m h = Inr h" if "lg_level (vh_log h) = LV_ERROR" for m h
    using full_log_drops [OF that] by (simp add: log_vm_def log_id_def)
  have lv: "lg_level (vh_log ?b) = LV_ERROR" by (simp add: new_vm_def full_log_def log_start_def)
  have p: "rekall_profile good_cfg n = fits1024 (''/etc/hfm'' @ ''/'' @ n @ ''.json'')" for n
    by (simp add: rekall_profile_def good_cfg_def config_get_str_def)
  define c where "c = ?b\<lparr>vh_held := [Xc, Xl_ctx, Vmi], vh_vcpus := 2, vh_memsize := 0x40000000,
      vh_domid := 7, vh_steps := 2\<rparr>"
  have lc: "log_vm good_env LV_ERROR m c =
      Inr (c\<lparr>vh_log := full_log\<lparr>lg_out := [(Stdout, log_line ''12:00'' LV_ERROR Stdout [] (m @ ''win7''))]\<rparr>\<rparr>)" for m
  proof -
    have "c = c\<lparr>vh_log := full_log\<rparr>" by (simp add: c_def new_vm_def)
    then show ?thesis using full_log_writes [of "m @ ''win7''" c]
      by (simp add: log_vm_def c_def new_vm_def)
  qed
  have v: "init_vmi good_cfg good_env ?b = Inr (True, c\<lparr>vh_log := full_log\<lparr>lg_out :=
      [(Stdout, log_line ''12:00'' LV_ERROR Stdout [] ''Failed to register interrupt event on win7'')]\<rparr>\<rparr>)"
  proof -
    have st: "register_steps good_env (vcpu_list 2) (?b\<lparr>vh_held := [Xc, Xl_ctx, Vmi], vh_vcpus := 2,
        vh_memsize := 0x40000000, vh_domid := 7\<rparr>) = Inr (True, c)"
      by (simp add: good_steps c_def new_vm_def)
    have e: "he_vmi_init good_env" "he_paging good_env" "he_os_windows good_env" "he_vcpus good_env = 2"
      "(ucast (he_memsize good_env) :: u32) = 0x40000000" "he_name_to_domid good_env = Some 7"
      "\<not> he_reg_int good_env" "he_reg_mem good_env"
      by (simp_all add: good_env_def)
    have acq: "acquire Vmi ?b = ?b\<lparr>vh_held := [Xc, Xl_ctx, Vmi]\<rparr>" by (simp add: acquire_def)
    show ?thesis
      unfolding init_vmi_def l [OF lv] rbind_Inr e Let_def acq p
      using st lc [of "''Failed to register interrupt event on ''"] e
      by (simp add: fits1024_def new_vm_def)
  qed
  obtain r where pr: "rekall_profile good_cfg (vh_name ?b) = Inr r"
    by (simp add: p fits1024_def new_vm_def)
  define d where "d = c\<lparr>vh_log := full_log\<lparr>lg_out :=
    [(Stdout, log_line ''12:00'' LV_ERROR Stdout [] ''Failed to register interrupt event on win7'')]\<rparr>\<rparr>"
  have "setup_altp2m good_env d = Inr (True, acquire Altp2m_view d)"
    by (rule good_setup) (simp add: d_def c_def)
  then have "hfm_init good_cfg good_env new_vm =
      Inr (True, (acquire Output (acquire Trap_manager (acquire Altp2m_view d)))\<lparr>vh_out := Some OUT_CONSOLE\<rparr>)"
    by (simp only: hfm_init_def x rbind_Inr prod.case Let_def option.simps if_False pr v [folded d_def]
        not_True_eq_False good_output)
  then show ?thesis by (simp add: d_def c_def acquire_def good_vm_def all_held_def new_vm_def)
qed

theorem hfm_init_close_witness:
  "hfm_init good_cfg good_env new_vm = Inr (True, good_vm) \<and>
     (\<exists>h2. hfm_close good_env good_vm = Inr h2 \<and> vh_held h2 = [])"
  using good_init hfm_init_close [OF good_init new_vm_fine] by blast

theorem close_while_down_witness:
  "hfm_close good_env (vmi_destroyed good_vm) = Inl UseAfterFree"
  using close_while_down [OF good_init new_vm_fine] by blast

definition back_env :: hfm_env where
  "back_env = good_env\<lparr>he_reg_int := True\<rparr>"


definition no_xen :: hfm_env where
  "no_xen = good_env\<lparr>he_xc_open := False\<rparr>"

theorem hfm_init_failure_releases_witness:
  "\<exists>h'. hfm_init good_cfg no_xen new_vm = Inr (False, h') \<and> vh_held h' = []"
proof -
  have w: "\<exists>h'. log_id no_xen 0 LV_ERROR m h = Inr h'" if "log_fine h" for m h
    using that log_id_ok by (simp add: log_fine_def MAX_ENTRIES_def)
  obtain h1 where 1: "log_id no_xen 0 LV_ERROR ''xc_interface_open() failed'' new_vm = Inr h1"
    using w new_vm_fine by blast
  have "log_fine (h1\<lparr>vh_xen := None\<rparr>)"
    using log_id_same [OF 1] new_vm_fine by (simp add: same_handler_def log_fine_def)
  then obtain h2 where 2: "log_vm no_xen LV_ERROR ''Failed to init XEN on domain '' (h1\<lparr>vh_xen := None\<rparr>) = Inr h2"
    using log_vm_ok by blast
  have "hfm_init good_cfg no_xen new_vm = Inr (False, h2)"
    by (simp add: hfm_init_def xen_init_interface_def no_xen_def [THEN arg_cong [where f = he_xc_open]]
        1 xen_free_interface_def fail_with_def 2 Let_def)
  then show ?thesis
    using hfm_init_failure_releases [of good_cfg no_xen new_vm h2] new_vm_fine(1)
    by (auto simp: no_xen_def good_env_def)
qed

end
