(* ===== verification/Lifecycle_Total.thy ===== *)
theory Lifecycle_Total
  imports Lifecycle_Props
begin

text \<open>
  \<open>hfm_init\<close> never runs into undefined behaviour when its configuration is complete and its
  handler has a log entry, and it succeeds exactly when the libraries do, with one exception: the
  outcome of registering the interrupt event does not count.
\<close>

definition cfg_fits :: "config_t \<Rightarrow> string \<Rightarrow> bool" where
  "cfg_fits cfg name \<longleftrightarrow>
     (\<exists>p. rekall_profile cfg name = Inr p) \<and>
     (\<exists>out. config_get_str cfg ''output'' = Some out \<and>
        (out = ''csv'' \<longrightarrow> length ((case config_get_str cfg ''csv-path'' of None \<Rightarrow> ''./'' | Some b \<Rightarrow> b) @
            ''/output/'' @ name @ ''.out'') < 1024) \<and>
        (out = ''es'' \<longrightarrow> config_get_str cfg ''output_es_url'' \<noteq> None))"

definition env_opens :: "hfm_env \<Rightarrow> bool" where
  "env_opens env \<longleftrightarrow> he_xc_open env \<and> he_ctx_alloc env \<and>
     (\<exists>d. he_name_to_domid env = Some d \<and> (ucast d :: u16) \<noteq> 0 \<and> sint d \<noteq> - 1) \<and>
     he_vmi_init env \<and> he_paging env \<and> he_os_windows env \<and>
     (\<forall>i \<in> set (vcpu_list (he_vcpus env)). he_reg_step env i) \<and> he_reg_mem env \<and>
     he_slat_state env \<and> he_slat_create env \<and> he_slat_switch env"

lemma fail_with_ok:
  assumes "log_fine h" and "\<And>x. same_handler h x \<Longrightarrow> \<exists>y. c x = Inr y"
  shows "\<exists>h'. fail_with env m c h = Inr (False, h')"
proof -
  obtain x where x: "log_vm env LV_ERROR m h = Inr x" using log_vm_ok [OF assms(1)] by blast
  obtain y where "c x = Inr y" using assms(2) [OF log_vm_same [OF x]] by blast
  then show ?thesis using x by (simp add: fail_with_def)
qed

lemma close_vmi_ok: "Vmi \<in> set (vh_held h) \<Longrightarrow> \<exists>h'. close_vmi h = Inr h'"
  by (simp add: close_vmi_def release_def)

lemma log_fine_acquire [simp]: "log_fine (acquire r h) = log_fine h"
  by (simp add: log_fine_def acquire_def)

lemma xen_init_ok:
  assumes "log_fine h"
  shows "\<exists>xen h'. xen_init_interface env name h = Inr (xen, h') \<and>
    (xen \<noteq> None \<longleftrightarrow> he_xc_open env \<and> he_ctx_alloc env \<and>
      (\<exists>d. he_name_to_domid env = Some d \<and> (ucast d :: u16) \<noteq> 0))"
proof -
  have l: "\<exists>x. log_id env 0 LV_ERROR m y = Inr x" if "log_inv (vh_log y)" for m y
    using log_id_ok [OF that, of 0] by simp
  have lf: "log_inv (vh_log h)" using assms by (simp add: log_fine_def)
  consider "\<not> he_xc_open env" | "he_xc_open env" "\<not> he_ctx_alloc env" | "he_xc_open env" "he_ctx_alloc env"
    by blast
  then show ?thesis
  proof cases
    case 1
    obtain x where "log_id env 0 LV_ERROR ''xc_interface_open() failed'' h = Inr x" using l lf by blast
    then show ?thesis using 1 by (simp add: xen_init_interface_def xen_free_interface_def)
  next
    case 2
    have "log_inv (vh_log (acquire Xc h))" using lf by (simp add: acquire_def)
    then obtain x where x: "log_id env 0 LV_ERROR ''libxl_ctx_alloc() failed'' (acquire Xc h) = Inr x"
      using l by blast
    have "Xc \<in> set (vh_held x)" using log_id_same [OF x] by (simp add: same_handler_def acquire_def)
    then show ?thesis using 2 x
      by (simp add: xen_init_interface_def xen_free_interface_def release_def Let_def)
  next
    case 3
    define d :: u16 where "d = (case he_name_to_domid env of None \<Rightarrow> 0 | Some d \<Rightarrow> ucast d)"
    let ?x = "\<lparr>xi_xc = True, xi_ctx = True, xi_domID = d\<rparr>"
    let ?h = "acquire Xl_ctx (acquire Xc h)"
    have small: "uint d \<noteq> 2 ^ 32 - 1" using uint_lt2p [of d] by simp
    have some: "d \<noteq> 0 \<longleftrightarrow> (\<exists>d. he_name_to_domid env = Some d \<and> (ucast d :: u16) \<noteq> 0)"
      by (simp add: d_def split: option.split)
    show ?thesis
    proof (cases "d = 0")
      case True
      have "log_inv (vh_log ?h)" using lf by (simp add: acquire_def)
      then obtain x where x: "log_id env 0 LV_ERROR (''Failed to get domID from domain name '' @ name) ?h = Inr x"
        using l by blast
      have "Xc \<in> set (vh_held x)" "Xl_ctx \<in> set (vh_held x)"
        using log_id_same [OF x] by (simp_all add: same_handler_def acquire_def)
      then obtain y where "xen_free_interface (Some ?x) x = Inr y"
        using xen_free_full_ok [of "Some ?x" x] by (auto simp: full_xen_def)
      then have "xen_init_interface env name h = Inr (None, y)"
        using 3 x True by (simp add: xen_init_interface_def Let_def d_def)
      then show ?thesis using True some by blast
    next
      case False
      then have "xen_init_interface env name h = Inr (Some ?x, ?h)"
        using 3 small by (simp add: xen_init_interface_def Let_def d_def)
      then show ?thesis using False some 3 by simp
    qed
  qed
qed

lemma register_steps_ok:
  "log_fine h \<Longrightarrow> \<exists>h'. register_steps env is h = Inr (\<forall>i \<in> set is. he_reg_step env i, h')"
proof (induction env "is" h rule: register_steps.induct)
  case (2 env i "is" h)
  let ?h = "h\<lparr>vh_steps := max (vh_steps h) (i + 1)\<rparr>"
  have f: "log_fine ?h" using 2(2) by (simp add: log_fine_def)
  show ?case
  proof (cases "he_reg_step env i")
    case True
    then show ?thesis using 2(1) [OF refl True f] by (simp add: Let_def)
  next
    case False
    obtain x where "log_vm env LV_ERROR ''Failed to register singlestep for vCPU on '' ?h = Inr x"
      using log_vm_ok [OF f] by blast
    then show ?thesis using False by (auto simp: Let_def)
  qed
qed simp

lemma init_vmi_ok:
  assumes f: "log_fine h" and p: "\<exists>p. rekall_profile cfg (vh_name h) = Inr p"
    and d: "he_name_to_domid env = Some d" "(ucast d :: u16) \<noteq> 0"
  shows "\<exists>h'. init_vmi cfg env h = Inr (he_vmi_init env \<and> he_paging env \<and> he_os_windows env \<and>
    sint d \<noteq> - 1 \<and> (\<forall>i \<in> set (vcpu_list (he_vcpus env)). he_reg_step env i) \<and> he_reg_mem env, h')"
proof -
  obtain h1 where l: "log_vm env LV_INFO ''Init VMI on domain '' h = Inr h1"
    using log_vm_ok [OF f] by blast
  have s1: "same_handler h h1" by (rule log_vm_same [OF l])
  have f1: "log_fine h1" by (rule log_fine_same [OF s1 f])
  have p1: "\<exists>p. rekall_profile cfg (vh_name (acquire Vmi h1)) = Inr p"
    using p s1 by (simp add: same_handler_def acquire_def)
  have cl: "\<exists>h'. fail_with env m close_vmi x = Inr (False, h')" if "log_fine x" "Vmi \<in> set (vh_held x)" for m x
    by (rule fail_with_ok [OF that(1)]) (use that(2) in \<open>auto simp: same_handler_def intro: close_vmi_ok\<close>)
  let ?h2 = "acquire Vmi h1"
  let ?h3 = "?h2\<lparr>vh_vcpus := he_vcpus env, vh_memsize := ucast (he_memsize env), vh_domid := sint d\<rparr>"
  have f3: "log_fine ?h2" "log_fine ?h3" "Vmi \<in> set (vh_held ?h2)" "Vmi \<in> set (vh_held ?h3)"
    using f1 by (simp_all add: log_fine_def acquire_def)
  have d0: "sint d \<noteq> 0" using d(2) by (metis signed_0 signed_word_eqI unsigned_0)
  obtain h4 where st: "register_steps env (vcpu_list (he_vcpus env)) ?h3 =
      Inr (\<forall>i \<in> set (vcpu_list (he_vcpus env)). he_reg_step env i, h4)"
    using register_steps_ok [OF f3(2)] by blast
  have s4: "same_handler ?h3 h4" by (rule register_steps_same [OF st])
  have f4: "log_fine h4" "Vmi \<in> set (vh_held h4)"
    using log_fine_same [OF s4 f3(2)] s4 by (simp_all add: same_handler_def acquire_def)
  obtain h5 where h5: "(if he_reg_int env then Inr h4
      else log_vm env LV_ERROR ''Failed to register interrupt event on '' h4) = Inr h5"
    using log_vm_ok [OF f4(1), of env LV_ERROR "''Failed to register interrupt event on ''"]
    by (cases "he_reg_int env") auto
  have s5: "same_handler h4 h5" using h5 log_vm_same by (auto split: if_splits)
  have f5: "log_fine h5" "Vmi \<in> set (vh_held h5)"
    using log_fine_same [OF s5 f4(1)] s5 f4(2) by (simp_all add: same_handler_def)
  obtain c4 where c4: "close_vmi h4 = Inr c4" using close_vmi_ok [OF f4(2)] by blast
  show ?thesis
  proof (cases "he_vmi_init env \<and> he_paging env \<and> he_os_windows env \<and> sint d \<noteq> - 1")
    case False
    have "\<exists>h'. fail_with env m Inr h1 = Inr (False, h')" for m by (rule fail_with_ok [OF f1]) simp
    then show ?thesis
      using False cl [OF f3(1,3)] cl [OF f3(2,4)] p1 d d0 by (auto simp: init_vmi_def l Let_def)
  next
    case True
    obtain r where r: "rekall_profile cfg (vh_name ?h2) = Inr r" using p1 by blast
    have "init_vmi cfg env h =
      (if \<not> (\<forall>i \<in> set (vcpu_list (he_vcpus env)). he_reg_step env i) then Inr (False, c4)
       else if \<not> he_reg_mem env
       then fail_with env ''Failed to register generic mem event on '' close_vmi h5 else Inr (True, h5))"
      using True d d0 c4 h5 by (simp add: init_vmi_def l Let_def r st)
    then show ?thesis using True cl [OF f5] by auto
  qed
qed

lemma setup_altp2m_ok:
  assumes "log_fine h" and "Vmi \<in> set (vh_held h)"
  shows "\<exists>h'. setup_altp2m env h = Inr (he_slat_state env \<and> he_slat_create env \<and> he_slat_switch env, h')"
proof -
  have "\<exists>h'. fail_with env m Inr x = Inr (False, h')" if "log_fine x" for m x
    by (rule fail_with_ok [OF that]) simp
  from this [OF assms(1)] this [of "acquire Altp2m_view h"] assms show ?thesis
    by (auto simp: setup_altp2m_def use_res_def Let_def)
qed

lemma choose_output_ok:
  assumes "log_fine h" and "cfg_fits cfg (vh_name h)"
  shows "\<exists>h'. choose_output cfg env h = Inr h'"
proof -
  have l: "\<exists>h'. log_id env 0 LV_FATAL m h = Inr h'" for m
    using log_id_ok [of h 0 env LV_FATAL] assms(1) by (simp add: log_fine_def)
  have o: "\<exists>h'. out_init env ty t h = Inr h'" for ty t
  proof (cases ty)
    case OUT_CONSOLE
    then show ?thesis by (simp add: out_init_def)
  next
    case OUT_CSV
    then show ?thesis using l [of "''Error open csv file '' @ t"] by (auto simp: out_init_def)
  next
    case OUT_ELASTICSEARCH
    then show ?thesis using l [of "''Error connect to elasticsearch server '' @ t"] by (auto simp: out_init_def)
  qed
  show ?thesis
    using assms(2) o by (auto simp: choose_output_def cfg_fits_def fits1024_def Let_def split: option.splits)
qed

lemma hfm_init_succeeds_iff_aux:
  assumes f: "log_fine h" and c: "cfg_fits cfg (vh_name h)" and held: "vh_held h = []"
  shows "\<exists>h'. hfm_init cfg env h = Inr (env_opens env, h')"
proof -
  obtain xen h1 where x: "xen_init_interface env (vh_name h) h = Inr (xen, h1)"
    and xn: "xen \<noteq> None \<longleftrightarrow> he_xc_open env \<and> he_ctx_alloc env \<and>
      (\<exists>d. he_name_to_domid env = Some d \<and> (ucast d :: u16) \<noteq> 0)"
    using xen_init_ok [OF f] by blast
  note mx = xen_init_moves [OF x, unfolded held, simplified]
  have f1: "log_fine (h1\<lparr>vh_xen := xen\<rparr>)" "vh_name h1 = vh_name h"
    using mx f by (auto simp: moves_def log_fine_def split: if_splits)
  show ?thesis
  proof (cases "xen = None")
    case True
    have "\<exists>h'. fail_with env ''Failed to init XEN on domain '' (xen_free_interface None) (h1\<lparr>vh_xen := None\<rparr>)
        = Inr (False, h')"
      using f1 True by (intro fail_with_ok) (simp_all add: xen_free_interface_def)
    moreover have "\<not> env_opens env" using xn True by (auto simp: env_opens_def)
    ultimately show ?thesis using True by (auto simp: hfm_init_def x Let_def)
  next
    case False
    then obtain x0 where x0: "xen = Some x0" by blast
    let ?h1 = "h1\<lparr>vh_xen := xen\<rparr>"
    obtain d where d: "he_name_to_domid env = Some d" "(ucast d :: u16) \<noteq> 0" using xn False by blast
    obtain r where r: "rekall_profile cfg (vh_name h) = Inr r" using c by (auto simp: cfg_fits_def)
    define k where "k \<longleftrightarrow> he_vmi_init env \<and> he_paging env \<and> he_os_windows env \<and>
      sint d \<noteq> - 1 \<and> (\<forall>i \<in> set (vcpu_list (he_vcpus env)). he_reg_step env i) \<and> he_reg_mem env"
    obtain h2 where v: "init_vmi cfg env ?h1 = Inr (k, h2)"
      using init_vmi_ok [of ?h1 cfg, OF f1(1) _ d] r f1(2) by (auto simp: k_def)
    have mv: "moves ?h1 h2 (if k then [Xc, Xl_ctx, Vmi] else [Xc, Xl_ctx])"
      using init_vmi_moves [OF v] mx False by (auto simp: moves_def split: if_splits)
    have x2: "full_xen (vh_xen h2)" "log_fine h2" "vh_name h2 = vh_name h"
      using mv mx False f1 by (simp_all add: moves_def log_fine_def)
    show ?thesis
    proof (cases k)
      case nk: False
      obtain h3 where "xen_free_interface (vh_xen h2) h2 = Inr h3"
        using xen_free_full_ok [OF x2(1), of h2] mv nk by (auto simp: moves_def)
      moreover have "\<not> env_opens env" using nk d by (auto simp: env_opens_def k_def)
      ultimately show ?thesis using False v nk r f1(2) by (simp add: hfm_init_def x Let_def x0)
    next
      case k: True
      then have vm: "Vmi \<in> set (vh_held h2)" using mv by (simp add: moves_def)
      define j where "j \<longleftrightarrow> he_slat_state env \<and> he_slat_create env \<and> he_slat_switch env"
      obtain h3 where s: "setup_altp2m env h2 = Inr (j, h3)"
        using setup_altp2m_ok [OF x2(2) vm] by (auto simp: j_def)
      have m3: "set (vh_held h2) \<subseteq> set (vh_held h3)" "vh_xen h3 = vh_xen h2" "log_fine h3" "vh_name h3 = vh_name h"
        using setup_altp2m_moves(1) [OF s] x2 by (auto simp: moves_def log_fine_def split: if_splits)
      show ?thesis
      proof (cases j)
        case nj: False
        obtain h4 where c4: "close_vmi h3 = Inr h4" using close_vmi_ok m3(1) vm by blast
        note m4 = release_moves [OF c4 [unfolded close_vmi_def]]
        obtain h5 where "xen_free_interface (vh_xen h4) h4 = Inr h5"
          using xen_free_full_ok [of "vh_xen h4" h4] m4 m3 mv k x2(1) by (auto simp: moves_def)
        moreover have "\<not> env_opens env" using nj by (auto simp: env_opens_def j_def)
        ultimately show ?thesis using False v k s nj c4 r f1(2) by (simp add: hfm_init_def x Let_def x0)
      next
        case True
        obtain h4 where "choose_output cfg env (acquire Trap_manager h3) = Inr h4"
          using choose_output_ok [of "acquire Trap_manager h3" cfg env] m3(3,4) c by (auto simp: acquire_def log_fine_def)
        moreover have "env_opens env" using k True xn False d by (auto simp: env_opens_def k_def j_def)
        ultimately show ?thesis using False v k s True r f1(2) by (simp add: hfm_init_def x Let_def x0)
      qed
    qed
  qed
qed



end
