(* ===== verification/Multiwatch.thy ===== *)
theory Multiwatch
  imports Prelude
begin

text \<open>
  The watcher that restarts the monitoring of a rebooted machine (\<open>src/multiwatch.c\<close>): one
  monitoring thread visits the machines in turn and drives a state machine for each, a boot thread
  per rebooting machine tells it when the guest is up, and the monitoring threads of \<open>main.c\<close> ask
  whether they may listen. What libvmi and the restart callback answer in one visit is the record
  \<open>visit_env\<close>; which instances are alive is part of the state, so that the use of a destroyed
  instance shows as undefined behaviour. Sleeps are not modelled.
\<close>

section \<open>Data\<close>

definition MAX_WATCHED :: nat where "MAX_WATCHED = 10"

datatype state_t =
    STATE_SHUTDOWN
  | STATE_BOOTING
  | STATE_RUNNING
  | STATE_DESTROY
  | STATE_RESTARTED

text \<open>A \<open>vmi_instance_t *\<close> is a number; the instance behind it may be dead.\<close>

type_synonym vmi_ptr = nat

record vm_hdlr_t =
  h_vmi :: vmi_ptr
  h_name :: string
  h_state :: state_t
  h_restart_cb :: bool
  h_boot_done :: bool
  h_okay :: bool

text \<open>The array of handlers up to \<open>size\<close>; a freed handler is \<open>None\<close>.\<close>

record watcher_t =
  wv_closed :: bool
  wv_hdlr :: "vm_hdlr_t option list"

definition wv_init :: watcher_t where
  "wv_init = \<lparr>wv_closed = False, wv_hdlr = []\<rparr>"

definition wv_size :: "watcher_t \<Rightarrow> nat" where
  "wv_size wv = length (wv_hdlr wv)"

text \<open>The eleventh handler is written behind the array.\<close>

definition wv_add_vm :: "watcher_t \<Rightarrow> vmi_ptr \<Rightarrow> string \<Rightarrow> bool \<Rightarrow> watcher_t result" where
  "wv_add_vm wv vmi name cb =
     (if wv_size wv \<ge> MAX_WATCHED then Inl OutOfBounds
      else Inr (wv\<lparr>wv_hdlr := wv_hdlr wv @ [Some \<lparr>h_vmi = vmi, h_name = name, h_state = STATE_RUNNING,
             h_restart_cb = cb, h_boot_done = False, h_okay = True\<rparr>]\<rparr>))"

definition get_hdlr :: "watcher_t \<Rightarrow> nat \<Rightarrow> vm_hdlr_t result" where
  "get_hdlr wv i =
     rbind (arr_get (wv_hdlr wv) (int i)) (\<lambda>h. case h of None \<Rightarrow> Inl UseAfterFree | Some h \<Rightarrow> Inr h)"

text \<open>The flag that is returned is the one of the first handler.\<close>

fun wv_vmi_okay_loop :: "watcher_t \<Rightarrow> vmi_ptr \<Rightarrow> nat list \<Rightarrow> bool result" where
  "wv_vmi_okay_loop wv vmi [] = Inr False"
| "wv_vmi_okay_loop wv vmi (i # is) =
     rbind (get_hdlr wv i) (\<lambda>h.
       if h_vmi h = vmi then rbind (get_hdlr wv 0) (\<lambda>h0. Inr (h_okay h0))
       else wv_vmi_okay_loop wv vmi is)"

definition wv_vmi_okay :: "watcher_t \<Rightarrow> vmi_ptr \<Rightarrow> bool result" where
  "wv_vmi_okay wv vmi = wv_vmi_okay_loop wv vmi [0 ..< wv_size wv]"

text \<open>\<open>wv_close\<close> frees the handlers first and raises the flag for the monitoring thread then.\<close>

definition wv_close_free :: "watcher_t \<Rightarrow> watcher_t" where
  "wv_close_free wv = wv\<lparr>wv_hdlr := replicate (wv_size wv) None\<rparr>"

definition wv_close :: "watcher_t \<Rightarrow> watcher_t" where
  "wv_close wv = (wv_close_free wv)\<lparr>wv_closed := True\<rparr>"

section \<open>Waiting for the guest to boot\<close>

text \<open>
  \<open>cr3_cb\<close> with its static variable \<open>prev\<close>. The result says whether the guest counts as booted.
\<close>

definition cr3_cb :: "u64 \<Rightarrow> u64 \<Rightarrow> bool \<times> u64" where
  "cr3_cb prev cr3 = (prev \<noteq> 0 \<and> prev \<noteq> cr3, cr3)"

text \<open>The CR3 writes reported by one call of \<open>vmi_events_listen\<close>; the event is cleared at the hit.\<close>

fun cr3_events :: "u64 \<Rightarrow> u64 list \<Rightarrow> bool \<times> u64" where
  "cr3_events prev [] = (False, prev)"
| "cr3_events prev (c # cs) =
     (case cr3_cb prev c of (hit, prev') \<Rightarrow> if hit then (True, prev') else cr3_events prev' cs)"

text \<open>
  \<open>_wait_for_booting\<close>: the first loop is never entered, as \<open>status\<close> starts as a failure. The
  second one listens until a CR3 write counts as a boot or listening fails; the argument is what
  the calls of \<open>vmi_events_listen\<close> give, one after the other. The result is the last value of
  \<open>prev\<close>, or \<open>None\<close> while it still waits.
\<close>

fun wait_for_booting :: "u64 \<Rightarrow> (bool \<times> u64 list) list \<Rightarrow> u64 option" where
  "wait_for_booting prev [] = None"
| "wait_for_booting prev ((ok, cs) # rest) =
     (case cr3_events prev cs of (init, prev') \<Rightarrow>
      if \<not> ok then Some prev'
      else if init then Some prev'
      else wait_for_booting prev' rest)"

text \<open>
  \<open>_wait_boot_fc\<close>: whether \<open>boot_done\<close> is set when the thread ends, with the value of \<open>prev\<close>;
  \<open>None\<close> while it waits. Without an instance it ends at once.
\<close>

definition wait_boot_fc :: "bool \<Rightarrow> u64 \<Rightarrow> (bool \<times> u64 list) list \<Rightarrow> (bool \<times> u64) option" where
  "wait_boot_fc vmi prev evs =
     (if \<not> vmi then Some (False, prev)
      else map_option (\<lambda>prev'. (True, prev')) (wait_for_booting prev evs))"

section \<open>The state machine\<close>

text \<open>
  What one visit gets from outside: the outcome of \<open>vmi_init\<close> (with what it leaves in the
  variable), of \<open>pthread_create\<close>, of \<open>vmi_get_vcpureg\<close> and of the restart callback.
\<close>

datatype init_answer = Init_ok | Init_fail_null | Init_fail_inst | Init_fail_unset

record visit_env =
  ve_init :: init_answer
  ve_thread :: bool
  ve_lstar :: "u64 option"
  ve_restart :: bool
  ve_restart_live :: bool

definition ping_vm :: "visit_env \<Rightarrow> bool" where
  "ping_vm env = (case ve_lstar env of None \<Rightarrow> False | Some lstar \<Rightarrow> lstar \<noteq> 0)"

text \<open>
  The live instances and the machines whose boot thread runs belong to the state. Pinging or
  destroying an instance that is not alive is a use of freed memory.
\<close>

record wv_sys =
  s_wv :: watcher_t
  s_live :: "vmi_ptr \<Rightarrow> bool"
  s_booting :: "nat set"
  s_pos :: nat

type_synonym visit = "vm_hdlr_t \<times> (vmi_ptr \<Rightarrow> bool) \<times> bool"

definition get_vm_state :: "visit_env \<Rightarrow> vm_hdlr_t \<Rightarrow> (vmi_ptr \<Rightarrow> bool) \<Rightarrow> visit result" where
  "get_vm_state env h live =
     (case h_state h of
        STATE_SHUTDOWN \<Rightarrow>
          (case ve_init env of
             Init_ok \<Rightarrow> Inr (h\<lparr>h_boot_done := False, h_state := STATE_BOOTING\<rparr>, live, ve_thread env)
           | Init_fail_unset \<Rightarrow> Inl Uninitialised
           | _ \<Rightarrow> Inr (h, live, False))
      | STATE_BOOTING \<Rightarrow>
          Inr (if h_boot_done h then h\<lparr>h_state := STATE_RESTARTED\<rparr> else h, live, False)
      | STATE_RUNNING \<Rightarrow>
          if \<not> h_okay h then Inr (h, live, False)
          else if \<not> live (h_vmi h) then Inl UseAfterFree
          else if \<not> ping_vm env
          then Inr (h\<lparr>h_okay := False, h_state := STATE_DESTROY\<rparr>, live, False)
          else Inr (h, live, False)
      | STATE_DESTROY \<Rightarrow>
          if \<not> live (h_vmi h) then Inl UseAfterFree
          else Inr (h\<lparr>h_state := STATE_SHUTDOWN\<rparr>, live(h_vmi h := False), False)
      | STATE_RESTARTED \<Rightarrow> Inr (h\<lparr>h_state := STATE_RUNNING\<rparr>, live, False))"

text \<open>One round of the loop in \<open>_monitor_fc\<close>; a callback that succeeds has made a new instance.\<close>

definition visit_hdlr :: "visit_env \<Rightarrow> vm_hdlr_t \<Rightarrow> (vmi_ptr \<Rightarrow> bool) \<Rightarrow> visit result" where
  "visit_hdlr env h live =
     rbind (get_vm_state env h live) (\<lambda>(h, live, spawn).
       if h_state h = STATE_RESTARTED \<and> h_restart_cb h
       then if ve_restart env then Inr (h\<lparr>h_okay := True\<rparr>, live(h_vmi h := True), spawn)
            else Inr (h, live(h_vmi h := ve_restart_live env), spawn)
       else Inr (h, live, spawn))"

definition monitor_visit :: "visit_env \<Rightarrow> wv_sys \<Rightarrow> wv_sys result" where
  "monitor_visit env s =
     (let i = s_pos s in
      rbind (get_hdlr (s_wv s) i) (\<lambda>h.
      rbind (visit_hdlr env h (s_live s)) (\<lambda>(h', live, spawn).
        Inr (s\<lparr>s_wv := (s_wv s)\<lparr>wv_hdlr := (wv_hdlr (s_wv s))[i := Some h']\<rparr>, s_live := live,
               s_booting := (if spawn then insert i (s_booting s) else s_booting s),
               s_pos := (if Suc i < wv_size (s_wv s) then Suc i else 0)\<rparr>))))"

text \<open>
  The steps of the threads: the monitoring thread visits the next machine, or a boot thread ends.
  A boot thread writes to the handler it was started for.
\<close>

inductive wv_step :: "wv_sys \<Rightarrow> wv_sys \<Rightarrow> bool" where
  Visit: "\<not> wv_closed (s_wv s) \<Longrightarrow> s_pos s < wv_size (s_wv s) \<Longrightarrow> monitor_visit env s = Inr s' \<Longrightarrow>
     wv_step s s'"
| Boot_end: "i \<in> s_booting s \<Longrightarrow> wv_hdlr (s_wv s) ! i = Some h \<Longrightarrow> i < wv_size (s_wv s) \<Longrightarrow>
     wait_boot_fc vmi prev evs = Some (dn, prev') \<Longrightarrow>
     wv_step s (s\<lparr>s_wv := (s_wv s)\<lparr>wv_hdlr := (wv_hdlr (s_wv s))
         [i := Some (h\<lparr>h_boot_done := h_boot_done h \<or> dn\<rparr>)]\<rparr>,
       s_booting := s_booting s - {i}\<rparr>)"

inductive_cases wv_stepE: "wv_step s s'"

text \<open>The watcher of \<open>main\<close>: machine \<open>i\<close> has instance \<open>i\<close>.\<close>

definition wv_start_sys :: "string list \<Rightarrow> wv_sys" where
  "wv_start_sys names = \<lparr>s_wv = \<lparr>wv_closed = False, wv_hdlr =
       map (\<lambda>i. Some \<lparr>h_vmi = i, h_name = names ! i, h_state = STATE_RUNNING, h_restart_cb = True,
         h_boot_done = False, h_okay = True\<rparr>) [0 ..< length names]\<rparr>,
     s_live = (\<lambda>_. True), s_booting = {}, s_pos = 0\<rparr>"

definition add_vms :: "string list \<Rightarrow> watcher_t result" where
  "add_vms names = foldm (\<lambda>(i, n) wv. wv_add_vm wv i n True) (enumerate 0 names) wv_init"

end
