(* ===== verification/Multiwatch_Props.thy ===== *)
theory Multiwatch_Props
  imports Multiwatch
begin

text \<open>
  The watcher's state machine: an instance is never pinged or destroyed when it is dead, a machine
  that counts as okay is alive, and what the program makes of it: the flag of the first machine is
  used for all, a failed restart is final, and closing the watcher races with its thread.
\<close>

section \<open>The invariant of a handler\<close>

definition hdlr_inv :: "(vmi_ptr \<Rightarrow> bool) \<Rightarrow> nat set \<Rightarrow> nat \<Rightarrow> vm_hdlr_t \<Rightarrow> bool" where
  "hdlr_inv live booting i h \<longleftrightarrow> h_vmi h = i \<and>
     (h_okay h \<longrightarrow> (h_state h = STATE_RUNNING \<or> h_state h = STATE_RESTARTED) \<and> live i) \<and>
     (h_state h = STATE_DESTROY \<longrightarrow> live i) \<and>
     (i \<in> booting \<longrightarrow> h_state h = STATE_BOOTING \<and> \<not> h_boot_done h)"

lemma hdlr_inv_other:
  "hdlr_inv live booting j h \<Longrightarrow> j \<noteq> i \<Longrightarrow>
   hdlr_inv (live(i := b)) booting j h \<and> hdlr_inv live (insert i booting) j h \<and>
   hdlr_inv (live(i := b)) (insert i booting) j h \<and> hdlr_inv live (booting - {i}) j h"
  by (auto simp: hdlr_inv_def)

lemma visit_hdlr_inv:
  assumes "hdlr_inv live booting i h" and "visit_hdlr env h live = Inr (h', live', spawn)"
  shows "hdlr_inv live' (if spawn then insert i booting else booting) i h'"
    and "live' = live \<or> (\<exists>b. live' = live(i := b))"
    and "h_restart_cb h' = h_restart_cb h"
  using assms
  by (auto simp: visit_hdlr_def get_vm_state_def hdlr_inv_def result_simps
      split: state_t.splits init_answer.splits if_splits)

lemma visit_hdlr_ok:
  assumes "hdlr_inv live booting i h" and "ve_init env \<noteq> Init_fail_unset"
  shows "\<exists>r. visit_hdlr env h live = Inr r"
  using assms
  by (auto simp: visit_hdlr_def get_vm_state_def hdlr_inv_def split: state_t.splits init_answer.splits)

text \<open>\<open>hdlr_of s i\<close> is the handler of machine \<open>i\<close>, if it is not freed.\<close>

definition hdlr_of :: "wv_sys \<Rightarrow> nat \<Rightarrow> vm_hdlr_t option" where
  "hdlr_of s i = (if i < wv_size (s_wv s) then wv_hdlr (s_wv s) ! i else None)"

definition wv_inv :: "wv_sys \<Rightarrow> bool" where
  "wv_inv s \<longleftrightarrow> \<not> wv_closed (s_wv s) \<and> 0 < wv_size (s_wv s) \<and> s_pos s < wv_size (s_wv s) \<and>
     (\<forall>i < wv_size (s_wv s). \<exists>h. hdlr_of s i = Some h \<and> hdlr_inv (s_live s) (s_booting s) i h)"

lemma get_hdlr_of: "get_hdlr wv i = Inr h \<longleftrightarrow> i < wv_size wv \<and> wv_hdlr wv ! i = Some h"
  by (auto simp: get_hdlr_def wv_size_def result_simps split: option.splits)

lemma wv_invD:
  assumes "wv_inv s" and "i < wv_size (s_wv s)"
  obtains h where "hdlr_of s i = Some h" and "get_hdlr (s_wv s) i = Inr h"
    and "hdlr_inv (s_live s) (s_booting s) i h"
proof -
  obtain h where "hdlr_of s i = Some h" "hdlr_inv (s_live s) (s_booting s) i h"
    using assms unfolding wv_inv_def by blast
  then show ?thesis using that assms(2) by (simp add: get_hdlr_of hdlr_of_def)
qed

lemma monitor_visit_split:
  assumes "monitor_visit env s = Inr s'" and "wv_inv s"
  obtains h h' live' spawn where "hdlr_of s (s_pos s) = Some h"
    and "visit_hdlr env h (s_live s) = Inr (h', live', spawn)"
    and "hdlr_inv (s_live s) (s_booting s) (s_pos s) h"
    and "s' = s\<lparr>s_wv := (s_wv s)\<lparr>wv_hdlr := (wv_hdlr (s_wv s))[s_pos s := Some h']\<rparr>,
      s_live := live', s_booting := (if spawn then insert (s_pos s) (s_booting s) else s_booting s),
      s_pos := (if Suc (s_pos s) < wv_size (s_wv s) then Suc (s_pos s) else 0)\<rparr>"
proof -
  have "s_pos s < wv_size (s_wv s)" using assms(2) by (simp add: wv_inv_def)
  from wv_invD [OF assms(2) this] obtain h where h: "hdlr_of s (s_pos s) = Some h"
    "get_hdlr (s_wv s) (s_pos s) = Inr h" "hdlr_inv (s_live s) (s_booting s) (s_pos s) h" .
  then show ?thesis
    using assms(1) that by (auto simp: monitor_visit_def Let_def result_simps)
qed

lemma hdlr_of_update:
  "hdlr_of (s\<lparr>s_wv := (s_wv s)\<lparr>wv_hdlr := (wv_hdlr (s_wv s))[i := Some h]\<rparr>, s_live := l,
     s_booting := b, s_pos := p\<rparr>) j =
   (if i < wv_size (s_wv s) \<and> j = i then Some h else hdlr_of s j)"
  "hdlr_of (s\<lparr>s_wv := (s_wv s)\<lparr>wv_hdlr := (wv_hdlr (s_wv s))[i := Some h]\<rparr>, s_booting := b\<rparr>) j =
   (if i < wv_size (s_wv s) \<and> j = i then Some h else hdlr_of s j)"
  by (auto simp: hdlr_of_def wv_size_def)

lemma wv_size_update [simp]: "wv_size (wv\<lparr>wv_hdlr := (wv_hdlr wv)[i := h]\<rparr>) = wv_size wv"
  by (simp add: wv_size_def)

lemma wv_inv_visit:
  assumes inv: "wv_inv s" and v: "monitor_visit env s = Inr s'"
  shows "wv_inv s'"
proof -
  obtain h h' live' spawn where h: "hdlr_of s (s_pos s) = Some h"
    and vh: "visit_hdlr env h (s_live s) = Inr (h', live', spawn)"
    and hi: "hdlr_inv (s_live s) (s_booting s) (s_pos s) h"
    and s': "s' = s\<lparr>s_wv := (s_wv s)\<lparr>wv_hdlr := (wv_hdlr (s_wv s))[s_pos s := Some h']\<rparr>,
      s_live := live', s_booting := (if spawn then insert (s_pos s) (s_booting s) else s_booting s),
      s_pos := (if Suc (s_pos s) < wv_size (s_wv s) then Suc (s_pos s) else 0)\<rparr>"
    using monitor_visit_split [OF v inv] by metis
  note new = visit_hdlr_inv [OF hi vh]
  have "\<exists>g. hdlr_of s' i = Some g \<and> hdlr_inv (s_live s') (s_booting s') i g"
    if i: "i < wv_size (s_wv s)" for i
  proof (cases "i = s_pos s")
    case True
    then show ?thesis using new(1) i by (simp add: s' hdlr_of_update)
  next
    case False
    obtain g where g: "hdlr_of s i = Some g" "hdlr_inv (s_live s) (s_booting s) i g"
      using wv_invD [OF inv i] by metis
    then show ?thesis
      using False new(2) hdlr_inv_other [OF g(2) False] by (auto simp: s' hdlr_of_update)
  qed
  then show ?thesis using inv by (auto simp: wv_inv_def s')
qed

lemma wv_inv_step: "wv_step s s' \<Longrightarrow> wv_inv s \<Longrightarrow> wv_inv s'"
proof (induction rule: wv_step.induct)
  case (Visit s env s')
  then show ?case using wv_inv_visit by blast
next
  case (Boot_end i s h vmi prev evs dn prev')
  let ?s' = "s\<lparr>s_wv := (s_wv s)\<lparr>wv_hdlr := (wv_hdlr (s_wv s))
         [i := Some (h\<lparr>h_boot_done := h_boot_done h \<or> dn\<rparr>)]\<rparr>, s_booting := s_booting s - {i}\<rparr>"
  have "\<exists>g. hdlr_of ?s' j = Some g \<and> hdlr_inv (s_live ?s') (s_booting ?s') j g"
    if j: "j < wv_size (s_wv s)" for j
  proof -
    obtain g where g: "hdlr_of s j = Some g" "hdlr_inv (s_live s) (s_booting s) j g"
      using wv_invD [OF Boot_end.prems j] by metis
    show ?thesis
    proof (cases "j = i")
      case True
      then have "g = h" using g(1) Boot_end.hyps(2,3) by (simp add: hdlr_of_def)
      then show ?thesis
        using True g(2) Boot_end.hyps by (auto simp: hdlr_of_update hdlr_inv_def)
    next
      case False
      then show ?thesis using g hdlr_inv_other [OF g(2) False] by (simp add: hdlr_of_update)
    qed
  qed
  then show ?case using Boot_end.prems by (auto simp: wv_inv_def)
qed

lemma wv_inv_start: "names \<noteq> [] \<Longrightarrow> wv_inv (wv_start_sys names)"
  by (auto simp: wv_inv_def wv_start_sys_def wv_size_def hdlr_of_def hdlr_inv_def)

lemma wv_inv_reach: "wv_step\<^sup>*\<^sup>* s s' \<Longrightarrow> wv_inv s \<Longrightarrow> wv_inv s'"
  by (induction rule: rtranclp_induct) (auto intro: wv_inv_step)

section \<open>Properties\<close>

lemma add_vms_bound:
  "add_vms names =
     (if length names \<le> 10 then Inr (s_wv (wv_start_sys names)) else Inl OutOfBounds)"
proof -
  define mk where "mk = (\<lambda>(i, n). Some \<lparr>h_vmi = i, h_name = n, h_state = STATE_RUNNING,
      h_restart_cb = True, h_boot_done = False, h_okay = True\<rparr>)"
  have gen: "foldm (\<lambda>(i, n) wv. wv_add_vm wv i n True) xs \<lparr>wv_closed = False, wv_hdlr = hs\<rparr> =
      (if length hs + length xs \<le> 10 then Inr \<lparr>wv_closed = False, wv_hdlr = hs @ map mk xs\<rparr>
       else Inl OutOfBounds)" if "length hs \<le> 10" for xs hs
    using that
  proof (induction xs arbitrary: hs)
    case (Cons x xs)
    then show ?case
      by (cases x) (auto simp: wv_add_vm_def wv_size_def MAX_WATCHED_def mk_def)
  qed simp
  have "map mk (enumerate 0 names) = wv_hdlr (s_wv (wv_start_sys names))"
    by (rule nth_equalityI) (simp_all add: wv_start_sys_def mk_def nth_enumerate_eq)
  then show ?thesis
    unfolding add_vms_def wv_init_def using gen [of "[]" "enumerate 0 names"]
    by (simp add: wv_start_sys_def)
qed

text \<open>
  Ten machines can be watched and are then set up as running; the eleventh is written
  behind the array of handlers.
\<close>

theorem wv_add_vm_bound:
  "add_vms names =
     (if length names \<le> 10 then Inr (s_wv (wv_start_sys names)) else Inl OutOfBounds)"
  by (rule add_vms_bound)


lemma okay_loop_answer:
  assumes "wv_inv s" and "wv_vmi_okay_loop (s_wv s) v is = Inr True"
    and "\<forall>i \<in> set is. i < wv_size (s_wv s)"
  obtains h where "hdlr_of s 0 = Some h" and "h_okay h"
  using assms
proof (induction "is" arbitrary: thesis)
  case (Cons i "is")
  obtain h where h: "get_hdlr (s_wv s) i = Inr h"
    using wv_invD [OF Cons.prems(2), of i] Cons.prems(4) by fastforce
  show ?case
  proof (cases "h_vmi h = v")
    case True
    then obtain h0 where "get_hdlr (s_wv s) 0 = Inr h0" "h_okay h0"
      using Cons.prems(3) h by (auto simp: result_simps)
    then show ?thesis using Cons.prems(1) by (auto simp: get_hdlr_of hdlr_of_def)
  next
    case False
    then show ?thesis using Cons h by (auto simp: result_simps)
  qed
qed simp

text \<open>
  When the watcher says that listening is okay, the instance of the first machine is
  alive. With a single machine, its thread thus never listens on a dead instance.
\<close>

theorem okay_means_first_alive:
  assumes "names \<noteq> []" and "wv_step\<^sup>*\<^sup>* (wv_start_sys names) s"
    and "wv_vmi_okay (s_wv s) v = Inr True"
  shows "s_live s 0"
proof -
  have inv: "wv_inv s" by (rule wv_inv_reach [OF assms(2) wv_inv_start [OF assms(1)]])
  obtain h where h: "hdlr_of s 0 = Some h" "h_okay h"
    by (rule okay_loop_answer [OF inv assms(3) [unfolded wv_vmi_okay_def]]) simp_all
  have "0 < wv_size (s_wv s)" using inv by (simp add: wv_inv_def)
  then show ?thesis using wv_invD [OF inv] h by (metis hdlr_inv_def option.inject)
qed

section \<open>What goes wrong\<close>

definition all_well :: visit_env where
  "all_well = \<lparr>ve_init = Init_ok, ve_thread = True, ve_lstar = Some 0xFFFFF80000000000,
     ve_restart = True, ve_restart_live = True\<rparr>"

definition no_answer :: visit_env where
  "no_answer = all_well\<lparr>ve_lstar := None, ve_restart := False, ve_restart_live := False\<rparr>"

lemma visit_step: "monitor_visit env s = Inr s' \<Longrightarrow> \<not> wv_closed (s_wv s) \<Longrightarrow>
    s_pos s < wv_size (s_wv s) \<Longrightarrow> wv_step\<^sup>*\<^sup>* s0 s \<Longrightarrow> wv_step\<^sup>*\<^sup>* s0 s'"
  by (meson rtranclp.rtrancl_into_rtrancl wv_step.Visit)

lemmas run_simps = monitor_visit_def visit_hdlr_def get_vm_state_def get_hdlr_def arr_get_def
  ping_vm_def Let_def all_well_def no_answer_def wv_size_def

text \<open>
  With two machines, the second one can go down, its instance be destroyed, and the
  watcher still tell the thread of that machine that it may listen, because the first one is well.
\<close>

theorem okay_of_the_wrong_vm:
  "\<exists>s. wv_step\<^sup>*\<^sup>* (wv_start_sys [n0, n1]) s \<and> wv_vmi_okay (s_wv s) 1 = Inr True \<and> \<not> s_live s 1"
proof -
  define H where "H = (\<lambda>i n st ok. Some \<lparr>h_vmi = i, h_name = n, h_state = st, h_restart_cb = True,
     h_boot_done = False, h_okay = ok\<rparr>)"
  define S where "S = (\<lambda>st ok live p. \<lparr>s_wv = \<lparr>wv_closed = False,
     wv_hdlr = [H 0 n0 STATE_RUNNING True, H 1 n1 st ok]\<rparr>, s_live = live, s_booting = {}, s_pos = p\<rparr>)"
  let ?l = "\<lambda>_ :: nat. True"
  have start: "wv_start_sys [n0, n1] = S STATE_RUNNING True ?l 0"
    by (simp add: wv_start_sys_def S_def H_def upt_rec)
  have "monitor_visit all_well (S STATE_RUNNING True ?l 0) = Inr (S STATE_RUNNING True ?l 1)"
    "monitor_visit no_answer (S STATE_RUNNING True ?l 1) = Inr (S STATE_DESTROY False ?l 0)"
    "monitor_visit all_well (S STATE_DESTROY False ?l 0) = Inr (S STATE_DESTROY False ?l 1)"
    "monitor_visit all_well (S STATE_DESTROY False ?l 1) = Inr (S STATE_SHUTDOWN False (?l(1 := False)) 0)"
    by (simp_all add: run_simps S_def H_def)
  note v = this
  have r: "wv_step\<^sup>*\<^sup>* (S STATE_RUNNING True ?l 0) (S STATE_SHUTDOWN False (?l(1 := False)) 0)"
    by (rule visit_step [OF v(4)], simp add: S_def, simp add: S_def wv_size_def,
        rule visit_step [OF v(3)], simp add: S_def, simp add: S_def wv_size_def,
        rule visit_step [OF v(2)], simp add: S_def, simp add: S_def wv_size_def,
        rule visit_step [OF v(1)], simp add: S_def, simp add: S_def wv_size_def, simp)
  have "wv_vmi_okay (s_wv (S STATE_SHUTDOWN False (?l(1 := False)) 0)) 1 = Inr True"
    by (simp add: wv_vmi_okay_def wv_size_def S_def H_def get_hdlr_def arr_get_def upt_rec)
  then show ?thesis using r start by (intro exI conjI) (auto simp: S_def)
qed

text \<open>
  A machine whose restart failed stays like that: it counts as running but not as
  okay, so it is never pinged or restarted again, whatever the threads do.
\<close>

theorem failed_restart_is_final:
  assumes "names \<noteq> []" and "wv_step\<^sup>*\<^sup>* (wv_start_sys names) s"
    and "hdlr_of s i = Some h" and "h_state h = STATE_RUNNING" and "\<not> h_okay h"
    and "wv_step\<^sup>*\<^sup>* s s'"
  shows "hdlr_of s' i = Some h"
proof -
  have inv: "wv_inv s" by (rule wv_inv_reach [OF assms(2) wv_inv_start [OF assms(1)]])
  have "hdlr_of s' i = Some h \<and> wv_inv s'"
    using assms(6)
  proof (induction rule: rtranclp_induct)
    case base
    show ?case using assms(3) inv by blast
  next
    case (step y z)
    have iz: "wv_inv z" using step.hyps(2) step.IH wv_inv_step by blast
    from step.hyps(2) have "hdlr_of z i = Some h"
    proof (cases rule: wv_step.cases)
      case (Visit env)
      obtain g g' live' spawn where g: "hdlr_of y (s_pos y) = Some g"
        "visit_hdlr env g (s_live y) = Inr (g', live', spawn)"
        and z: "z = y\<lparr>s_wv := (s_wv y)\<lparr>wv_hdlr := (wv_hdlr (s_wv y))[s_pos y := Some g']\<rparr>,
          s_live := live', s_booting := (if spawn then insert (s_pos y) (s_booting y) else s_booting y),
          s_pos := (if Suc (s_pos y) < wv_size (s_wv y) then Suc (s_pos y) else 0)\<rparr>"
        using monitor_visit_split [OF Visit(3)] step.IH by metis
      show ?thesis
      proof (cases "i = s_pos y")
        case True
        then have "g' = h"
          using g step.IH assms(4,5) by (simp add: visit_hdlr_def get_vm_state_def)
        then show ?thesis using True step.IH Visit(2) by (simp add: z hdlr_of_update)
      next
        case False
        then show ?thesis using step.IH by (simp add: z hdlr_of_update)
      qed
    next
      case (Boot_end j g vmi prev evs dn prev')
      have "j \<noteq> i"
      proof
        assume "j = i"
        moreover have "i < wv_size (s_wv y)" using Boot_end(4) calculation by simp
        ultimately have "hdlr_inv (s_live y) (s_booting y) i h"
          using wv_invD [of y i] step.IH by (metis option.inject)
        then show False using Boot_end(2) assms(4) \<open>j = i\<close> by (simp add: hdlr_inv_def)
      qed
      then show ?thesis using step.IH Boot_end(1) by (simp add: hdlr_of_update)
    qed
    then show ?case using iz by blast
  qed
  then show ?thesis by blast
qed

text \<open>
  \<open>wv_close\<close> frees the handlers before it stops the monitoring thread: a visit in
  between reads a freed handler.
\<close>

theorem close_races_with_monitor:
  assumes "names \<noteq> []" and "wv_step\<^sup>*\<^sup>* (wv_start_sys names) s"
  shows "monitor_visit env (s\<lparr>s_wv := wv_close_free (s_wv s)\<rparr>) = Inl UseAfterFree"
proof -
  have "wv_inv s" by (rule wv_inv_reach [OF assms(2) wv_inv_start [OF assms(1)]])
  then have "s_pos s < wv_size (s_wv s)" by (simp add: wv_inv_def)
  then show ?thesis
    by (simp add: monitor_visit_def Let_def get_hdlr_def wv_close_free_def wv_size_def arr_get_def)
qed

text \<open>
  \<open>prev\<close> survives a boot: the next time, the first CR3 write counts as the end of the boot; and
  a boot counts as done when listening fails.
\<close>

lemma second_boot_at_once:
  "prev \<noteq> 0 \<Longrightarrow> c \<noteq> prev \<Longrightarrow> wait_boot_fc True prev ((True, c # cs) # rest) = Some (True, c)"
  by (simp add: wait_boot_fc_def cr3_cb_def)

lemma listen_failure_is_boot: "\<exists>p. wait_boot_fc True prev ((False, cs) # rest) = Some (True, p)"
  by (simp add: wait_boot_fc_def split: prod.splits)

section \<open>Concrete runs\<close>


theorem okay_means_first_alive_witness: "s_live (wv_start_sys [''win7'', ''win10'']) 0"
  by (rule okay_means_first_alive [where v = 1, OF _ rtranclp.rtrancl_refl])
    (simp_all add: wv_start_sys_def wv_vmi_okay_def wv_size_def get_hdlr_def arr_get_def upt_rec)

theorem close_races_with_monitor_witness:
  "monitor_visit all_well ((wv_start_sys [''win7''])\<lparr>s_wv := wv_close_free (s_wv (wv_start_sys [''win7'']))\<rparr>)
     = Inl UseAfterFree"
  by (rule close_races_with_monitor [OF _ rtranclp.rtrancl_refl]) simp

definition one_vm :: "state_t \<Rightarrow> bool \<Rightarrow> bool \<Rightarrow> bool \<Rightarrow> nat set \<Rightarrow> wv_sys" where
  "one_vm st bd ok live b = \<lparr>s_wv = \<lparr>wv_closed = False, wv_hdlr = [Some \<lparr>h_vmi = 0,
     h_name = ''win7'', h_state = st, h_restart_cb = True, h_boot_done = bd, h_okay = ok\<rparr>]\<rparr>,
     s_live = (\<lambda>i. i \<noteq> 0 \<or> live), s_booting = b, s_pos = 0\<rparr>"

lemma one_vm_simps [simp]:
  "\<not> wv_closed (s_wv (one_vm st bd ok live b))" "s_pos (one_vm st bd ok live b) = 0"
  "wv_size (s_wv (one_vm st bd ok live b)) = 1"
  by (simp_all add: one_vm_def wv_size_def)

lemma one_vm_visits:
  "monitor_visit no_answer (one_vm STATE_RUNNING False True True {}) =
     Inr (one_vm STATE_DESTROY False False True {})"
  "monitor_visit all_well (one_vm STATE_DESTROY False False True {}) =
     Inr (one_vm STATE_SHUTDOWN False False False {})"
  "monitor_visit all_well (one_vm STATE_SHUTDOWN False False False {}) =
     Inr (one_vm STATE_BOOTING False False False {0})"
  "monitor_visit no_answer (one_vm STATE_BOOTING True False False {}) =
     Inr (one_vm STATE_RESTARTED True False False {})"
  "monitor_visit all_well (one_vm STATE_RESTARTED True False False {}) =
     Inr (one_vm STATE_RUNNING True False False {})"
  by (auto simp: run_simps one_vm_def fun_eq_iff)

lemma one_vm_boot: "wv_step (one_vm STATE_BOOTING False False False {0}) (one_vm STATE_BOOTING True False False {})"
proof -
  let ?s = "one_vm STATE_BOOTING False False False {0}"
  have h: "wv_hdlr (s_wv ?s) ! 0 = Some \<lparr>h_vmi = 0, h_name = ''win7'', h_state = STATE_BOOTING,
      h_restart_cb = True, h_boot_done = False, h_okay = False\<rparr>"
    by (simp add: one_vm_def)
  have w: "wait_boot_fc True 1 [(True, [2])] = Some (True, 2)"
    by (simp add: wait_boot_fc_def cr3_cb_def)
  have "0 \<in> s_booting ?s" by (simp add: one_vm_def)
  from wv_step.Boot_end [OF this h _ w] show ?thesis by (simp add: one_vm_def wv_size_def)
qed

lemma one_vm_failed: "wv_step\<^sup>*\<^sup>* (wv_start_sys [''win7'']) (one_vm STATE_RUNNING True False False {})"
proof -
  have start: "wv_start_sys [''win7''] = one_vm STATE_RUNNING False True True {}"
    by (simp add: wv_start_sys_def one_vm_def)
  note vs = one_vm_visits [THEN visit_step, simplified one_vm_simps]
  have "wv_step\<^sup>*\<^sup>* (one_vm STATE_RUNNING False True True {}) (one_vm STATE_BOOTING False False False {0})"
    by (rule vs(3), simp, simp, rule vs(2), simp, simp, rule vs(1), simp, simp, simp)
  from this one_vm_boot
  have "wv_step\<^sup>*\<^sup>* (one_vm STATE_RUNNING False True True {}) (one_vm STATE_BOOTING True False False {})"
    by (rule rtranclp.rtrancl_into_rtrancl)
  then show ?thesis
    unfolding start by (intro vs(5) vs(4)) simp_all
qed

theorem failed_restart_is_final_witness:
  "\<exists>s h. wv_step\<^sup>*\<^sup>* (wv_start_sys [''win7'']) s \<and> hdlr_of s 0 = Some h \<and> \<not> h_okay h \<and>
     (\<forall>s'. wv_step\<^sup>*\<^sup>* s s' \<longrightarrow> hdlr_of s' 0 = Some h)"
proof -
  let ?s = "one_vm STATE_RUNNING True False False {}"
  let ?h = "\<lparr>h_vmi = 0, h_name = ''win7'', h_state = STATE_RUNNING, h_restart_cb = True,
    h_boot_done = True, h_okay = False\<rparr>"
  have h: "hdlr_of ?s 0 = Some ?h" by (simp add: hdlr_of_def one_vm_def wv_size_def)
  have "wv_step\<^sup>*\<^sup>* ?s s' \<Longrightarrow> hdlr_of s' 0 = Some ?h" for s'
    by (rule failed_restart_is_final [OF _ one_vm_failed h]) simp_all
  then show ?thesis using h one_vm_failed by (intro exI conjI) auto
qed

end
