(* ===== verification/Program.thy ===== *)
theory Program
  imports Lifecycle_Total Multiwatch_Props
begin

text \<open>
  The main program (\<open>src/main.c\<close>): the command line and how it is merged with the configuration
  file, the machines named in the configuration, the loop of a machine's thread and the way
  through \<open>main\<close>.
\<close>

section \<open>The command line\<close>

definition VM_MAX :: nat where "VM_MAX = 10"

definition DEFAULT_CONFIG :: string where "DEFAULT_CONFIG = ''/etc/hfm/hfm.cfg''"

text \<open>
  \<open>getopt(argc, argv, "p:c:l:v:")\<close> of glibc, on the arguments after the program's name: an option
  letter with its argument, which is the rest of the word or the next word; other words are
  skipped, \<open>--\<close> ends the options. An unknown letter or a missing argument gives \<open>'?'\<close>.
\<close>

fun getopt_all :: "string list \<Rightarrow> (char \<times> string) list" where
  "getopt_all [] = []"
| "getopt_all (w # ws) =
     (if w = ''--'' then []
      else case w of
        [] \<Rightarrow> getopt_all ws
      | [_] \<Rightarrow> getopt_all ws
      | a # c # rest \<Rightarrow>
          if a \<noteq> CHR ''-'' then getopt_all ws
          else if c \<notin> set ''pclv'' then (CHR ''?'', []) # getopt_all ws
          else if rest \<noteq> [] then (c, rest) # getopt_all ws
          else (case ws of
                  [] \<Rightarrow> [(CHR ''?'', [])]
                | arg # ws' \<Rightarrow> (c, arg) # getopt_all ws'))"

text \<open>
  The four buffers. \<open>strncpy\<close> leaves a string of 1024 characters and more without its terminator,
  and what is read from the buffer later runs over its end.
\<close>

record options_t =
  o_cfg :: string
  o_policy :: string
  o_log :: string
  o_vmlist :: string

definition no_options :: options_t where
  "no_options = \<lparr>o_cfg = [], o_policy = [], o_log = [], o_vmlist = []\<rparr>"

text \<open>\<open>None\<close>: the usage is printed and the program exits.\<close>

fun read_options :: "(char \<times> string) list \<Rightarrow> options_t \<Rightarrow> options_t option" where
  "read_options [] opts = Some opts"
| "read_options ((c, optarg) # rest) opts =
     (if c = CHR ''p'' then read_options rest (opts\<lparr>o_policy := optarg\<rparr>)
      else if c = CHR ''c'' then read_options rest (opts\<lparr>o_cfg := optarg\<rparr>)
      else if c = CHR ''l'' then read_options rest (opts\<lparr>o_log := optarg\<rparr>)
      else if c = CHR ''v'' then read_options rest (opts\<lparr>o_vmlist := optarg\<rparr>)
      else None)"

definition merge :: "string \<Rightarrow> string \<Rightarrow> config_t \<Rightarrow> config_t result" where
  "merge key value cfg =
     (if value = [] then Inr cfg
      else rbind (fits1024 value) (\<lambda>v. Inr (config_set_str cfg key v)))"

text \<open>\<open>load\<close> gives what the key file of a path holds.\<close>

definition read_config :: "(string \<Rightarrow> keyfile option) \<Rightarrow> string list \<Rightarrow> config_t option result" where
  "read_config load argv =
     (case read_options (getopt_all argv) no_options of
        None \<Rightarrow> Inr None
      | Some opts \<Rightarrow>
          rbind (if o_cfg opts \<noteq> [] then fits1024 (o_cfg opts) else Inr DEFAULT_CONFIG) (\<lambda>cfg_file.
          rbind (merge ''policy_file'' (o_policy opts) (config_init (load cfg_file))) (\<lambda>cfg.
          rbind (merge ''log_file'' (o_log opts) cfg) (\<lambda>cfg.
          rbind (merge ''vmlist'' (o_vmlist opts) cfg) (\<lambda>cfg. Inr (Some cfg))))))"

section \<open>The machines\<close>

text \<open>A handler from \<open>calloc\<close>, with its name and log entry.\<close>

definition calloc_vmhdlr :: "string \<Rightarrow> int \<Rightarrow> log_t \<Rightarrow> vmhdlr_t" where
  "calloc_vmhdlr name logid log = \<lparr>vh_name = name, vh_logid = logid, vh_xen = None, vh_domid = 0,
     vh_vcpus = 0, vh_memsize = 0, vh_steps = 0, vh_out = None, vh_init_flags = replicate 5 False,
     vh_shadows = False, vh_held = [], vh_log = log\<rparr>"

text \<open>
  The loop of \<open>_init_vms\<close> over the tokens; \<open>open_vm\<close> is \<open>hfm_init\<close>. The log is passed through
  the handlers, so that of a handler that was opened is the log at that time.
\<close>

definition quota_msg :: string where
  "quota_msg = ''Number of VMs exceed the quota (10). Ignore the others''"

fun init_vms_loop ::
  "(vmhdlr_t \<Rightarrow> (bool \<times> vmhdlr_t) result) \<Rightarrow> (string \<Rightarrow> bool) \<Rightarrow> string \<Rightarrow> string list \<Rightarrow> vmhdlr_t list \<Rightarrow> log_t \<Rightarrow>
   (vmhdlr_t list \<times> log_t) result" where
  "init_vms_loop open_vm can_open time [] vms log = Inr (vms, log)"
| "init_vms_loop open_vm can_open time (token # tokens) vms log =
     (if length vms \<ge> VM_MAX
      then rbind (writelog time 0 LV_WARN quota_msg log) (\<lambda>log. Inr (vms, log))
      else rbind (log_add_entry can_open time token log) (\<lambda>(logid, log).
           rbind (open_vm (calloc_vmhdlr token logid log)) (\<lambda>(ok, vm).
           if ok then init_vms_loop open_vm can_open time tokens (vms @ [vm]) (vh_log vm)
           else rbind (writelog time 0 LV_ERROR (''Failed to init domain '' @ token) (vh_log vm)) (\<lambda>log.
                init_vms_loop open_vm can_open time tokens vms log))))"

definition init_vms ::
  "(vmhdlr_t \<Rightarrow> (bool \<times> vmhdlr_t) result) \<Rightarrow> (string \<Rightarrow> bool) \<Rightarrow> string \<Rightarrow> string \<Rightarrow> log_t \<Rightarrow>
   (vmhdlr_t list \<times> log_t) result" where
  "init_vms open_vm can_open time str_vmlist log =
     rbind (fits1024 str_vmlist) (\<lambda>s.
       init_vms_loop open_vm can_open time (strtok_all '','' s) [] log)"

section \<open>The thread of a machine\<close>

text \<open>
  \<open>_monitor_vm\<close> looks at \<open>interrupted\<close> (which \<open>close_handler\<close> sets to the signal) and, with
  automatic restarts, at the watcher; then it listens, waits or closes the handler.
\<close>

datatype thread_act = Listen | Sleep | Close_handler

definition close_handler :: "int \<Rightarrow> int list \<Rightarrow> int list" where
  "close_handler sig interrupted = map (\<lambda>_. sig) interrupted"

definition monitor_vm_act :: "int \<Rightarrow> int \<Rightarrow> watcher_t \<Rightarrow> vmi_ptr \<Rightarrow> thread_act result" where
  "monitor_vm_act auto_restart interrupted wv vmi =
     (if interrupted \<noteq> 0 then Inr Close_handler
      else if auto_restart \<noteq> 0 then
        rbind (wv_vmi_okay wv vmi) (\<lambda>okay. Inr (if okay then Listen else Sleep))
      else Inr Listen)"

text \<open>The thread up to the close, on what it finds in each round.\<close>

fun monitor_vm :: "int \<Rightarrow> (int \<times> watcher_t) list \<Rightarrow> vmi_ptr \<Rightarrow> thread_act list result" where
  "monitor_vm auto_restart [] vmi = Inr []"
| "monitor_vm auto_restart ((interrupted, wv) # rest) vmi =
     rbind (monitor_vm_act auto_restart interrupted wv vmi) (\<lambda>act.
       if act = Close_handler then Inr [Close_handler]
       else rbind (monitor_vm auto_restart rest vmi) (\<lambda>acts. Inr (act # acts)))"

section \<open>The way through main\<close>

text \<open>
  The steps of \<open>main\<close>. Joining a watcher thread that was never created, or one of a watcher that
  is a null pointer, is undefined; \<open>vmnum\<close> machines are opened.
\<close>

datatype main_act =
    Mon_init
  | Log_init logger_t
  | No_policies
  | Get_policies string
  | Wv_init
  | No_vmlist
  | Init_vms string
  | Set_policies nat
  | Wv_add_vm nat
  | Wv_start
  | Start_thread nat
  | Join_thread nat
  | Free_policies
  | Log_close
  | Config_close
  | Mon_close
  | Wv_close

definition main_done :: "int \<Rightarrow> main_act list \<Rightarrow> main_act list result" where
  "main_done auto_restart acts =
     (let fin = [Free_policies, Log_close, Config_close, Mon_close] in
      if auto_restart = 0 then Inr (acts @ fin)
      else if Wv_init \<notin> set acts then Inl NullDeref
      else if Wv_start \<notin> set acts then Inl Uninitialised
      else Inr (acts @ fin @ [Wv_close]))"

definition main :: "config_t \<Rightarrow> bool \<Rightarrow> nat \<Rightarrow> main_act list result" where
  "main cfg mon_init_ok vmnum =
     (let auto_restart = config_get_int cfg ''auto-restart'';
          a0 = [Mon_init] in
      if \<not> mon_init_ok then main_done auto_restart a0
      else
        let a1 = a0 @ [Log_init (case config_get_str cfg ''log-dir'' of None \<Rightarrow> LOG_CONSOLE | Some _ \<Rightarrow> LOG_TEXTFILE)];
            a2 = a1 @ [case config_get_str cfg ''policy-file'' of None \<Rightarrow> No_policies | Some f \<Rightarrow> Get_policies f];
            a3 = a2 @ (if auto_restart \<noteq> 0 then [Wv_init] else []) in
        case config_get_str cfg ''vmlist'' of
          None \<Rightarrow> main_done auto_restart (a3 @ [No_vmlist])
        | Some vmlist \<Rightarrow>
            main_done auto_restart
              (a3 @ [Init_vms vmlist] @ map Set_policies [0 ..< vmnum] @
               (if auto_restart \<noteq> 0 then map Wv_add_vm [0 ..< vmnum] @ [Wv_start] else []) @
               map Start_thread [0 ..< vmnum] @ map Join_thread [0 ..< vmnum]))"

text \<open>The program: with an option it does not know, it prints its usage and exits with 1.\<close>

definition usage :: string where
  "usage =
     (let tab = CHR 0x09; nl = [CHR 0x0A] in
      ''Usage: hfm <options>'' @ nl @
      tab # '' -p <policy file>            Policy file path'' @ nl @
      tab # '' -c <config file>            Config file path'' @ nl @
      tab # '' -l <log file>               Log file path'' @ nl @
      tab # '' -v <vmlist>                 List of VMs to monitor, seperated by comma'' @ nl)"

datatype program_t = Exited int string | Ran "main_act list"

definition run_program ::
  "(string \<Rightarrow> keyfile option) \<Rightarrow> string list \<Rightarrow> bool \<Rightarrow> nat \<Rightarrow> program_t result" where
  "run_program load argv mon_init_ok vmnum =
     rbind (read_config load argv) (\<lambda>cfg. case cfg of
       None \<Rightarrow> Inr (Exited 1 usage)
     | Some cfg \<Rightarrow> map_sum id Ran (main cfg mon_init_ok vmnum))"

section \<open>What the command line changes\<close>

text \<open>The argument of the last option with the letter, if it is not empty.\<close>

definition option_arg :: "char \<Rightarrow> string list \<Rightarrow> string" where
  "option_arg c argv = (case map_of (rev (getopt_all argv)) c of None \<Rightarrow> [] | Some a \<Rightarrow> a)"

lemma read_options_args:
  assumes "read_options os opts = Some opts'"
  shows "o_policy opts' = (case map_of (rev os) (CHR ''p'') of None \<Rightarrow> o_policy opts | Some a \<Rightarrow> a)"
    and "o_cfg opts' = (case map_of (rev os) (CHR ''c'') of None \<Rightarrow> o_cfg opts | Some a \<Rightarrow> a)"
    and "o_log opts' = (case map_of (rev os) (CHR ''l'') of None \<Rightarrow> o_log opts | Some a \<Rightarrow> a)"
    and "o_vmlist opts' = (case map_of (rev os) (CHR ''v'') of None \<Rightarrow> o_vmlist opts | Some a \<Rightarrow> a)"
  using assms
  by (induction os opts rule: read_options.induct)
    (auto simp: map_add_def split: if_splits option.splits)

lemma merge_get:
  "merge key v cfg = Inr cfg' \<Longrightarrow>
   config_get_str cfg' k = (if k = key \<and> v \<noteq> [] then Some v else config_get_str cfg k)"
  by (auto simp: merge_def fits1024_def config_set_str_def config_get_str_def split: if_splits)

text \<open>
  Property C34. What the command line changes: the file of the last \<open>-c\<close> is read instead of the
  default one and the last \<open>-v\<close> replaces the list of machines, but \<open>-p\<close> and \<open>-l\<close> have no effect on
  the settings \<open>policy-file\<close> and \<open>log-dir\<close>, the ones the program uses.
\<close>

theorem command_line_settings:
  assumes "read_config load argv = Inr (Some cfg)"
  shows "config_get_str cfg ''vmlist'' =
      (if option_arg (CHR ''v'') argv \<noteq> [] then Some (option_arg (CHR ''v'') argv)
       else config_get_str (config_init (load
         (if option_arg (CHR ''c'') argv = [] then DEFAULT_CONFIG else option_arg (CHR ''c'') argv))) ''vmlist'') \<and>
    (\<forall>key \<in> {''policy-file'', ''log-dir'', ''auto-restart'', ''output'', ''rekall-base''}.
      config_get_str cfg key = config_get_str (config_init (load
         (if option_arg (CHR ''c'') argv = [] then DEFAULT_CONFIG else option_arg (CHR ''c'') argv))) key)"
proof -
  obtain opts where o: "read_options (getopt_all argv) no_options = Some opts"
    using assms by (auto simp: read_config_def split: option.splits)
  note args = read_options_args [OF o]
  have e: "o_cfg opts = option_arg (CHR ''c'') argv" "o_vmlist opts = option_arg (CHR ''v'') argv"
    using args by (auto simp: option_arg_def no_options_def split: option.split)
  let ?file = "if o_cfg opts = [] then DEFAULT_CONFIG else o_cfg opts"
  obtain c1 c2 where m: "merge ''policy_file'' (o_policy opts) (config_init (load ?file)) = Inr c1"
    "merge ''log_file'' (o_log opts) c1 = Inr c2" "merge ''vmlist'' (o_vmlist opts) c2 = Inr cfg"
    using assms by (auto simp: read_config_def o fits1024_def result_simps split: if_splits)
  show ?thesis
    unfolding e [symmetric] by (simp add: merge_get [OF m(3)] merge_get [OF m(2)] merge_get [OF m(1)])
qed

text \<open>
  A setting that is missing reads as -1, which is not 0: without \<open>auto-restart\<close> in the file, the
  program restarts machines automatically.
\<close>

lemma auto_restart_by_default:
  "config_get_str cfg ''auto-restart'' = None \<Longrightarrow> config_get_int cfg ''auto-restart'' = - 1"
  by (simp add: config_get_int_def config_get_str_def)

text \<open>
  Unless automatic restarts are switched off, a configuration without a list of
  machines ends in joining a thread that was never created.
\<close>

theorem main_without_vms:
  assumes "config_get_str cfg ''vmlist'' = None" and "config_get_int cfg ''auto-restart'' \<noteq> 0"
  shows "main cfg True n = Inl Uninitialised"
  using assms by (auto simp: main_def main_done_def Let_def split: option.split)

section \<open>Opening the machines\<close>

text \<open>
  The contract of \<open>hfm_init\<close> that the loop relies on: for a name \<open>fits\<close> accepts, a fresh handler
  with a log entry is opened or not as \<open>opens\<close> says, and the log stays usable.
\<close>

locale vm_opener =
  fixes open_vm :: "vmhdlr_t \<Rightarrow> (bool \<times> vmhdlr_t) result"
    and fits :: "string \<Rightarrow> bool"
    and opens :: "string \<Rightarrow> bool"
  assumes open_vm_result: "fits (vh_name h) \<Longrightarrow> log_fine h \<Longrightarrow> vh_held h = [] \<Longrightarrow>
    \<exists>h'. open_vm h = Inr (opens (vh_name h), h') \<and> log_inv (vh_log h') \<and> vh_name h' = vh_name h \<and>
      lg_logger (vh_log h') = lg_logger (vh_log h) \<and> lg_count (vh_log h') = lg_count (vh_log h) \<and>
      (opens (vh_name h) \<longrightarrow> vh_held h' = all_held)"
begin

lemma loop_result:
  assumes "log_inv log" and "lg_logger log = LOG_CONSOLE"
    and "\<forall>t \<in> set tokens. fits t \<and> length t < 1024"
    and "lg_count log + length tokens \<le> MAX_ENTRIES" and "length vms \<le> VM_MAX"
    and "\<forall>v \<in> set vms. vh_held v = all_held"
  shows "\<exists>vms' log'. init_vms_loop open_vm can_open time tokens vms log = Inr (vms', log') \<and>
    map vh_name vms' = take VM_MAX (map vh_name vms @ filter opens tokens) \<and>
    (\<forall>v \<in> set vms'. vh_held v = all_held)"
  using assms
proof (induction tokens arbitrary: vms log)
  case Nil
  then show ?case by simp
next
  case (Cons t ts)
  show ?case
  proof (cases "length vms \<ge> VM_MAX")
    case True
    obtain log' where "writelog time 0 LV_WARN quota_msg log = Inr log'"
      using writelog_inv [OF Cons.prems(1), of 0] by simp
    then show ?thesis using True Cons.prems(5,6) by simp
  next
    case False
    have c: "lg_count log < MAX_ENTRIES" using Cons.prems(4) by simp
    obtain fps names where ar: "lg_arrays log = Arrays fps names" "length fps = MAX_ENTRIES"
      "length names = MAX_ENTRIES" using Cons.prems(1) by (auto simp: log_inv_def)
    define log1 where "log1 = log\<lparr>lg_arrays := Arrays (fps[lg_count log := Some Stdout])
      (names[lg_count log := t]), lg_count := lg_count log + 1\<rparr>"
    have a: "log_add_entry can_open time t log = Inr (int (lg_count log), log1)"
      using c ar Cons.prems(2,3)
      by (simp add: log_add_entry_def get_arrays_def fits1024_def log1_def)
    have i1: "log_inv log1" by (rule log_add_entry_inv(1) [OF Cons.prems(1) a])
    let ?h = "calloc_vmhdlr t (int (lg_count log)) log1"
    have f: "log_fine ?h" "vh_held ?h = []" "vh_name ?h = t" "vh_log ?h = log1"
      using i1 c by (simp_all add: log_fine_def calloc_vmhdlr_def)
    obtain vm where o: "open_vm ?h = Inr (opens t, vm)" "log_inv (vh_log vm)" "vh_name vm = t"
      "lg_logger (vh_log vm) = LOG_CONSOLE" "lg_count (vh_log vm) = lg_count log + 1"
      "opens t \<longrightarrow> vh_held vm = all_held"
      using open_vm_result [OF _ f(1,2)] f(3,4) Cons.prems(2,3) by (auto simp: log1_def)
    show ?thesis
    proof (cases "opens t")
      case True
      have "length (vms @ [vm]) \<le> VM_MAX" using False by simp
      from Cons.IH [OF o(2) o(4) _ _ this] True o False a Cons.prems(3,4,6)
      show ?thesis by simp
    next
      case nt: False
      let ?m = "''Failed to init domain '' @ t"
      obtain out where w: "writelog time 0 LV_ERROR ?m (vh_log vm) = Inr ((vh_log vm)\<lparr>lg_out := out\<rparr>)"
        using writelog_inv [OF o(2), of 0] by simp
      have i2: "log_inv ((vh_log vm)\<lparr>lg_out := out\<rparr>)" using o(2) by (simp add: log_inv_def)
      from Cons.IH [OF i2, of vms] nt o False a w Cons.prems(3,4,5,6)
      show ?thesis by simp
    qed
  qed
qed

lemma init_vms_result:
  assumes "log_inv log" and "lg_logger log = LOG_CONSOLE" and "length s < 1024"
    and "\<forall>t \<in> set (strtok_all '','' s). fits t"
    and "lg_count log + length (strtok_all '','' s) \<le> MAX_ENTRIES"
    and "\<forall>t \<in> set (strtok_all '','' s). length t < 1024"
  shows "\<exists>vms log'. init_vms open_vm can_open time s log = Inr (vms, log') \<and>
    map vh_name vms = take VM_MAX (filter opens (strtok_all '','' s)) \<and>
    (\<forall>v \<in> set vms. vh_held v = all_held)"
  using loop_result [of log "strtok_all '','' s" "[]" can_open time] assms
  by (simp add: init_vms_def fits1024_def)

end

text \<open>\<open>hfm_init\<close> keeps the contract: its environment may differ from machine to machine.\<close>

interpretation hfm: vm_opener "\<lambda>h. hfm_init cfg (envs (vh_name h)) h" "cfg_fits cfg" "\<lambda>n. env_opens (envs n)"
proof
  fix h assume a: "cfg_fits cfg (vh_name h)" "log_fine h" "vh_held h = []"
  obtain h' where h': "hfm_init cfg (envs (vh_name h)) h = Inr (env_opens (envs (vh_name h)), h')"
    using hfm_init_succeeds_iff_aux [OF a(2,1,3)] by blast
  note m = hfm_init_moves [OF h' a(3)]
  show "\<exists>h'. hfm_init cfg (envs (vh_name h)) h = Inr (env_opens (envs (vh_name h)), h') \<and>
      log_inv (vh_log h') \<and> vh_name h' = vh_name h \<and>
      lg_logger (vh_log h') = lg_logger (vh_log h) \<and> lg_count (vh_log h') = lg_count (vh_log h) \<and>
      (env_opens (envs (vh_name h)) \<longrightarrow> vh_held h' = all_held)"
    using h' m(1,5) m(3) [OF a(2)] by (auto simp: log_fine_def)
qed


text \<open>The tokens that open: two machines, of which the second has no Xen domain.\<close>

definition demo_envs :: "string \<Rightarrow> hfm_env" where
  "demo_envs n = (if n = ''win7'' then good_env else no_xen)"

lemma two_tokens: "strtok_all '','' ''win7,xp'' = [''win7'', ''xp'']"
  by (simp add: strtok_all.simps strtok_def)

definition console_log :: log_t where
  "console_log = log_start\<lparr>lg_count := 1,
     lg_arrays := Arrays ((replicate MAX_ENTRIES None)[0 := Some Stdout]) ((replicate MAX_ENTRIES [])[0 := MAINTHREAD])\<rparr>"


theorem command_line_settings_witness:
  "\<exists>cfg. read_config (\<lambda>_. Some [Some [(''vmlist'', Some ''xp'')]]) [''-p'', ''hfm.pol'', ''-v'', ''win7''] = Inr (Some cfg) \<and>
     config_get_str cfg ''vmlist'' = Some ''win7'' \<and> config_get_str cfg ''policy-file'' = None"
proof -
  let ?load = "\<lambda>_. Some [Some [(''vmlist'', Some ''xp'')]] :: keyfile option"
  let ?argv = "[''-p'', ''hfm.pol'', ''-v'', ''win7'']"
  obtain cfg where r: "read_config ?load ?argv = Inr (Some cfg)"
    by (simp add: read_config_def no_options_def merge_def fits1024_def)
  have "option_arg (CHR ''v'') ?argv = ''win7''" "option_arg (CHR ''c'') ?argv = []"
    by (simp_all add: option_arg_def)
  with command_line_settings [OF r] r show ?thesis
    by (auto simp: config_get_str_def config_init_def)
qed

theorem main_without_vms_witness: "main Map.empty True 0 = Inl Uninitialised"
  by (rule main_without_vms) (simp_all add: config_get_str_def config_get_int_def)

section \<open>When the usage is printed\<close>

lemma read_options_None: "read_options os opts = None \<longleftrightarrow> (\<exists>(c, a) \<in> set os. c \<notin> set ''pclv'')"
  by (induction os opts rule: read_options.induct) auto

text \<open>The program does nothing but print its usage exactly when the command line has an unknown or incomplete option.\<close>

theorem usage_iff:
  "run_program load argv mon_init_ok vmnum = Inr (Exited 1 usage) \<longleftrightarrow>
     (\<exists>(c, a) \<in> set (getopt_all argv). c \<notin> set ''pclv'')"
proof (cases "read_options (getopt_all argv) no_options")
  case None
  then show ?thesis
    using read_options_None [of "getopt_all argv" no_options] by (simp add: run_program_def read_config_def)
next
  case (Some opts)
  have "map_sum id Ran r \<noteq> Inr (Exited 1 usage)" for r :: "main_act list result" by (cases r) simp_all
  then have "run_program load argv mon_init_ok vmnum \<noteq> Inr (Exited 1 usage)"
    using Some by (auto simp: run_program_def read_config_def rbind_eq_Inr)
  then show ?thesis using Some read_options_None [of "getopt_all argv" no_options] by simp
qed

end
