(* ===== verification/Win_Offsets.thy ===== *)
theory Win_Offsets
  imports Prelude
begin

text \<open>
  The members of Windows kernel structures the monitor reads (\<open>src/include/win_offsets.h\<close>), the
  reader of Rekall profiles (\<open>src/rekall.c\<close>) and the tables of offsets and sizes it fills
  (\<open>win_fill_offsets\<close>, \<open>win_fill_sizes\<close> of \<open>src/win.c\<close>). json-c is not part of the repository:
  its functions are the record \<open>json_api\<close>, an object pointer is an option. An array indexed by an
  enumeration is a function on it. The messages of \<open>rekall_lookup\<close> are left out.
\<close>

section \<open>Members and structures\<close>

datatype (plugins only: code size) win_offset =
    OBJECT_ATTRIBUTES__OBJECT_NAME
  | OBJECT_ATTRIBUTES__ROOT_DIRECTORY
  | UNICODE_STRING__LENGTH
  | UNICODE_STRING__BUFFER
  | IO_STATUS_BLOCK__INFORMATION
  | IO_STATUS_BLOCK__STATUS
  | KPCR__PRCB
  | KPCR__PRCB_DATA
  | KPRCB__CURRENT_THREAD
  | KTHREAD__PROCESS
  | KTHREAD__APC_STATE
  | KAPC_STATE__PROCESS
  | HANDLE_TABLE__HANDLE_COUNT
  | HANDLE_TABLE__TABLE_CODE
  | HANDLE_TABLE_ENTRY__OBJECT
  | HANDLE_TABLE_ENTRY__OBJECT_POINTER_BITS
  | OBJECT_HEADER__BODY
  | OBJECT_HEADER__TYPE_INDEX
  | OBJECT_HEADER__TYPE
  | OBJECT_HEADER_NAME_INFO__NAME
  | FILE_OBJECT__FILE_NAME
  | FILE_OBJECT__DEVICE_OBJECT
  | FILE_OBJECT__SECTION_OBJECT_POINTER
  | FILE_BASIC_INFORMATION__FILE_ATTRIBUTES
  | OBJECT_TYPE__INDEX
  | EPROCESS__PEB
  | EPROCESS__UNIQUE_PROCESS_ID
  | EPROCESS__ACTIVE_PROCESS_LINKS
  | EPROCESS__OBJECT_TABLE
  | EPROCESS__IMAGE_FILE_NAME
  | EPROCESS__TOKEN
  | TOKEN__USER_AND_GROUPS
  | SID_AND_ATTRIBUTES__SID
  | DRIVER_OBJECT__DRIVER_NAME
  | PEB__PROCESS_PARAMETERS
  | RTL_USER_PROCESS_PARAMETERS__IMAGE_PATH_NAME
  | SECTION_OBJECT_POINTERS__DATA_SECTION_OBJECT
  | SECTION_OBJECT_POINTERS__IMAGE_SECTION_OBJECT
  | SECTION_OBJECT_POINTERS__SHARED_CACHE_MAP
  | OBJECT_DIRECTORY__HASH_BUCKETS
  | OBJECT_DIRECTORY__LOCK
  | OBJECT_DIRECTORY_ENTRY__OBJECT
  | OBJECT_DIRECTORY_ENTRY__CHAIN_LINK
  | OBJECT_SYMBOLIC_LINK__DOS_DEVICE_DRIVE_INDEX
  | OBJECT_SYMBOLIC_LINK__LINK_TARGET
  | CONTROL_AREA__SEGMENT
  | SEGMENT__CONTROL_AREA
  | SEGMENT__SIZE_OF_SEGMENT
  | SEGMENT__TOTAL_NUMBER_OF_PTES
  | SUBSECTION__CONTROL_AREA
  | SUBSECTION__PTES_IN_SUBSECTION
  | SUBSECTION__STARTING_SECTOR
  | SUBSECTION__SUBSECTION_BASE
  | SUBSECTION__NEXT_SUBSECTION
  | SECURITY_DESCRIPTOR__CONTROL
  | SECURITY_DESCRIPTOR__OWNER
  | SECURITY_DESCRIPTOR__GROUP
  | SECURITY_DESCRIPTOR_RELATIVE__OWNER
  | SECURITY_DESCRIPTOR_RELATIVE__GROUP
  | FILE_RENAME_INFORMATION__FILE_NAME_LENGTH
  | FILE_RENAME_INFORMATION__FILE_NAME
  | FILE_DISPOSITION_INFORMATION__DELETE_FILE

datatype win_size =
    HANDLE_TABLE_ENTRY
  | CONTROL_AREA
  | FILE_OBJECT
  | OBJECT_HEADER_NAME_INFO
  | OBJECT_HEADER_CREATOR_INFO

text \<open>The offsets before \<open>REKALL_OFFSETS_MAX\<close>, in the order of the enumeration.\<close>

definition rekall_offsets :: "win_offset list" where
  "rekall_offsets =
     [OBJECT_ATTRIBUTES__OBJECT_NAME,
      OBJECT_ATTRIBUTES__ROOT_DIRECTORY,
      UNICODE_STRING__LENGTH,
      UNICODE_STRING__BUFFER,
      IO_STATUS_BLOCK__INFORMATION,
      IO_STATUS_BLOCK__STATUS,
      KPCR__PRCB,
      KPCR__PRCB_DATA,
      KPRCB__CURRENT_THREAD,
      KTHREAD__PROCESS,
      KTHREAD__APC_STATE,
      KAPC_STATE__PROCESS,
      HANDLE_TABLE__HANDLE_COUNT,
      HANDLE_TABLE__TABLE_CODE,
      HANDLE_TABLE_ENTRY__OBJECT,
      HANDLE_TABLE_ENTRY__OBJECT_POINTER_BITS,
      OBJECT_HEADER__BODY,
      OBJECT_HEADER__TYPE_INDEX,
      OBJECT_HEADER__TYPE,
      OBJECT_HEADER_NAME_INFO__NAME,
      FILE_OBJECT__FILE_NAME,
      FILE_OBJECT__DEVICE_OBJECT,
      FILE_OBJECT__SECTION_OBJECT_POINTER,
      FILE_BASIC_INFORMATION__FILE_ATTRIBUTES,
      OBJECT_TYPE__INDEX,
      EPROCESS__PEB,
      EPROCESS__UNIQUE_PROCESS_ID,
      EPROCESS__ACTIVE_PROCESS_LINKS,
      EPROCESS__OBJECT_TABLE,
      EPROCESS__IMAGE_FILE_NAME,
      EPROCESS__TOKEN,
      TOKEN__USER_AND_GROUPS,
      SID_AND_ATTRIBUTES__SID,
      DRIVER_OBJECT__DRIVER_NAME,
      PEB__PROCESS_PARAMETERS,
      RTL_USER_PROCESS_PARAMETERS__IMAGE_PATH_NAME,
      SECTION_OBJECT_POINTERS__DATA_SECTION_OBJECT,
      SECTION_OBJECT_POINTERS__IMAGE_SECTION_OBJECT,
      SECTION_OBJECT_POINTERS__SHARED_CACHE_MAP,
      OBJECT_DIRECTORY__HASH_BUCKETS,
      OBJECT_DIRECTORY__LOCK,
      OBJECT_DIRECTORY_ENTRY__OBJECT,
      OBJECT_DIRECTORY_ENTRY__CHAIN_LINK,
      OBJECT_SYMBOLIC_LINK__DOS_DEVICE_DRIVE_INDEX,
      OBJECT_SYMBOLIC_LINK__LINK_TARGET,
      CONTROL_AREA__SEGMENT,
      SEGMENT__CONTROL_AREA,
      SEGMENT__SIZE_OF_SEGMENT,
      SEGMENT__TOTAL_NUMBER_OF_PTES,
      SUBSECTION__CONTROL_AREA,
      SUBSECTION__PTES_IN_SUBSECTION,
      SUBSECTION__STARTING_SECTOR,
      SUBSECTION__SUBSECTION_BASE,
      SUBSECTION__NEXT_SUBSECTION,
      SECURITY_DESCRIPTOR__CONTROL,
      SECURITY_DESCRIPTOR__OWNER,
      SECURITY_DESCRIPTOR__GROUP,
      SECURITY_DESCRIPTOR_RELATIVE__OWNER,
      SECURITY_DESCRIPTOR_RELATIVE__GROUP]"

definition win_sizes :: "win_size list" where
  "win_sizes = [HANDLE_TABLE_ENTRY, CONTROL_AREA, FILE_OBJECT, OBJECT_HEADER_NAME_INFO, OBJECT_HEADER_CREATOR_INFO]"

primrec win_offset_names :: "win_offset \<Rightarrow> string \<times> string" where
  "win_offset_names OBJECT_ATTRIBUTES__OBJECT_NAME = (''_OBJECT_ATTRIBUTES'', ''ObjectName'')"
| "win_offset_names OBJECT_ATTRIBUTES__ROOT_DIRECTORY = (''_OBJECT_ATTRIBUTES'', ''RootDirectory'')"
| "win_offset_names UNICODE_STRING__LENGTH = (''_UNICODE_STRING'', ''Length'')"
| "win_offset_names UNICODE_STRING__BUFFER = (''_UNICODE_STRING'', ''Buffer'')"
| "win_offset_names IO_STATUS_BLOCK__INFORMATION = (''_IO_STATUS_BLOCK'', ''Information'')"
| "win_offset_names IO_STATUS_BLOCK__STATUS = (''_IO_STATUS_BLOCK'', ''Status'')"
| "win_offset_names KPCR__PRCB = (''_KPCR'', ''Prcb'')"
| "win_offset_names KPCR__PRCB_DATA = (''_KPCR'', ''PrcbData'')"
| "win_offset_names KPRCB__CURRENT_THREAD = (''_KPRCB'', ''CurrentThread'')"
| "win_offset_names KTHREAD__PROCESS = (''_KTHREAD'', ''Process'')"
| "win_offset_names KTHREAD__APC_STATE = (''_KTHREAD'', ''ApcState'')"
| "win_offset_names KAPC_STATE__PROCESS = (''_KAPC_STATE'', ''Process'')"
| "win_offset_names HANDLE_TABLE__HANDLE_COUNT = (''_HANDLE_TABLE'', ''HandleCount'')"
| "win_offset_names HANDLE_TABLE__TABLE_CODE = (''_HANDLE_TABLE'', ''TableCode'')"
| "win_offset_names HANDLE_TABLE_ENTRY__OBJECT = (''_HANDLE_TABLE_ENTRY'', ''Object'')"
| "win_offset_names HANDLE_TABLE_ENTRY__OBJECT_POINTER_BITS = (''_HANDLE_TABLE_ENTRY'', ''ObjectPointerBits'')"
| "win_offset_names OBJECT_HEADER__BODY = (''_OBJECT_HEADER'', ''Body'')"
| "win_offset_names OBJECT_HEADER__TYPE_INDEX = (''_OBJECT_HEADER'', ''TypeIndex'')"
| "win_offset_names OBJECT_HEADER__TYPE = (''_OBJECT_HEADER'', ''Type'')"
| "win_offset_names OBJECT_HEADER_NAME_INFO__NAME = (''_OBJECT_HEADER_NAME_INFO'', ''Name'')"
| "win_offset_names FILE_OBJECT__FILE_NAME = (''_FILE_OBJECT'', ''FileName'')"
| "win_offset_names FILE_OBJECT__DEVICE_OBJECT = (''_FILE_OBJECT'', ''DeviceObject'')"
| "win_offset_names FILE_OBJECT__SECTION_OBJECT_POINTER = (''_FILE_OBJECT'', ''SectionObjectPointer'')"
| "win_offset_names FILE_BASIC_INFORMATION__FILE_ATTRIBUTES = (''_FILE_BASIC_INFORMATION'', ''FileAttributes'')"
| "win_offset_names OBJECT_TYPE__INDEX = (''_OBJECT_TYPE'', ''Index'')"
| "win_offset_names EPROCESS__PEB = (''_EPROCESS'', ''Peb'')"
| "win_offset_names EPROCESS__UNIQUE_PROCESS_ID = (''_EPROCESS'', ''UniqueProcessId'')"
| "win_offset_names EPROCESS__ACTIVE_PROCESS_LINKS = (''_EPROCESS'', ''ActiveProcessLinks'')"
| "win_offset_names EPROCESS__OBJECT_TABLE = (''_EPROCESS'', ''ObjectTable'')"
| "win_offset_names EPROCESS__IMAGE_FILE_NAME = (''_EPROCESS'', ''ImageFileName'')"
| "win_offset_names EPROCESS__TOKEN = (''_EPROCESS'', ''Token'')"
| "win_offset_names TOKEN__USER_AND_GROUPS = (''_TOKEN'', ''UserAndGroups'')"
| "win_offset_names SID_AND_ATTRIBUTES__SID = (''_SID_AND_ATTRIBUTES'', ''Sid'')"
| "win_offset_names DRIVER_OBJECT__DRIVER_NAME = (''_DRIVER_OBJECT'', ''DriverName'')"
| "win_offset_names PEB__PROCESS_PARAMETERS = (''_PEB'', ''ProcessParameters'')"
| "win_offset_names RTL_USER_PROCESS_PARAMETERS__IMAGE_PATH_NAME = (''_RTL_USER_PROCESS_PARAMETERS'', ''ImagePathName'')"
| "win_offset_names SECTION_OBJECT_POINTERS__DATA_SECTION_OBJECT = (''_SECTION_OBJECT_POINTERS'', ''DataSectionObject'')"
| "win_offset_names SECTION_OBJECT_POINTERS__IMAGE_SECTION_OBJECT = (''_SECTION_OBJECT_POINTERS'', ''ImageSectionObject'')"
| "win_offset_names SECTION_OBJECT_POINTERS__SHARED_CACHE_MAP = (''_SECTION_OBJECT_POINTERS'', ''SharedCacheMap'')"
| "win_offset_names OBJECT_DIRECTORY__HASH_BUCKETS = (''_OBJECT_DIRECTORY'', ''HashBuckets'')"
| "win_offset_names OBJECT_DIRECTORY__LOCK = (''_OBJECT_DIRECTORY'', ''Lock'')"
| "win_offset_names OBJECT_DIRECTORY_ENTRY__OBJECT = (''_OBJECT_DIRECTORY_ENTRY'', ''Object'')"
| "win_offset_names OBJECT_DIRECTORY_ENTRY__CHAIN_LINK = (''_OBJECT_DIRECTORY_ENTRY'', ''ChainLink'')"
| "win_offset_names OBJECT_SYMBOLIC_LINK__DOS_DEVICE_DRIVE_INDEX = (''_OBJECT_SYMBOLIC_LINK'', ''DosDeviceDriveIndex'')"
| "win_offset_names OBJECT_SYMBOLIC_LINK__LINK_TARGET = (''_OBJECT_SYMBOLIC_LINK'', ''LinkTarget'')"
| "win_offset_names CONTROL_AREA__SEGMENT = (''_CONTROL_AREA'', ''Segment'')"
| "win_offset_names SEGMENT__CONTROL_AREA = (''_SEGMENT'', ''ControlArea'')"
| "win_offset_names SEGMENT__SIZE_OF_SEGMENT = (''_SEGMENT'', ''SizeOfSegment'')"
| "win_offset_names SEGMENT__TOTAL_NUMBER_OF_PTES = (''_SEGMENT'', ''TotalNumberOfPtes'')"
| "win_offset_names SUBSECTION__CONTROL_AREA = (''_SUBSECTION'', ''ControlArea'')"
| "win_offset_names SUBSECTION__PTES_IN_SUBSECTION = (''_SUBSECTION'', ''PtesInSubsection'')"
| "win_offset_names SUBSECTION__STARTING_SECTOR = (''_SUBSECTION'', ''StartingSector'')"
| "win_offset_names SUBSECTION__SUBSECTION_BASE = (''_SUBSECTION'', ''SubsectionBase'')"
| "win_offset_names SUBSECTION__NEXT_SUBSECTION = (''_SUBSECTION'', ''NextSubsection'')"
| "win_offset_names SECURITY_DESCRIPTOR__CONTROL = (''_SECURITY_DESCRIPTOR'', ''Control'')"
| "win_offset_names SECURITY_DESCRIPTOR__OWNER = (''_SECURITY_DESCRIPTOR'', ''Owner'')"
| "win_offset_names SECURITY_DESCRIPTOR__GROUP = (''_SECURITY_DESCRIPTOR'', ''Group'')"
| "win_offset_names SECURITY_DESCRIPTOR_RELATIVE__OWNER = (''_SECURITY_DESCRIPTOR_RELATIVE'', ''Owner'')"
| "win_offset_names SECURITY_DESCRIPTOR_RELATIVE__GROUP = (''_SECURITY_DESCRIPTOR_RELATIVE'', ''Group'')"
| "win_offset_names FILE_RENAME_INFORMATION__FILE_NAME_LENGTH = (''_FILE_RENAME_INFORMATION'', ''FileNameLength'')"
| "win_offset_names FILE_RENAME_INFORMATION__FILE_NAME = (''_FILE_RENAME_INFORMATION'', ''FileName'')"
| "win_offset_names FILE_DISPOSITION_INFORMATION__DELETE_FILE = (''_FILE_DISPOSITION_INFORMATION'', ''DeleteFile'')"

primrec win_size_names :: "win_size \<Rightarrow> string" where
  "win_size_names HANDLE_TABLE_ENTRY = ''_HANDLE_TABLE_ENTRY''"
| "win_size_names CONTROL_AREA = ''_CONTROL_AREA''"
| "win_size_names FILE_OBJECT = ''_FILE_OBJECT''"
| "win_size_names OBJECT_HEADER_NAME_INFO = ''_OBJECT_HEADER_NAME_INFO''"
| "win_size_names OBJECT_HEADER_CREATOR_INFO = ''_OBJECT_HEADER_CREATOR_INFO''"

section \<open>Rekall profiles\<close>

record 'j json_api =
  json_object_from_file :: "string \<Rightarrow> 'j option"
  json_object_object_get_ex :: "'j option \<Rightarrow> string \<Rightarrow> 'j option option"
  json_object_array_get_idx :: "'j option \<Rightarrow> nat \<Rightarrow> 'j option"
  json_object_get_int64 :: "'j option \<Rightarrow> u64"

text \<open>
  \<open>rekall_lookup\<close>: the return value and what is stored, in \<open>size\<close> when it is asked for and in
  \<open>rva\<close> otherwise. With a null profile or symbol, the jump to the end skips the initialisation of
  \<open>root\<close>, which is read there.
\<close>

definition rekall_lookup ::
  "'j json_api \<Rightarrow> string option \<Rightarrow> string option \<Rightarrow> string option \<Rightarrow> bool \<Rightarrow>
   (int \<times> u64 option) result" where
  "rekall_lookup api rekall_profile symbol subsymbol want_size =
     (case (rekall_profile, symbol) of
        (Some file, Some name) \<Rightarrow> Inr (
          case json_object_from_file api file of None \<Rightarrow> (1, None)
          | Some root \<Rightarrow>
              (if subsymbol = None \<and> \<not> want_size then
                (case json_object_object_get_ex api (Some root) ''$CONSTANTS'' of None \<Rightarrow> (1, None)
                 | Some constants \<Rightarrow>
                (case json_object_object_get_ex api constants name of None \<Rightarrow> (1, None)
                 | Some jsymbol \<Rightarrow> (0, Some (json_object_get_int64 api jsymbol))))
              else
                (case json_object_object_get_ex api (Some root) ''$STRUCTS'' of None \<Rightarrow> (1, None)
                 | Some structs \<Rightarrow>
                (case json_object_object_get_ex api structs name of None \<Rightarrow> (1, None)
                 | Some jstruct \<Rightarrow>
                  (if want_size then
                     (0, Some (json_object_get_int64 api (json_object_array_get_idx api jstruct 0)))
                   else
                  (case json_object_array_get_idx api jstruct 1 of None \<Rightarrow> (1, None)
                   | Some jstruct2 \<Rightarrow>
                  (case json_object_object_get_ex api (Some jstruct2)
                          (case subsymbol of None \<Rightarrow> [] | Some m \<Rightarrow> m) of None \<Rightarrow> (1, None)
                   | Some jmember \<Rightarrow>
                  (case json_object_array_get_idx api jmember 0 of None \<Rightarrow> (1, None)
                   | Some jvalue \<Rightarrow> (0, Some (json_object_get_int64 api (Some jvalue)))))))))))
      | _ \<Rightarrow> Inl Uninitialised)"

type_synonym offsets = "win_offset \<Rightarrow> u64"
type_synonym sizes = "win_size \<Rightarrow> u64"

definition fill_offset ::
  "'j json_api \<Rightarrow> string option \<Rightarrow> win_offset \<Rightarrow> offsets \<Rightarrow> offsets result" where
  "fill_offset api profile i offsets =
     rbind (rekall_lookup api profile (Some (fst (win_offset_names i)))
              (Some (snd (win_offset_names i))) False) (\<lambda>(_, v).
       Inr (case v of None \<Rightarrow> offsets | Some v \<Rightarrow> offsets(i := v)))"

definition win_fill_offsets ::
  "'j json_api \<Rightarrow> string option \<Rightarrow> offsets \<Rightarrow> offsets result" where
  "win_fill_offsets api profile offsets =
     rbind (foldm (fill_offset api profile) rekall_offsets offsets) (\<lambda>offsets.
       Inr (offsets(FILE_RENAME_INFORMATION__FILE_NAME_LENGTH := 16,
                    FILE_RENAME_INFORMATION__FILE_NAME := 20,
                    FILE_DISPOSITION_INFORMATION__DELETE_FILE := 0)))"

definition fill_size ::
  "'j json_api \<Rightarrow> string option \<Rightarrow> win_size \<Rightarrow> sizes \<Rightarrow> sizes result" where
  "fill_size api profile i sizes =
     rbind (rekall_lookup api profile (Some (win_size_names i)) None True) (\<lambda>(_, v).
       Inr (case v of None \<Rightarrow> sizes | Some v \<Rightarrow> sizes(i := v)))"

definition win_fill_sizes :: "'j json_api \<Rightarrow> string option \<Rightarrow> sizes \<Rightarrow> sizes result" where
  "win_fill_sizes api profile sizes = foldm (fill_size api profile) win_sizes sizes"

section \<open>What the tables hold\<close>

text \<open>Where a profile keeps the offset of a member and the size of a structure.\<close>

definition profile_member :: "'j json_api \<Rightarrow> string \<Rightarrow> string \<times> string \<Rightarrow> u64 option" where
  "profile_member api file = (\<lambda>(name, member).
     Option.bind (json_object_from_file api file) (\<lambda>root.
     Option.bind (json_object_object_get_ex api (Some root) ''$STRUCTS'') (\<lambda>structs.
     Option.bind (json_object_object_get_ex api structs name) (\<lambda>jstruct.
     Option.bind (json_object_array_get_idx api jstruct 1) (\<lambda>members.
     Option.bind (json_object_object_get_ex api (Some members) member) (\<lambda>jmember.
       map_option (\<lambda>j. json_object_get_int64 api (Some j)) (json_object_array_get_idx api jmember 0)))))))"

definition profile_size :: "'j json_api \<Rightarrow> string \<Rightarrow> string \<Rightarrow> u64 option" where
  "profile_size api file name =
     Option.bind (json_object_from_file api file) (\<lambda>root.
     Option.bind (json_object_object_get_ex api (Some root) ''$STRUCTS'') (\<lambda>structs.
     map_option (\<lambda>jstruct. json_object_get_int64 api (json_object_array_get_idx api jstruct 0))
       (json_object_object_get_ex api structs name)))"

lemma fill_offset_profile:
  "fill_offset api (Some file) i offs = Inr (case profile_member api file (win_offset_names i) of
     None \<Rightarrow> offs | Some v \<Rightarrow> offs(i := v))"
  by (cases "win_offset_names i")
    (simp add: fill_offset_def rekall_lookup_def profile_member_def split: option.split)

lemma fill_size_profile:
  "fill_size api (Some file) i sizes = Inr (case profile_size api file (win_size_names i) of
     None \<Rightarrow> sizes | Some v \<Rightarrow> sizes(i := v))"
  by (simp add: fill_size_def rekall_lookup_def profile_size_def split: option.split)

text \<open>Filling a table entry by entry, each from a source of its own.\<close>

lemma foldm_fill:
  assumes "\<And>i t. f i t = Inr (case src i of None \<Rightarrow> t | Some v \<Rightarrow> t(i := v))"
  shows "foldm f is t = Inr (\<lambda>i. if i \<in> set is then (case src i of None \<Rightarrow> t i | Some v \<Rightarrow> v) else t i)"
proof (induction "is" arbitrary: t)
  case (Cons a as)
  show ?case by (cases "src a") (auto simp: assms [of a t] Cons.IH intro!: ext split: option.split)
qed simp

lemma rekall_offsets_iff:
  "i \<in> set rekall_offsets \<longleftrightarrow> i \<noteq> FILE_RENAME_INFORMATION__FILE_NAME_LENGTH \<and>
     i \<noteq> FILE_RENAME_INFORMATION__FILE_NAME \<and> i \<noteq> FILE_DISPOSITION_INFORMATION__DELETE_FILE"
  by (cases i) (simp_all add: rekall_offsets_def)

text \<open>
  Property C40. Every offset of the enumeration before \<open>REKALL_OFFSETS_MAX\<close> is looked up, under a
  name no other offset has; the table holds what the profile says, and its old value for a member
  the profile does not have. The three offsets behind it have fixed values.
\<close>

theorem win_fill_offsets_table:
  "win_fill_offsets api (Some file) offs = Inr (\<lambda>i.
     if i = FILE_RENAME_INFORMATION__FILE_NAME_LENGTH then 16
     else if i = FILE_RENAME_INFORMATION__FILE_NAME then 20
     else if i = FILE_DISPOSITION_INFORMATION__DELETE_FILE then 0
     else case profile_member api file (win_offset_names i) of None \<Rightarrow> offs i | Some v \<Rightarrow> v) \<and>
   distinct (map win_offset_names rekall_offsets)"
proof
  show "distinct (map win_offset_names rekall_offsets)"
    unfolding rekall_offsets_def list.map win_offset_names.simps by code_simp
  show "win_fill_offsets api (Some file) offs = Inr (\<lambda>i.
     if i = FILE_RENAME_INFORMATION__FILE_NAME_LENGTH then 16
     else if i = FILE_RENAME_INFORMATION__FILE_NAME then 20
     else if i = FILE_DISPOSITION_INFORMATION__DELETE_FILE then 0
     else case profile_member api file (win_offset_names i) of None \<Rightarrow> offs i | Some v \<Rightarrow> v)"
    unfolding win_fill_offsets_def
    by (simp add: foldm_fill [OF fill_offset_profile] rekall_offsets_iff fun_eq_iff)
qed

lemma win_fill_sizes_table:
  "win_fill_sizes api (Some file) sizes = Inr (\<lambda>i.
     case profile_size api file (win_size_names i) of None \<Rightarrow> sizes i | Some v \<Rightarrow> v)"
proof -
  have "i \<in> set win_sizes" for i by (cases i) (simp_all add: win_sizes_def)
  then show ?thesis by (simp add: win_fill_sizes_def foldm_fill [OF fill_size_profile])
qed

text \<open>Without a profile, the cleanup of \<open>rekall_lookup\<close> reads a variable that was never set.\<close>

lemma rekall_lookup_without_profile: "rekall_lookup api None symbol sub sz = Inl Uninitialised"
  by (simp add: rekall_lookup_def)

end
