(* ===== verification/Guest.thy ===== *)
theory Guest
  imports Win_Offsets CString
begin

text \<open>
  Reading the memory of the guest from a callback (\<open>src/context.c\<close>): the typed reads, the current
  process, Unicode strings and security identifiers. The guest stands still while a callback runs,
  so the reads of libvmi are a record \<open>guest_t\<close> of functions of the address, with \<open>None\<close> for
  \<open>VMI_FAILURE\<close>; so are the conversion of strings and two macros of its headers. C buffers are
  lists of characters with their NULs. Log messages are left out.
\<close>

section \<open>The context of a callback\<close>

datatype page_mode_t = VMI_PM_UNKNOWN | VMI_PM_LEGACY | VMI_PM_PAE | VMI_PM_IA32E

datatype win_ver_t =
    VMI_OS_WINDOWS_NONE
  | VMI_OS_WINDOWS_UNKNOWN
  | VMI_OS_WINDOWS_2000
  | VMI_OS_WINDOWS_XP
  | VMI_OS_WINDOWS_2003
  | VMI_OS_WINDOWS_VISTA
  | VMI_OS_WINDOWS_2008
  | VMI_OS_WINDOWS_7
  | VMI_OS_WINDOWS_8
  | VMI_OS_WINDOWS_10

record guest_t =
  g_addr :: "u64 \<Rightarrow> u64 option"
  g_64 :: "u64 \<Rightarrow> u64 option"
  g_32 :: "u64 \<Rightarrow> u32 option"
  g_16 :: "u64 \<Rightarrow> u16 option"
  g_8 :: "u64 \<Rightarrow> u8 option"
  g_bytes :: "u64 \<Rightarrow> nat \<Rightarrow> u8 list"
  g_pa :: "u64 \<Rightarrow> nat \<Rightarrow> u8 list"
  g_utf8 :: "u8 list \<Rightarrow> string option"
  g_bit_mask :: "nat \<Rightarrow> nat \<Rightarrow> u64"
  g_entry_present :: "u64 \<Rightarrow> bool"

record drive_t =
  dos_name :: string
  win_name :: string
  drv_index :: u32

record x86_registers_t =
  rg_rax :: u64
  rg_rcx :: u64
  rg_rdx :: u64
  rg_rsp :: u64
  rg_r8 :: u64
  rg_r9 :: u64
  rg_fs_base :: u64
  rg_gs_base :: u64

text \<open>The fields of \<open>vmhdlr_t\<close> that describe the guest's Windows, and \<open>context_t\<close>.\<close>

record win_hdlr_t =
  hd_pm :: page_mode_t
  hd_winver :: win_ver_t
  hd_drives :: "drive_t list"
  hd_cookie :: u8
  hd_offsets :: offsets
  hd_sizes :: sizes

record context_t =
  cx_regs :: x86_registers_t
  cx_guest :: guest_t
  cx_hdlr :: win_hdlr_t
  cx_process_base :: u64

definition off :: "context_t \<Rightarrow> win_offset \<Rightarrow> u64" where
  "off ctx i = hd_offsets (cx_hdlr ctx) i"

definition sz :: "context_t \<Rightarrow> win_size \<Rightarrow> u64" where
  "sz ctx i = hd_sizes (cx_hdlr ctx) i"

section \<open>Typed reads\<close>

definition hfm_read_addr :: "context_t \<Rightarrow> u64 \<Rightarrow> u64" where
  "hfm_read_addr ctx a = (case g_addr (cx_guest ctx) a of None \<Rightarrow> 0 | Some v \<Rightarrow> v)"

definition hfm_read_64 :: "context_t \<Rightarrow> u64 \<Rightarrow> u64" where
  "hfm_read_64 ctx a = (case g_64 (cx_guest ctx) a of None \<Rightarrow> 0 | Some v \<Rightarrow> v)"

definition hfm_read_32 :: "context_t \<Rightarrow> u64 \<Rightarrow> u32" where
  "hfm_read_32 ctx a = (case g_32 (cx_guest ctx) a of None \<Rightarrow> 0 | Some v \<Rightarrow> v)"

definition hfm_read_16 :: "context_t \<Rightarrow> u64 \<Rightarrow> u16" where
  "hfm_read_16 ctx a = (case g_16 (cx_guest ctx) a of None \<Rightarrow> 0 | Some v \<Rightarrow> v)"

definition hfm_read_8 :: "context_t \<Rightarrow> u64 \<Rightarrow> u8" where
  "hfm_read_8 ctx a = (case g_8 (cx_guest ctx) a of None \<Rightarrow> 0 | Some v \<Rightarrow> v)"

definition hfm_read :: "context_t \<Rightarrow> u64 \<Rightarrow> nat \<Rightarrow> u8 list" where
  "hfm_read ctx a n = take n (g_bytes (cx_guest ctx) a n)"

definition hfm_get_current_process :: "context_t \<Rightarrow> u64" where
  "hfm_get_current_process ctx =
     (let (kpcr, prcb) = (if hd_pm (cx_hdlr ctx) = VMI_PM_IA32E
            then (rg_gs_base (cx_regs ctx), off ctx KPCR__PRCB)
            else (rg_fs_base (cx_regs ctx), off ctx KPCR__PRCB_DATA));
          thread = hfm_read_addr ctx (kpcr + prcb + off ctx KPRCB__CURRENT_THREAD)
      in if thread = 0 then 0
         else if hd_winver (cx_hdlr ctx) = VMI_OS_WINDOWS_XP
         then hfm_read_addr ctx (thread + off ctx KTHREAD__APC_STATE + off ctx KAPC_STATE__PROCESS)
         else hfm_read_addr ctx (thread + off ctx KTHREAD__PROCESS))"

text \<open>The identifier of a process, -1 when it cannot be read; the first process asked about stays.\<close>

definition hfm_get_process_pid :: "context_t \<Rightarrow> u64 \<Rightarrow> int \<times> context_t" where
  "hfm_get_process_pid ctx process_addr =
     (let ctx = (if cx_process_base ctx = 0 then ctx\<lparr>cx_process_base := process_addr\<rparr> else ctx)
      in (case g_32 (cx_guest ctx) (cx_process_base ctx + off ctx EPROCESS__UNIQUE_PROCESS_ID) of
            None \<Rightarrow> - 1 | Some pid \<Rightarrow> sint pid, ctx))"

section \<open>C buffers\<close>

text \<open>\<open>strncpy (buf + pos, s, n)\<close>: always writes \<open>n\<close> characters.\<close>

definition strncpy_at :: "char list \<Rightarrow> nat \<Rightarrow> string \<Rightarrow> nat \<Rightarrow> char list result" where
  "strncpy_at buf pos s n =
     (if pos + n \<le> length buf
      then Inr (take pos buf @ take n (c_str s @ zero_buf n) @ drop (pos + n) buf)
      else Inl OutOfBounds)"

definition BUFF :: nat where "BUFF = 1024"

section \<open>Unicode strings\<close>

definition VMI_PS_4KB :: u64 where "VMI_PS_4KB = 4096"

definition hfm_read_unicode ::
  "context_t \<Rightarrow> u64 \<Rightarrow> char list \<Rightarrow> nat \<Rightarrow> (nat \<times> char list) result" where
  "hfm_read_unicode ctx a buffer pos =
     (let len = hfm_read_16 ctx (a + off ctx UNICODE_STRING__LENGTH) in
      if len = 0 \<or> ucast len > VMI_PS_4KB then Inr (0, buffer)
      else let buffer_addr = hfm_read_addr ctx (a + off ctx UNICODE_STRING__BUFFER) in
      if buffer_addr = 0 then Inr (0, buffer)
      else let contents = hfm_read ctx buffer_addr (unat len) in
      if length contents \<noteq> unat len then Inr (0, buffer)
      else case g_utf8 (cx_guest ctx) contents of
        None \<Rightarrow> Inr (0, buffer)
      | Some str2 \<Rightarrow>
          rbind (strncpy_at buffer pos str2 (length str2)) (\<lambda>buffer. Inr (length str2, buffer)))"

section \<open>The name of a file\<close>

fun find_drive :: "string \<Rightarrow> drive_t list \<Rightarrow> string" where
  "find_drive drivename [] = drivename"
| "find_drive drivename (d # ds) =
     (if take BUFF drivename = take BUFF (win_name d) then dos_name d else find_drive drivename ds)"

definition hfm_read_filename_from_object ::
  "context_t \<Rightarrow> u64 \<Rightarrow> (nat \<times> string) result" where
  "hfm_read_filename_from_object ctx file_object =
     (let device_object = hfm_read_addr ctx (file_object + off ctx FILE_OBJECT__DEVICE_OBJECT);
          device_header = device_object - off ctx OBJECT_HEADER__BODY;
          device_name_info_addr = device_header - sz ctx OBJECT_HEADER_NAME_INFO
      in rbind (hfm_read_unicode ctx (device_name_info_addr + off ctx OBJECT_HEADER_NAME_INFO__NAME)
                  (zero_buf BUFF) 0) (\<lambda>(_, drivename).
      rbind (read_str drivename) (\<lambda>drivename.
      let drivename = find_drive drivename (hd_drives (cx_hdlr ctx)) in
      rbind (hfm_read_unicode ctx (file_object + off ctx FILE_OBJECT__FILE_NAME)
               (zero_buf BUFF) 0) (\<lambda>(filepath_len, filepath).
      rbind (read_str filepath) (\<lambda>filepath.
        Inr (length drivename + filepath_len, take (BUFF - 1) (drivename @ filepath)))))))"

section \<open>Security identifiers\<close>

text \<open>\<open>pos += sprintf (sid + pos, \<dots>)\<close> in a buffer of \<open>cap\<close> bytes.\<close>

definition sprintf_at :: "nat \<Rightarrow> string \<Rightarrow> string \<Rightarrow> string result" where
  "sprintf_at cap piece sid =
     (if length sid + length piece < cap then Inr (sid @ piece) else Inl OutOfBounds)"

text \<open>
  The text of the identifier, or \<open>None\<close> when the first byte is no digit and the buffer is left as
  it is.
\<close>

definition sid_authority :: "context_t \<Rightarrow> u64 \<Rightarrow> u64" where
  "sid_authority ctx sid_addr =
     sum_list (map (\<lambda>i. push_bit ((5 - i) * 8) (ucast (hfm_read_8 ctx (sid_addr + 2 + of_nat i)))) [0 ..< 6])"

definition hfm_extract_sid :: "nat \<Rightarrow> context_t \<Rightarrow> u64 \<Rightarrow> string option result" where
  "hfm_extract_sid cap ctx sid_addr =
     (let first_byte = hfm_read_8 ctx sid_addr in
      if \<not> first_byte \<le> 9 then Inr None
      else
        rbind (sprintf_at cap (''S-'' @ [char_of (unat first_byte + 48)] @ ''-'') []) (\<lambda>sid.
        rbind (sprintf_at cap (show_nat (unat (sid_authority ctx sid_addr)) @ ''-'') sid) (\<lambda>sid.
        let sub_auth_no = hfm_read_8 ctx (sid_addr + 1) in
        rbind (foldm (\<lambda>i. sprintf_at cap (show_nat (unat (hfm_read_32 ctx (sid_addr + 8 + 4 * of_nat i))) @ ''-''))
                 [0 ..< unat sub_auth_no] sid) (\<lambda>sid.
        Inr (Some (butlast sid))))))"

definition SID_LEN :: nat where "SID_LEN = 50"

text \<open>The buffer of \<open>hfm_get_process_sid\<close> is emptied first.\<close>

definition hfm_get_process_sid :: "context_t \<Rightarrow> u64 \<Rightarrow> string result" where
  "hfm_get_process_sid ctx process_addr =
     (let fast_ref = hfm_read_addr ctx (process_addr + off ctx EPROCESS__TOKEN);
          token_addr = fast_ref AND NOT 7;
          usr_group_addr = hfm_read_addr ctx (token_addr + off ctx TOKEN__USER_AND_GROUPS);
          sid_addr = hfm_read_addr ctx (usr_group_addr + off ctx SID_AND_ATTRIBUTES__SID)
      in rbind (hfm_extract_sid SID_LEN ctx sid_addr) (\<lambda>s.
           Inr (case s of None \<Rightarrow> [] | Some t \<Rightarrow> t)))"

end
