(* ===== verification/Guest_Props.thy ===== *)
theory Guest_Props
  imports Guest
begin

text \<open>
  What the readers of \<open>Guest\<close> give: the strings of the guest within the bounds of the buffers, the
  names of files with their drive letters, and the texts of security identifiers, which are read
  back by splitting them.
\<close>

section \<open>Unicode strings\<close>

text \<open>The string of the guest at an address, empty when it cannot be read.\<close>

definition unicode_at :: "context_t \<Rightarrow> u64 \<Rightarrow> string" where
  "unicode_at ctx a =
     (let n = hfm_read_16 ctx (a + off ctx UNICODE_STRING__LENGTH);
          p = hfm_read_addr ctx (a + off ctx UNICODE_STRING__BUFFER);
          bs = hfm_read ctx p (unat n)
      in if n = 0 \<or> n > 4096 \<or> p = 0 \<or> length bs \<noteq> unat n then []
         else case g_utf8 (cx_guest ctx) bs of None \<Rightarrow> [] | Some s \<Rightarrow> s)"

lemma unat_ucast_u16: "unat (ucast (n :: u16) :: u64) = unat n"
proof -
  have "unat n < 2 ^ LENGTH(16)" by (rule unsigned_less)
  then have "unat n < 2 ^ 64" by simp
  then show ?thesis by (simp add: unsigned_ucast_eq take_bit_nat_eq_self)
qed

lemma ucast_gt_4KB: "ucast (n :: u16) > VMI_PS_4KB \<longleftrightarrow> n > 4096"
  by (simp add: VMI_PS_4KB_def word_less_nat_alt unat_ucast_u16)

lemma strncpy_at_0: "pos \<le> length buf \<Longrightarrow> strncpy_at buf pos [] 0 = Inr buf"
  by (simp add: strncpy_at_def)

lemma hfm_read_unicode_at:
  assumes "pos \<le> length buf"
  shows "hfm_read_unicode ctx a buf pos =
    rbind (strncpy_at buf pos (unicode_at ctx a) (length (unicode_at ctx a))) (\<lambda>b.
      Inr (length (unicode_at ctx a), b))"
  by (simp add: hfm_read_unicode_def unicode_at_def Let_def ucast_gt_4KB strncpy_at_0 [OF assms]
      split: option.split)

lemma strncpy_at_zero_buf:
  "strncpy_at (zero_buf n) 0 s (length s) =
     (if length s \<le> n then Inr (c_str s @ zero_buf (n - length (c_str s))) else Inl OutOfBounds)"
proof -
  have l: "length (c_str s) \<le> length s" by (simp add: c_str_def length_takeWhile_le)
  then have "take (length s) (c_str s @ zero_buf (length s)) = c_str s @ zero_buf (length s - length (c_str s))"
    by (simp add: zero_buf_def)
  moreover have "zero_buf (length s - length (c_str s)) @ zero_buf (n - length s) = zero_buf (n - length (c_str s))"
    if "length s \<le> n"
    using that l by (simp add: zero_buf_def flip: replicate_add)
  ultimately show ?thesis by (simp add: strncpy_at_def zero_buf_def)
qed

lemma NUL_c_str [simp]: "NUL \<notin> set (c_str s)"
  by (auto simp: c_str_def dest: set_takeWhileD)

lemma read_str_padded:
  "NUL \<notin> set s \<Longrightarrow> read_str (s @ zero_buf n) = (if n = 0 then Inl OutOfBounds else Inr s)"
  by (auto simp: read_str_def zero_buf_def c_str_def takeWhile_append gr0_conv_Suc)

text \<open>A string that a buffer of 1024 bytes can take together with its NUL.\<close>

definition fits_buff :: "string \<Rightarrow> bool" where
  "fits_buff s \<longleftrightarrow> length s \<le> BUFF \<and> length (c_str s) < BUFF"

lemma read_unicode_string:
  "rbind (hfm_read_unicode ctx a (zero_buf BUFF) 0) (\<lambda>(n, b). rbind (read_str b) (\<lambda>s. f n s)) =
     (let s = unicode_at ctx a in if fits_buff s then f (length s) (c_str s) else Inl OutOfBounds)"
  by (simp add: hfm_read_unicode_at strncpy_at_zero_buf read_str_padded fits_buff_def Let_def)

section \<open>Names of files\<close>

definition device_name :: "context_t \<Rightarrow> u64 \<Rightarrow> string" where
  "device_name ctx file_object = unicode_at ctx
     (hfm_read_addr ctx (file_object + off ctx FILE_OBJECT__DEVICE_OBJECT) - off ctx OBJECT_HEADER__BODY
      - sz ctx OBJECT_HEADER_NAME_INFO + off ctx OBJECT_HEADER_NAME_INFO__NAME)"

definition path_of_object :: "context_t \<Rightarrow> u64 \<Rightarrow> string" where
  "path_of_object ctx file_object = unicode_at ctx (file_object + off ctx FILE_OBJECT__FILE_NAME)"

lemma find_drive_find:
  assumes "length n < BUFF" and "\<forall>d \<in> set ds. length (win_name d) < BUFF"
  shows "find_drive n ds = (case List.find (\<lambda>d. win_name d = n) ds of None \<Rightarrow> n | Some d \<Rightarrow> dos_name d)"
  using assms by (induction ds) auto

lemma read_filename_eq:
  assumes "\<forall>d \<in> set (hd_drives (cx_hdlr ctx)). length (win_name d) < BUFF"
  shows "hfm_read_filename_from_object ctx obj =
    (let d = device_name ctx obj; p = path_of_object ctx obj;
         drive = (case List.find (\<lambda>x. win_name x = c_str d) (hd_drives (cx_hdlr ctx)) of
                    None \<Rightarrow> c_str d | Some x \<Rightarrow> dos_name x)
     in if fits_buff d \<and> fits_buff p
        then Inr (length drive + length p, take 1023 (drive @ c_str p))
        else Inl OutOfBounds)"
proof -
  have "length (c_str (device_name ctx obj)) < BUFF" if "fits_buff (device_name ctx obj)"
    using that by (simp add: fits_buff_def)
  then show ?thesis
    using find_drive_find [OF _ assms]
    unfolding hfm_read_filename_from_object_def Let_def read_unicode_string
      device_name_def [symmetric] path_of_object_def [symmetric]
    by (simp add: BUFF_def)
qed

text \<open>
  Property C17. The name read for a file object is the letter of the first drive with the name of
  the file's device (or that name when there is none), followed by the path, cut after 1023
  characters; the length returned counts the path in full. When the guest's device name or path
  does not fit into 1024 bytes, the buffer on the stack is overrun.
\<close>

theorem filename_from_object:
  assumes "\<forall>d \<in> set (hd_drives (cx_hdlr ctx)). length (win_name d) < BUFF"
  shows "hfm_read_filename_from_object ctx obj =
    (let d = device_name ctx obj; p = path_of_object ctx obj;
         drive = (case List.find (\<lambda>x. win_name x = c_str d) (hd_drives (cx_hdlr ctx)) of
                    None \<Rightarrow> c_str d | Some x \<Rightarrow> dos_name x)
     in if fits_buff d \<and> fits_buff p
        then Inr (length drive + length p, take 1023 (drive @ c_str p))
        else Inl OutOfBounds)"
  using assms by (rule read_filename_eq)

section \<open>Security identifiers\<close>

definition sid_subs :: "context_t \<Rightarrow> u64 \<Rightarrow> nat list" where
  "sid_subs ctx a = map (\<lambda>i. unat (hfm_read_32 ctx (a + 8 + 4 * of_nat i)))
     [0 ..< unat (hfm_read_8 ctx (a + 1))]"

text \<open>The usual text of an identifier with its revision, authority and subauthorities.\<close>

definition sid_text :: "nat list \<Rightarrow> string" where
  "sid_text ns = CHR ''S'' # concat (map (\<lambda>n. CHR ''-'' # show_nat n) ns)"

definition sid_numbers :: "context_t \<Rightarrow> u64 \<Rightarrow> nat list" where
  "sid_numbers ctx a = unat (hfm_read_8 ctx a) # unat (sid_authority ctx a) # sid_subs ctx a"

lemma show_nat_digit: "n \<le> 9 \<Longrightarrow> show_nat n = [char_of (n + 48)]"
  by (simp add: show_nat.simps [of n] digit_char_def)

lemma foldm_map: "foldm f (map g xs) s = foldm (\<lambda>x. f (g x)) xs s"
  by (induction xs arbitrary: s) (auto intro!: rbind_cong)

lemma foldm_sprintf:
  "xs \<noteq> [] \<Longrightarrow> foldm (sprintf_at cap) xs s =
     (if length s + length (concat xs) < cap then Inr (s @ concat xs) else Inl OutOfBounds)"
proof (induction xs arbitrary: s)
  case (Cons x xs)
  show ?case
  proof (cases xs)
    case Nil
    then show ?thesis by (simp add: sprintf_at_def)
  next
    case (Cons y ys)
    then have "xs \<noteq> []" by simp
    note IH = Cons.IH [OF this]
    show ?thesis by (simp add: IH sprintf_at_def [of cap x s])
  qed
qed simp

lemma foldm_sprintf_butlast:
  "xs \<noteq> [] \<Longrightarrow> rbind (foldm (sprintf_at cap) xs []) (\<lambda>s. Inr (Some (butlast s))) =
     (if length (concat xs) < cap then Inr (Some (butlast (concat xs))) else Inl OutOfBounds)"
  by (simp add: foldm_sprintf)

lemma dash_rotate:
  "CHR ''S'' # CHR ''-'' # concat (map (\<lambda>n. show_nat n @ ''-'') ns) = sid_text ns @ ''-''"
  unfolding sid_text_def by (induction ns) simp_all

text \<open>
  The text of an identifier is \<open>S\<close> with its revision, its authority and its
  subauthorities in decimal, each behind a dash. It is produced exactly when the text, a trailing
  dash and the NUL fit into the buffer, which is overrun otherwise; a revision that is no digit
  leaves the buffer alone.
\<close>

theorem extract_sid_text:
  "hfm_extract_sid cap ctx a =
     (if hfm_read_8 ctx a > 9 then Inr None
      else if length (sid_text (sid_numbers ctx a)) + 1 < cap
      then Inr (Some (sid_text (sid_numbers ctx a))) else Inl OutOfBounds)"
proof (cases "hfm_read_8 ctx a > 9")
  case True
  then show ?thesis by (simp add: hfm_extract_sid_def Let_def not_le)
next
  case False
  let ?r = "unat (hfm_read_8 ctx a)" and ?au = "unat (sid_authority ctx a)"
  let ?f = "\<lambda>i. show_nat (unat (hfm_read_32 ctx (a + 8 + 4 * of_nat i))) @ ''-''"
  have r: "?r \<le> 9" using False by (simp add: word_less_nat_alt)
  let ?is = "[0 ..< unat (hfm_read_8 ctx (a + 1))]"
  let ?ps = "(''S-'' @ [char_of (?r + 48)] @ ''-'') # (show_nat ?au @ ''-'') # map ?f ?is"
  have t: "concat ?ps = sid_text (sid_numbers ctx a) @ ''-''"
    unfolding dash_rotate [symmetric]
    by (simp add: sid_numbers_def sid_subs_def show_nat_digit [OF r] comp_def)
  have "hfm_extract_sid cap ctx a =
      rbind (foldm (sprintf_at cap) ?ps []) (\<lambda>sid. Inr (Some (butlast sid)))"
    using False by (simp add: hfm_extract_sid_def Let_def not_le foldm_map rbind_assoc)
  also have "\<dots> = (if length (concat ?ps) < cap then Inr (Some (butlast (concat ?ps))) else Inl OutOfBounds)"
    by (rule foldm_sprintf_butlast) simp
  finally show ?thesis unfolding t using False by (simp add: butlast_append)
qed

text \<open>The authority is the big-endian number of its six bytes.\<close>

lemma unat_ucast_u8 [simp]: "unat (ucast (b :: u8) :: u64) = unat b"
proof -
  have "unat b < 2 ^ LENGTH(8)" by (rule unsigned_less)
  then show ?thesis by (simp add: unsigned_ucast_eq take_bit_nat_eq_self)
qed

lemma unat_shifted_byte:
  assumes "k \<le> 40"
  shows "unat (push_bit k (ucast (b :: u8)) :: u64) = unat b * 2 ^ k"
proof -
  have b: "unat b < 2 ^ LENGTH(8)" by (rule unsigned_less)
  have "(2 :: nat) ^ k \<le> 2 ^ 40" using assms by (rule power_increasing) simp
  then have "unat b * 2 ^ k < 2 ^ 8 * 2 ^ 40"
    using b by (intro mult_less_le_imp_less) simp_all
  then have "unat b * 2 ^ k < 2 ^ LENGTH(64)" by simp
  then have t: "take_bit LENGTH(64) (unat b * 2 ^ k) = unat b * 2 ^ k"
    by (simp add: take_bit_nat_eq_self)
  have "unat (push_bit k (ucast b) :: u64) = take_bit LENGTH(64) (push_bit k (unat (ucast b :: u64)))"
    by (rule unsigned_push_bit_eq)
  also have "\<dots> = unat b * 2 ^ k" by (simp only: unat_ucast_u8 push_bit_eq_mult t)
  finally show ?thesis .
qed

lemma unat_sum_list:
  "sum_list (map unat ws) < 2 ^ 64 \<Longrightarrow> unat (sum_list ws :: u64) = sum_list (map unat ws)"
  by (induction ws) (simp_all add: unat_word_ariths)

lemma sid_authority_value:
  "unat (sid_authority ctx a) =
     foldl (\<lambda>n i. 256 * n + unat (hfm_read_8 ctx (a + 2 + of_nat i))) 0 [0 ..< 6]"
proof -
  define b where "b i = hfm_read_8 ctx (a + 2 + of_nat i)" for i
  have b: "unat (b i) \<le> 255" for i
  proof -
    have "unat (b i) < 2 ^ LENGTH(8)" by (rule unsigned_less)
    then show ?thesis by simp
  qed
  have up: "[0 ..< 6] = [0, 1, 2, 3, 4, 5 :: nat]" by code_simp
  have "unat (sum_list (map (\<lambda>i. push_bit ((5 - i) * 8) (ucast (b i))) [0 ..< 6]) :: u64) =
      sum_list (map (\<lambda>i. unat (push_bit ((5 - i) * 8) (ucast (b i)) :: u64)) [0 ..< 6])"
    unfolding up using b [of 0] b [of 1] b [of 2] b [of 3] b [of 4] b [of 5]
    by (subst unat_sum_list) (simp_all add: unat_shifted_byte comp_def)
  also have "\<dots> = foldl (\<lambda>n i. 256 * n + unat (b i)) 0 [0 ..< 6]"
    unfolding up by (simp add: unat_shifted_byte)
  finally show ?thesis unfolding sid_authority_def b_def .
qed

section \<open>Reading an identifier back\<close>

lemma strtok_all_dashes:
  "t \<noteq> [] \<Longrightarrow> CHR ''-'' \<notin> set t \<Longrightarrow> \<forall>u \<in> set ts. u \<noteq> [] \<and> CHR ''-'' \<notin> set u \<Longrightarrow>
   strtok_all ''-'' (t @ concat (map ((#) CHR ''-'') ts)) = t # ts"
proof (induction ts arbitrary: t)
  case Nil
  have "strtok t ''-'' = (Some t, [])"
  proof -
    have 1: "takeWhile (\<lambda>c. c \<notin> set ''-'') t = t" "dropWhile (\<lambda>c. c \<notin> set ''-'') t = []"
      using Nil(2) by (auto simp: takeWhile_eq_all_conv dropWhile_eq_Nil_conv)
    have 2: "dropWhile (\<lambda>c. c \<in> set ''-'') t = t" using Nil(1,2) by (cases t) auto
    show ?thesis unfolding strtok_def 2 Let_def 1 using Nil(1) by simp
  qed
  then show ?case by (simp add: strtok_all.simps [of _ t] strtok_all.simps [of _ "[]"])
next
  case (Cons u us)
  let ?r = "u @ concat (map ((#) CHR ''-'') us)"
  have "takeWhile (\<lambda>c. c \<notin> set ''-'') (t @ CHR ''-'' # ?r) = t"
    "dropWhile (\<lambda>c. c \<notin> set ''-'') (t @ CHR ''-'' # ?r) = CHR ''-'' # ?r"
    using Cons.prems(2) by (auto simp: takeWhile_append dropWhile_append takeWhile_eq_all_conv dropWhile_eq_Nil_conv)
  moreover have "dropWhile (\<lambda>c. c \<in> set ''-'') (t @ CHR ''-'' # ?r) = t @ CHR ''-'' # ?r"
    using Cons.prems(1,2) by (cases t) auto
  ultimately have "strtok (t @ CHR ''-'' # ?r) ''-'' = (Some t, ?r)"
    by (simp add: strtok_def)
  then show ?case using Cons.IH [of u] Cons.prems(3)
    by (simp add: strtok_all.simps [of _ "t @ CHR ''-'' # ?r"])
qed

lemma strtok_sid_text: "strtok_all ''-'' (sid_text ns) = ''S'' # map show_nat ns"
proof -
  have "\<forall>u \<in> set (map show_nat ns). u \<noteq> [] \<and> CHR ''-'' \<notin> set u"
    using show_nat_digits is_digit_not_space by (simp; blast)
  from strtok_all_dashes [OF _ _ this, of "''S''"] show ?thesis
    by (simp add: sid_text_def comp_def)
qed

text \<open>
  Property C22. Splitting the text of an identifier at its dashes gives back the revision, the
  authority and the subauthorities of the guest's structure: the text says which account it is.
\<close>

theorem sid_roundtrip:
  assumes "hfm_extract_sid cap ctx a = Inr (Some t)"
  shows "map digits_value (tl (strtok_all ''-'' t)) = map int (sid_numbers ctx a)"
proof -
  have "t = sid_text (sid_numbers ctx a)"
    using assms by (auto simp: extract_sid_text split: if_splits)
  then show ?thesis by (simp add: strtok_sid_text digits_value_show comp_def)
qed

end
