(* ===== verification/Guest_Handles.thy ===== *)
theory Guest_Handles
  imports Guest
begin

text \<open>
  From a handle of the current process to the object behind it (\<open>hfm_fileobj_from_handle\<close> of
  \<open>src/context.c\<close>), and the same decoding of table entries in \<open>src/win.c\<close>
  (\<open>_adjust_obj_addr\<close>). The handle table of Windows is a tree of one to three levels of pages; the
  properties compare the arithmetic of the code with a walk down that tree, and the two decodings
  with each other.
\<close>

definition EX_FAST_REF_MASK :: u64 where "EX_FAST_REF_MASK = 7"
definition HANDLE_MULTIPLIER :: u64 where "HANDLE_MULTIPLIER = 4"

text \<open>An unsigned division or remainder of C.\<close>

definition udiv :: "'a::len word \<Rightarrow> 'a word \<Rightarrow> 'a word result" where
  "udiv x y = (if y = 0 then Inl DivByZero else Inr (x div y))"

definition umod :: "'a::len word \<Rightarrow> 'a word \<Rightarrow> 'a word result" where
  "umod x y = (if y = 0 then Inl DivByZero else Inr (x mod y))"

definition psize_of :: "page_mode_t \<Rightarrow> u64" where
  "psize_of pm = (if pm = VMI_PM_IA32E then 8 else 4)"

section \<open>The three kinds of table\<close>

text \<open>
  The offset of the pointer in an entry is assigned to a variable of an inner block, so the one
  that is used stays 0. Indices and counts have 32 bits.
\<close>

definition handle_level1 :: "context_t \<Rightarrow> u64 \<Rightarrow> u64 \<Rightarrow> u64 result" where
  "handle_level1 ctx table_base handle_idx =
     (let entry = sz ctx HANDLE_TABLE_ENTRY; psize = psize_of (hd_pm (cx_hdlr ctx)) in
      rbind (udiv VMI_PS_4KB entry) (\<lambda>lowest. let lowest_count = ucast lowest :: u32 in
      rbind (umod handle_idx (ucast lowest_count)) (\<lambda>r. let i = ucast r :: u32;
          handle_idx = handle_idx - ucast i in
      rbind (udiv handle_idx (ucast lowest_count)) (\<lambda>q. let j = ucast q :: u32;
          table = hfm_read_addr ctx (table_base + ucast j * psize) in
      Inr (if table \<noteq> 0 then hfm_read_addr ctx (table + ucast i * entry) else 0)))))"

definition handle_level2 :: "context_t \<Rightarrow> u64 \<Rightarrow> u64 \<Rightarrow> u64 result" where
  "handle_level2 ctx table_base handle_idx =
     (let entry = sz ctx HANDLE_TABLE_ENTRY; psize = psize_of (hd_pm (cx_hdlr ctx)) in
      rbind (udiv VMI_PS_4KB entry) (\<lambda>lowest. let lowest_count = ucast lowest :: u32;
          mid_count = ucast (VMI_PS_4KB div psize) :: u32 in
      rbind (umod handle_idx (ucast lowest_count)) (\<lambda>r. let i = ucast r :: u32;
          handle_idx = handle_idx - ucast i in
      rbind (udiv handle_idx (ucast lowest_count)) (\<lambda>q. let j = ucast q :: u32 in
      rbind (umod j mid_count) (\<lambda>k.
      rbind (udiv (j - k) mid_count) (\<lambda>j.
      let table = hfm_read_addr ctx (table_base + ucast j * psize);
          table2 = (if table \<noteq> 0 then hfm_read_addr ctx (table + ucast k * psize) else 0) in
      Inr (if table2 \<noteq> 0 then hfm_read_addr ctx (table2 + ucast i * entry) else 0)))))))"

definition handle_entry :: "context_t \<Rightarrow> u64 \<Rightarrow> u64 \<Rightarrow> u64 result" where
  "handle_entry ctx tablecode handle =
     (let table_base = tablecode AND NOT EX_FAST_REF_MASK;
          table_levels = tablecode AND EX_FAST_REF_MASK;
          handle_idx = handle div HANDLE_MULTIPLIER in
      if table_levels = 0 then
        Inr (hfm_read_addr ctx (table_base + handle_idx * sz ctx HANDLE_TABLE_ENTRY))
      else if table_levels = 1 then handle_level1 ctx table_base handle_idx
      else if table_levels = 2 then handle_level2 ctx table_base handle_idx
      else Inr 0)"

section \<open>Decoding an entry\<close>

definition decode_entry :: "context_t \<Rightarrow> u64 \<Rightarrow> u64" where
  "decode_entry ctx obj =
     (let m = g_bit_mask (cx_guest ctx); ia32e = hd_pm (cx_hdlr ctx) = VMI_PM_IA32E in
      case hd_winver (cx_hdlr ctx) of
        VMI_OS_WINDOWS_7 \<Rightarrow> obj AND NOT EX_FAST_REF_MASK
      | VMI_OS_WINDOWS_VISTA \<Rightarrow> obj AND NOT EX_FAST_REF_MASK
      | VMI_OS_WINDOWS_8 \<Rightarrow>
          if ia32e then push_bit 4 (drop_bit 20 (obj AND m 19 63)) OR 0xFFFF000000000000
          else obj AND m 2 31
      | _ \<Rightarrow>
          if ia32e then drop_bit 16 (obj AND m 19 63) OR 0xFFFF000000000000
          else obj AND m 2 31)"

text \<open>\<open>_adjust_obj_addr\<close> of \<open>win.c\<close>.\<close>

definition adjust_obj_addr :: "guest_t \<Rightarrow> win_ver_t \<Rightarrow> page_mode_t \<Rightarrow> u64 \<Rightarrow> u64" where
  "adjust_obj_addr g winver pm obj =
     (let m = g_bit_mask g in
      case winver of
        VMI_OS_WINDOWS_7 \<Rightarrow> obj AND NOT EX_FAST_REF_MASK
      | VMI_OS_WINDOWS_VISTA \<Rightarrow> obj AND NOT EX_FAST_REF_MASK
      | VMI_OS_WINDOWS_XP \<Rightarrow> obj AND NOT EX_FAST_REF_MASK
      | _ \<Rightarrow>
          if pm = VMI_PM_IA32E
          then push_bit 4 (drop_bit 20 (obj AND m 19 63)) OR 0xFFFF000000000000
          else obj AND m 2 31)"

definition hfm_fileobj_from_handle :: "context_t \<Rightarrow> u64 \<Rightarrow> u64 result" where
  "hfm_fileobj_from_handle ctx handle =
     (let process = hfm_get_current_process ctx in
      if process = 0 then Inr 0
      else let handletable = hfm_read_addr ctx (process + off ctx EPROCESS__OBJECT_TABLE) in
      if handletable = 0 then Inr 0
      else let tablecode = hfm_read_addr ctx (handletable + off ctx HANDLE_TABLE__TABLE_CODE) in
      if tablecode = 0 then Inr 0
      else let handlecount = hfm_read_32 ctx (handletable + off ctx HANDLE_TABLE__HANDLE_COUNT) in
      if handlecount = 0 then Inr 0
      else rbind (handle_entry ctx tablecode handle) (\<lambda>handle_obj.
        Inr (decode_entry ctx handle_obj + off ctx OBJECT_HEADER__BODY)))"

section \<open>The walk down the tree\<close>

text \<open>
  Entry \<open>n\<close> of a table with \<open>l\<close> levels above its entries: each table of pointers splits the
  entries below it evenly, \<open>low\<close> entries fit into a lowest page and \<open>mid\<close> pointers into another.
\<close>

fun walk :: "context_t \<Rightarrow> nat \<Rightarrow> nat \<Rightarrow> nat \<Rightarrow> u64 \<Rightarrow> nat \<Rightarrow> u64" where
  "walk ctx low mid 0 table n = hfm_read_addr ctx (table + of_nat n * sz ctx HANDLE_TABLE_ENTRY)"
| "walk ctx low mid (Suc l) table n =
     (let span = low * mid ^ l;
          below = hfm_read_addr ctx (table + of_nat (n div span) * psize_of (hd_pm (cx_hdlr ctx)))
      in if below = 0 then 0 else walk ctx low mid l below (n mod span))"

lemma psize_cases: "psize_of pm = 8 \<or> psize_of pm = 4"
  by (simp add: psize_of_def)

lemma unat_u32_u64 [simp]: "unat (ucast (x :: u32) :: u64) = unat x"
proof -
  have "unat x < 2 ^ LENGTH(32)" by (rule unsigned_less)
  then show ?thesis by (simp add: unsigned_ucast_eq take_bit_nat_eq_self)
qed

lemma unat_u64_u32: "unat x < 2 ^ 32 \<Longrightarrow> unat (ucast (x :: u64) :: u32) = unat x"
  by (simp add: unsigned_ucast_eq take_bit_nat_eq_self)

lemma word_of_unat: "unat x = n \<Longrightarrow> x = of_nat n"
  by auto

lemma lowest_count:
  assumes "entry \<noteq> 0" and "entry \<le> 4096"
  shows "udiv VMI_PS_4KB entry = Inr (VMI_PS_4KB div entry)"
    and "unat (ucast (VMI_PS_4KB div entry) :: u32) = 4096 div unat entry"
    and "0 < 4096 div unat entry"
proof -
  have e: "0 < unat entry" "unat entry \<le> 4096"
    using assms by (simp_all add: word_le_nat_alt unat_gt_0)
  show "udiv VMI_PS_4KB entry = Inr (VMI_PS_4KB div entry)" using assms(1) by (simp add: udiv_def)
  have u: "unat (VMI_PS_4KB div entry) = 4096 div unat entry" by (simp add: unat_div VMI_PS_4KB_def)
  have "4096 div unat entry \<le> 4096" by simp
  then have "unat (VMI_PS_4KB div entry) < 2 ^ 32" unfolding u by (rule le_less_trans) simp
  then show "unat (ucast (VMI_PS_4KB div entry) :: u32) = 4096 div unat entry"
    by (simp add: unat_u64_u32 u)
  show "0 < 4096 div unat entry" using e by (simp add: div_greater_zero_iff)
qed

text \<open>The two digits of an index, as the code computes them.\<close>

lemma split_index:
  fixes idx :: u64 and lc :: u32
  assumes "0 < unat lc" and "unat idx < 2 ^ 32"
  shows "umod idx (ucast lc) = Inr (idx mod ucast lc)"
    and "unat (ucast (idx mod ucast lc) :: u32) = unat idx mod unat lc"
    and "udiv (idx - ucast (ucast (idx mod ucast lc) :: u32)) (ucast lc) =
      Inr ((idx - ucast (ucast (idx mod ucast lc) :: u32)) div ucast lc)"
    and "unat (ucast ((idx - ucast (ucast (idx mod ucast lc) :: u32)) div ucast lc) :: u32) =
      unat idx div unat lc"
proof -
  have l0: "(ucast lc :: u64) \<noteq> 0"
  proof
    assume "(ucast lc :: u64) = 0"
    then have "unat (ucast lc :: u64) = 0" by simp
    then show False using assms(1) by simp
  qed
  then show "umod idx (ucast lc) = Inr (idx mod ucast lc)" by (simp add: umod_def)
  have lt: "unat idx mod unat lc < 2 ^ 32" by (rule le_less_trans [OF mod_less_eq_dividend assms(2)])
  then show i: "unat (ucast (idx mod ucast lc) :: u32) = unat idx mod unat lc"
    by (subst unat_u64_u32) (simp_all add: unat_mod)
  show "udiv (idx - ucast (ucast (idx mod ucast lc) :: u32)) (ucast lc) =
      Inr ((idx - ucast (ucast (idx mod ucast lc) :: u32)) div ucast lc)"
    using l0 by (simp add: udiv_def)
  have "ucast (ucast (idx mod ucast lc) :: u32) \<le> idx"
    by (simp add: word_le_nat_alt i)
  then have "unat (idx - ucast (ucast (idx mod ucast lc) :: u32)) = unat idx - unat idx mod unat lc"
    by (simp add: unat_sub i)
  then have d: "unat ((idx - ucast (ucast (idx mod ucast lc) :: u32)) div ucast lc) = unat idx div unat lc"
    using assms(1) by (simp add: unat_div minus_mod_eq_mult_div)
  have "unat idx div unat lc < 2 ^ 32" by (rule le_less_trans [OF div_le_dividend assms(2)])
  then show "unat (ucast ((idx - ucast (ucast (idx mod ucast lc) :: u32)) div ucast lc) :: u32) =
      unat idx div unat lc"
    by (subst unat_u64_u32) (simp_all add: d)
qed

text \<open>The same for the second division, on 32 bits.\<close>

lemma split_mid:
  fixes j mc :: u32
  assumes "0 < unat mc"
  shows "umod j mc = Inr (j mod mc)" and "unat (j mod mc) = unat j mod unat mc"
    and "udiv (j - j mod mc) mc = Inr ((j - j mod mc) div mc)"
    and "unat ((j - j mod mc) div mc) = unat j div unat mc"
proof -
  have m0: "mc \<noteq> 0" using assms by (auto simp: unat_eq_0)
  show "umod j mc = Inr (j mod mc)" "udiv (j - j mod mc) mc = Inr ((j - j mod mc) div mc)"
    using m0 by (simp_all add: umod_def udiv_def)
  show m: "unat (j mod mc) = unat j mod unat mc" by (rule unat_mod)
  have "j mod mc \<le> j" by (simp add: word_le_nat_alt m)
  then have s: "unat (j - j mod mc) = unat j - unat j mod unat mc" by (simp only: unat_sub m)
  show "unat ((j - j mod mc) div mc) = unat j div unat mc"
    unfolding unat_div s using assms by (simp only: minus_mod_eq_mult_div) simp
qed

lemma ucast_is_of_nat: "unat (x :: u32) = n \<Longrightarrow> (ucast x :: u64) = of_nat n"
  by (rule word_of_unat) simp

lemma walk_digits:
  fixes n low mid :: nat
  assumes "0 < low"
  shows "n div (low * mid) = n div low div mid" and "n mod (low * mid) div low = n div low mod mid"
    and "n mod (low * mid) mod low = n mod low"
proof -
  show "n div (low * mid) = n div low div mid" by (rule div_mult2_eq)
  have m: "n mod (low * mid) = low * (n div low mod mid) + n mod low" by (rule mod_mult2_eq)
  show "n mod (low * mid) div low = n div low mod mid" using assms by (simp add: m)
  show "n mod (low * mid) mod low = n mod low" by (simp add: m)
qed

lemma handle_level1_walk:
  fixes ctx :: context_t and table idx :: u64
  defines "low \<equiv> 4096 div unat (sz ctx HANDLE_TABLE_ENTRY)"
  assumes "sz ctx HANDLE_TABLE_ENTRY \<noteq> 0" and "sz ctx HANDLE_TABLE_ENTRY \<le> 4096" and "unat idx < 2 ^ 32"
  shows "handle_level1 ctx table idx = Inr (walk ctx low mid (Suc 0) table (unat idx))"
proof -
  note l = lowest_count [OF assms(2,3), folded low_def]
  define lc where "lc = (ucast (VMI_PS_4KB div sz ctx HANDLE_TABLE_ENTRY) :: u32)"
  have lc: "unat lc = low" using l(2) by (simp add: lc_def)
  have lc0: "0 < unat lc" using l(3) lc by simp
  note d = split_index [OF lc0 assms(4)]
  show ?thesis
    unfolding handle_level1_def Let_def l(1) rbind_Inr lc_def [symmetric] d(1)
    unfolding d(3) rbind_Inr
    unfolding ucast_is_of_nat [OF d(4)]
    unfolding ucast_is_of_nat [OF d(2)]
    by (simp add: lc Let_def)
qed

lemma handle_level2_walk:
  fixes ctx :: context_t and table idx :: u64
  defines "low \<equiv> 4096 div unat (sz ctx HANDLE_TABLE_ENTRY)"
    and "mid \<equiv> 4096 div unat (psize_of (hd_pm (cx_hdlr ctx)))"
  assumes "sz ctx HANDLE_TABLE_ENTRY \<noteq> 0" and "sz ctx HANDLE_TABLE_ENTRY \<le> 4096" and "unat idx < 2 ^ 32"
  shows "handle_level2 ctx table idx = Inr (walk ctx low mid 2 table (unat idx))"
proof -
  note l = lowest_count [OF assms(3,4), folded low_def]
  define lc where "lc = (ucast (VMI_PS_4KB div sz ctx HANDLE_TABLE_ENTRY) :: u32)"
  define mc where "mc = (ucast (VMI_PS_4KB div psize_of (hd_pm (cx_hdlr ctx))) :: u32)"
  have lc: "unat lc = low" using l(2) by (simp add: lc_def)
  have lc0: "0 < unat lc" using l(3) lc by simp
  have mc: "unat mc = mid" "0 < unat mc"
    using psize_cases [of "hd_pm (cx_hdlr ctx)"] by (auto simp: mc_def mid_def VMI_PS_4KB_def)
  note d = split_index [OF lc0 assms(5)]
  define j where "j = (ucast ((idx - ucast (ucast (idx mod ucast lc) :: u32)) div ucast lc) :: u32)"
  have j: "unat j = unat idx div low" using d(4) by (simp add: j_def lc)
  note e = split_mid [OF mc(2), of j]
  have w: "walk ctx low mid 2 table (unat idx) =
      (let t = hfm_read_addr ctx (table + of_nat (unat idx div low div mid) * psize_of (hd_pm (cx_hdlr ctx)));
           t2 = (if t \<noteq> 0 then hfm_read_addr ctx (t + of_nat (unat idx div low mod mid) * psize_of (hd_pm (cx_hdlr ctx))) else 0)
       in if t2 \<noteq> 0 then hfm_read_addr ctx (t2 + of_nat (unat idx mod low) * sz ctx HANDLE_TABLE_ENTRY) else 0)"
    using l(3) by (simp add: numeral_2_eq_2 walk_digits Let_def)
  show ?thesis
    unfolding handle_level2_def Let_def l(1) rbind_Inr lc_def [symmetric] mc_def [symmetric] d(1)
    unfolding d(3) rbind_Inr j_def [symmetric]
    unfolding e(1) rbind_Inr
    unfolding e(3) rbind_Inr
    unfolding ucast_is_of_nat [OF d(2)] ucast_is_of_nat [OF e(4)]
    unfolding ucast_is_of_nat [OF e(2)]
    by (simp only: w lc j mc(1) Let_def)
qed

text \<open>
  Property C15. For a handle below \<open>2 ^ 34\<close> and a plausible size of the entries, the arithmetic of the
  code is the walk down the handle table: it reads the entry with the handle's number in the tree
  whose depth the table code tells, or nothing where the tree has no page.
\<close>

theorem handle_entry_walk:
  assumes "sz ctx HANDLE_TABLE_ENTRY \<noteq> 0" and "sz ctx HANDLE_TABLE_ENTRY \<le> 4096"
    and "handle < 2 ^ 34" and "tablecode AND 7 \<le> 2"
  shows "handle_entry ctx tablecode handle = Inr (walk ctx
    (4096 div unat (sz ctx HANDLE_TABLE_ENTRY)) (4096 div unat (psize_of (hd_pm (cx_hdlr ctx))))
    (unat (tablecode AND 7)) (tablecode AND NOT 7) (unat handle div 4))"
proof -
  have h: "unat (handle div 4) = unat handle div 4" by (simp add: unat_div)
  have "unat handle < 2 ^ 34" using assms(3) by (simp add: word_less_nat_alt)
  then have b: "unat (handle div 4) < 2 ^ 32" by (simp add: h less_mult_imp_div_less)
  have hw: "(of_nat (unat handle div 4) :: u64) = handle div 4" by (simp add: h [symmetric])
  have "unat (tablecode AND 7) \<le> 2" using assms(4) by (simp add: word_le_nat_alt)
  then consider "unat (tablecode AND 7) = 0" | "unat (tablecode AND 7) = 1" | "unat (tablecode AND 7) = 2"
    by linarith
  then consider "tablecode AND 7 = 0" | "tablecode AND 7 = 1" | "tablecode AND 7 = 2"
    by cases (auto dest: word_of_unat)
  then show ?thesis
  proof cases
    case 1
    then show ?thesis by (simp add: handle_entry_def EX_FAST_REF_MASK_def HANDLE_MULTIPLIER_def Let_def hw)
  next
    case 2
    then show ?thesis using handle_level1_walk [OF assms(1,2) b, of "tablecode AND NOT 7"]
      by (simp add: handle_entry_def EX_FAST_REF_MASK_def HANDLE_MULTIPLIER_def Let_def h del: walk.simps)
  next
    case 3
    then show ?thesis using handle_level2_walk [OF assms(1,2) b, of "tablecode AND NOT 7"]
      by (simp add: handle_entry_def EX_FAST_REF_MASK_def HANDLE_MULTIPLIER_def Let_def h del: walk.simps)
  qed
qed

text \<open>A profile without the size of the entries makes the code divide by zero.\<close>

lemma handle_division_by_zero:
  "sz ctx HANDLE_TABLE_ENTRY = 0 \<Longrightarrow> tablecode AND 7 \<in> {1, 2} \<Longrightarrow>
   handle_entry ctx tablecode handle = Inl DivByZero"
  by (auto simp: handle_entry_def EX_FAST_REF_MASK_def handle_level1_def handle_level2_def udiv_def Let_def)

section \<open>The two decodings\<close>

lemma drop_push_mask:
  fixes m obj :: u64
  assumes "\<And>n. n < 64 \<Longrightarrow> bit m n \<longleftrightarrow> 19 \<le> n"
  shows "drop_bit 16 (obj AND m) OR 0xFFFF000000000000 =
    push_bit 4 (drop_bit 20 (obj AND m)) OR 0xFFFF000000000000 \<longleftrightarrow> \<not> bit obj 19"
    (is "?l = ?r \<longleftrightarrow> _")
proof
  assume eq: "?l = ?r"
  have "bit ?l 3 \<longleftrightarrow> bit obj 19" using assms [of 19] by (simp add: bit_simps)
  moreover have "\<not> bit ?r 3" by (simp add: bit_simps)
  ultimately show "\<not> bit obj 19" using eq by metis
next
  assume no: "\<not> bit obj 19"
  show "?l = ?r"
  proof (rule bit_word_eqI)
    fix n assume n: "n < LENGTH(64)"
    have "bit (obj AND m) (16 + n) \<longleftrightarrow> 4 \<le> n \<and> bit (obj AND m) (20 + (n - 4))"
    proof (cases "4 \<le> n")
      case True
      then show ?thesis by simp
    next
      case False
      then have "n = 3 \<or> 16 + n < 19" by linarith
      then show ?thesis using no assms [of "16 + n"] False by (auto simp: bit_and_iff)
    qed
    moreover define x where "x = obj AND m"
    ultimately show "bit ?l n \<longleftrightarrow> bit ?r n"
      using n unfolding x_def [symmetric] by (simp add: bit_or_iff bit_drop_bit_eq bit_push_bit_iff)
  qed
qed

text \<open>
  The two decoders of table entries agree except on Windows XP and, for 64-bit guests
  that are not Windows 7, Vista or 8, on entries with bit 19, which one of them keeps as bit 3 of
  the object's address.
\<close>

theorem decoders_agree:
  assumes "hd_winver (cx_hdlr ctx) \<noteq> VMI_OS_WINDOWS_XP"
    and "\<And>n. n < 64 \<Longrightarrow> bit (g_bit_mask (cx_guest ctx) 19 63) n \<longleftrightarrow> 19 \<le> n"
  shows "decode_entry ctx obj =
      adjust_obj_addr (cx_guest ctx) (hd_winver (cx_hdlr ctx)) (hd_pm (cx_hdlr ctx)) obj \<longleftrightarrow>
    hd_winver (cx_hdlr ctx) \<in> {VMI_OS_WINDOWS_7, VMI_OS_WINDOWS_VISTA, VMI_OS_WINDOWS_8} \<or>
    hd_pm (cx_hdlr ctx) \<noteq> VMI_PM_IA32E \<or> \<not> bit obj 19"
  using assms(1) drop_push_mask [OF assms(2), of obj]
  by (cases "hd_winver (cx_hdlr ctx)") (simp_all add: decode_entry_def adjust_obj_addr_def Let_def)

end
