(* ===== verification/Guest_Demo.thy ===== *)
theory Guest_Demo
  imports Guest_Props Guest_Handles
begin

text \<open>
  A small Windows 7 guest with 64 bits, on which the properties of the readers are applied: a file
  object at \<open>0x1000\<close> on the drive \<open>C:\<close>, and the identifier \<open>S-1-5-32-544\<close> at \<open>0x5000\<close>.
\<close>

definition demo_offsets :: offsets where
  "demo_offsets = (\<lambda>_. 0)(UNICODE_STRING__BUFFER := 8, FILE_OBJECT__DEVICE_OBJECT := 8,
     FILE_OBJECT__FILE_NAME := 0x30, OBJECT_HEADER__BODY := 0x30)"

definition demo_sizes :: sizes where
  "demo_sizes = (\<lambda>_. 0)(HANDLE_TABLE_ENTRY := 16, OBJECT_HEADER_NAME_INFO := 0x20)"

fun utf16 :: "string \<Rightarrow> u8 list" where
  "utf16 [] = []"
| "utf16 (c # cs) = of_nat (of_char c) # 0 # utf16 cs"

fun narrow :: "u8 list \<Rightarrow> string" where
  "narrow (b # _ # bs) = char_of (unat b) # narrow bs"
| "narrow _ = []"

lemma narrow_utf16 [simp]: "narrow (utf16 s) = s"
proof (induction s)
  case (Cons c s)
  have "(of_char c :: nat) < 2 ^ LENGTH(8)" by simp
  then have "unat (of_nat (of_char c) :: u8) = of_char c" by (simp only: unat_of_nat mod_less)
  with Cons show ?case by simp
qed simp

lemma length_utf16 [simp]: "length (utf16 s) = 2 * length s"
  by (induction s) simp_all

definition demo_volume :: string where "demo_volume = ''HarddiskVolume2''"
definition demo_path :: string where "demo_path = CHR 0x5C # ''f.txt''"

lemma demo_lengths: "length demo_volume = 15" "length demo_path = 6"
  by (simp_all add: demo_volume_def demo_path_def)

definition demo_guest :: guest_t where
  "demo_guest = \<lparr>
     g_addr = map_of [(0x1008, 0x2000), (0x1FB8, 0x3000), (0x1038, 0x4000),
       (0x7000, 0x8000), (0x8020, 0x1030)],
     g_64 = Map.empty,
     g_32 = map_of [(0x5008, 32), (0x500C, 544)],
     g_16 = map_of [(0x1FB0, 30), (0x1030, 12)],
     g_8 = map_of [(0x5000, 1), (0x5001, 2), (0x5007, 5)],
     g_bytes = (\<lambda>a n. if a = 0x3000 then utf16 demo_volume else if a = 0x4000 then utf16 demo_path else []),
     g_pa = (\<lambda>_ _. []), g_utf8 = (\<lambda>bs. Some (narrow bs)),
     g_bit_mask = (\<lambda>a b. mask (b + 1) AND NOT (mask a)), g_entry_present = (\<lambda>pte. bit pte 0)\<rparr>"

definition demo_hdlr :: win_hdlr_t where
  "demo_hdlr = \<lparr>hd_pm = VMI_PM_IA32E, hd_winver = VMI_OS_WINDOWS_7,
     hd_drives = [\<lparr>dos_name = ''C:'', win_name = demo_volume, drv_index = 3\<rparr>], hd_cookie = 0,
     hd_offsets = demo_offsets, hd_sizes = demo_sizes\<rparr>"

definition demo_regs :: x86_registers_t where
  "demo_regs = \<lparr>rg_rax = 0, rg_rcx = 0, rg_rdx = 0, rg_rsp = 0, rg_r8 = 0, rg_r9 = 0,
     rg_fs_base = 0, rg_gs_base = 0\<rparr>"

definition demo_ctx :: context_t where
  "demo_ctx = \<lparr>cx_regs = demo_regs, cx_guest = demo_guest, cx_hdlr = demo_hdlr, cx_process_base = 0\<rparr>"

lemma demo_unicode:
  "unicode_at demo_ctx 0x1FB0 = demo_volume" "unicode_at demo_ctx 0x1030 = demo_path"
  by (simp_all add: unicode_at_def demo_ctx_def demo_guest_def demo_hdlr_def demo_offsets_def off_def
      hfm_read_16_def hfm_read_addr_def hfm_read_def Let_def demo_lengths)

lemma demo_names:
  "device_name demo_ctx 0x1000 = demo_volume" "path_of_object demo_ctx 0x1000 = demo_path"
proof -
  have "hfm_read_addr demo_ctx 0x1008 = 0x2000"
    by (simp add: hfm_read_addr_def demo_ctx_def demo_guest_def)
  moreover have "off demo_ctx FILE_OBJECT__DEVICE_OBJECT = 8" "off demo_ctx OBJECT_HEADER__BODY = 0x30"
    "sz demo_ctx OBJECT_HEADER_NAME_INFO = 0x20" "off demo_ctx OBJECT_HEADER_NAME_INFO__NAME = 0"
    "off demo_ctx FILE_OBJECT__FILE_NAME = 0x30"
    by (simp_all add: off_def sz_def demo_ctx_def demo_hdlr_def demo_offsets_def demo_sizes_def)
  ultimately show "device_name demo_ctx 0x1000 = demo_volume" "path_of_object demo_ctx 0x1000 = demo_path"
    by (simp_all add: device_name_def path_of_object_def demo_unicode)
qed

theorem filename_from_object_witness:
  "hfm_read_filename_from_object demo_ctx 0x1000 = Inr (8, ''C:'' @ demo_path)"
proof -
  have d: "hd_drives (cx_hdlr demo_ctx) = [\<lparr>dos_name = ''C:'', win_name = demo_volume, drv_index = 3\<rparr>]"
    by (simp add: demo_ctx_def demo_hdlr_def)
  have c: "c_str demo_volume = demo_volume" "c_str demo_path = demo_path"
    by (simp_all add: c_str_def demo_volume_def demo_path_def NUL_def)
  have l: "\<forall>d \<in> set (hd_drives (cx_hdlr demo_ctx)). length (win_name d) < BUFF"
    by (simp add: d demo_volume_def BUFF_def)
  show ?thesis
    by (simp add: filename_from_object [OF l] demo_names c d fits_buff_def BUFF_def demo_lengths)
qed

lemma demo_sid_numbers: "sid_numbers demo_ctx 0x5000 = [1, 5, 32, 544]"
proof -
  have up: "[0 ..< 6] = [0, 1, 2, 3, 4, 5 :: nat]" "[0 ..< 2] = [0, 1 :: nat]" by code_simp+
  have r: "hfm_read_8 demo_ctx a = (if a = 0x5000 then 1 else if a = 0x5001 then 2 else if a = 0x5007 then 5 else 0)"
    "hfm_read_32 demo_ctx a = (if a = 0x5008 then 32 else if a = 0x500C then 544 else 0)" for a
    by (simp_all add: hfm_read_8_def hfm_read_32_def demo_ctx_def demo_guest_def)
  have "unat (sid_authority demo_ctx 0x5000) = 5"
    by (simp add: sid_authority_value up r)
  moreover have "sid_subs demo_ctx 0x5000 = [32, 544]"
    by (simp add: sid_subs_def r up)
  ultimately show ?thesis by (simp add: sid_numbers_def r)
qed

theorem sid_roundtrip_witness:
  "\<exists>t. hfm_extract_sid SID_LEN demo_ctx 0x5000 = Inr (Some t) \<and>
     map digits_value (tl (strtok_all ''-'' t)) = [1, 5, 32, 544]"
proof -
  have "hfm_read_8 demo_ctx 0x5000 = 1" by (simp add: hfm_read_8_def demo_ctx_def demo_guest_def)
  then have e: "hfm_extract_sid SID_LEN demo_ctx 0x5000 = Inr (Some (sid_text [1, 5, 32, 544]))"
    by (simp add: extract_sid_text demo_sid_numbers sid_text_def show_nat.simps SID_LEN_def)
  show ?thesis using e sid_roundtrip [OF e] by (simp add: demo_sid_numbers)
qed

theorem handle_entry_walk_witness: "handle_entry demo_ctx 0x7001 8 = Inr 0x1030"
proof -
  have e: "sz demo_ctx HANDLE_TABLE_ENTRY = 16" "hd_pm (cx_hdlr demo_ctx) = VMI_PM_IA32E"
    by (simp_all add: sz_def demo_ctx_def demo_hdlr_def demo_sizes_def)
  have r: "hfm_read_addr demo_ctx 0x7000 = 0x8000" "hfm_read_addr demo_ctx 0x8020 = 0x1030"
    by (simp_all add: hfm_read_addr_def demo_ctx_def demo_guest_def)
  have "handle_entry demo_ctx 0x7001 8 = Inr (walk demo_ctx 256 512 (Suc 0) 0x7000 2)"
    by (subst handle_entry_walk) (simp_all add: e psize_of_def)
  then show ?thesis by (simp add: e r)
qed

definition demo_ctx10 :: context_t where
  "demo_ctx10 = demo_ctx\<lparr>cx_hdlr := demo_hdlr\<lparr>hd_winver := VMI_OS_WINDOWS_10\<rparr>\<rparr>"

theorem decoders_agree_witness:
  "decode_entry demo_ctx10 0x80000 \<noteq> adjust_obj_addr demo_guest VMI_OS_WINDOWS_10 VMI_PM_IA32E 0x80000 \<and>
   decode_entry demo_ctx10 0x100000 = adjust_obj_addr demo_guest VMI_OS_WINDOWS_10 VMI_PM_IA32E 0x100000"
proof -
  have c: "hd_winver (cx_hdlr demo_ctx10) = VMI_OS_WINDOWS_10" "hd_pm (cx_hdlr demo_ctx10) = VMI_PM_IA32E"
    "cx_guest demo_ctx10 = demo_guest"
    by (simp_all add: demo_ctx10_def demo_ctx_def demo_hdlr_def)
  have m: "bit (g_bit_mask (cx_guest demo_ctx10) 19 63) n \<longleftrightarrow> 19 \<le> n" if "n < 64" for n
    using that by (simp add: c demo_guest_def bit_and_iff bit_mask_iff bit_not_iff not_less)
  have b: "bit (0x80000 :: u64) 19" "\<not> bit (0x100000 :: u64) 19" by (simp_all add: bit_simps)
  show ?thesis
    using decoders_agree [OF _ m, of "0x80000"] decoders_agree [OF _ m, of "0x100000"] b by (simp add: c)
qed

end
