(* ===== verification/Guest_Extract.thy ===== *)
theory Guest_Extract
  imports Guest_Demo
begin

text \<open>
  Extracting a file from the guest's memory (\<open>hfm_extract_file\<close> and \<open>_extract_ca_file\<close> of
  \<open>src/context.c\<close>): the pages a control area knows are written into a new file, subsection by
  subsection, each at its place. The list of subsections is in the guest's memory and nothing
  bounds it, so the loop is a partial function; \<open>extract_returns_iff\<close> says when it ends.
\<close>

text \<open>
  What is written: pages with their positions. Opening and seeking may fail, which is the record
  \<open>file_env\<close>. A file that was opened is its list of writes.
\<close>

type_synonym pages = "(u64 \<times> u8 list) list"

record file_env =
  fe_open :: "string \<Rightarrow> bool"
  fe_seek :: "u64 \<Rightarrow> bool"

definition le_word :: "u8 list \<Rightarrow> u64" where
  "le_word bs = foldr (\<lambda>b w. push_bit 8 w OR ucast b) bs 0"

text \<open>The loop over the page table entries; \<open>n\<close> are left, \<open>i\<close> is \<open>ptecount\<close>.\<close>

fun pte_loop ::
  "context_t \<Rightarrow> file_env \<Rightarrow> u64 \<Rightarrow> u64 \<Rightarrow> nat \<Rightarrow> nat \<Rightarrow> nat \<Rightarrow> pages \<Rightarrow> pages" where
  "pte_loop ctx fe base subsection_offset mmpte_size 0 i ws = ws"
| "pte_loop ctx fe base subsection_offset mmpte_size (Suc n) i ws =
     (let pteoffset = base + of_nat mmpte_size * of_nat i;
          fileoffset = subsection_offset + of_nat i * 0x1000;
          bytes = hfm_read ctx pteoffset mmpte_size
      in if length bytes \<noteq> mmpte_size then ws
         else let pte = le_word bytes;
                  page = g_pa (cx_guest ctx) (g_bit_mask (cx_guest ctx) 12 48 AND pte) 4096
         in pte_loop ctx fe base subsection_offset mmpte_size n (Suc i)
              (if g_entry_present (cx_guest ctx) pte \<and> length page = 4096 \<and> fe_seek fe fileoffset
               then ws @ [(fileoffset, page)] else ws))"

text \<open>Whether the loop over the subsections goes on with this one, and what it writes for it.\<close>

definition subsection_ok :: "context_t \<Rightarrow> u64 \<Rightarrow> u64 \<Rightarrow> bool" where
  "subsection_ok ctx control_area subsection \<longleftrightarrow>
     subsection \<noteq> 0 \<and>
     hfm_read_addr ctx (subsection + off ctx SUBSECTION__CONTROL_AREA) = control_area \<and>
     hfm_read_addr ctx (subsection + off ctx SUBSECTION__SUBSECTION_BASE) AND
       g_bit_mask (cx_guest ctx) 0 11 \<noteq> 0 \<and>
     hfm_read_32 ctx (subsection + off ctx SUBSECTION__PTES_IN_SUBSECTION) \<noteq> 0"

definition subsection_write :: "context_t \<Rightarrow> file_env \<Rightarrow> nat \<Rightarrow> u64 \<Rightarrow> pages \<Rightarrow> pages" where
  "subsection_write ctx fe mmpte_size subsection ws =
     (let base = hfm_read_addr ctx (subsection + off ctx SUBSECTION__SUBSECTION_BASE);
          ptes = hfm_read_32 ctx (subsection + off ctx SUBSECTION__PTES_IN_SUBSECTION);
          start = ucast (hfm_read_32 ctx (subsection + off ctx SUBSECTION__STARTING_SECTOR)) :: u64
      in pte_loop ctx fe base (start * 0x200) mmpte_size (unat ptes) 0 ws)"

definition next_subsection :: "context_t \<Rightarrow> u64 \<Rightarrow> u64" where
  "next_subsection ctx subsection = hfm_read_addr ctx (subsection + off ctx SUBSECTION__NEXT_SUBSECTION)"

partial_function (option) subsection_loop ::
  "context_t \<Rightarrow> file_env \<Rightarrow> u64 \<Rightarrow> nat \<Rightarrow> u64 \<Rightarrow> pages \<Rightarrow> pages option" where
  "subsection_loop ctx fe control_area mmpte_size subsection ws =
     (if \<not> subsection_ok ctx control_area subsection then Some ws
      else subsection_loop ctx fe control_area mmpte_size (next_subsection ctx subsection)
             (subsection_write ctx fe mmpte_size subsection ws))"

declare subsection_loop.simps [code]

text \<open>
  \<open>_extract_ca_file\<close>: the value returned and the file made. After the loop there is no \<open>return\<close>,
  so the value is then \<open>noret\<close>, whatever that is. \<open>None\<close>: the function does not return.
\<close>

definition ca_valid :: "context_t \<Rightarrow> u64 \<Rightarrow> bool" where
  "ca_valid ctx control_area \<longleftrightarrow>
     (let segment = hfm_read_addr ctx (control_area + off ctx CONTROL_AREA__SEGMENT) in
      hfm_read_addr ctx (segment + off ctx SEGMENT__CONTROL_AREA) = control_area \<and>
      hfm_read_64 ctx (segment + off ctx SEGMENT__SIZE_OF_SEGMENT) =
        ucast (hfm_read_32 ctx (segment + off ctx SEGMENT__TOTAL_NUMBER_OF_PTES)) * 4096)"

definition mmpte_size_of :: "page_mode_t \<Rightarrow> nat" where
  "mmpte_size_of pm = (if pm = VMI_PM_LEGACY then 4 else 8)"

definition extract_ca_file ::
  "context_t \<Rightarrow> file_env \<Rightarrow> int \<Rightarrow> u64 \<Rightarrow> string \<Rightarrow> (int \<times> pages option) option" where
  "extract_ca_file ctx fe noret control_area path =
     (if \<not> ca_valid ctx control_area then Some (- 1, None)
      else if \<not> fe_open fe path then Some (- 1, None)
      else map_option (\<lambda>ws. (noret, Some ws))
        (subsection_loop ctx fe control_area (mmpte_size_of (hd_pm (cx_hdlr ctx)))
          (control_area + sz ctx CONTROL_AREA) []))"

text \<open>The count and the contents of the file at \<open>path\<close>; a second extraction truncates the first.\<close>

definition hfm_extract_file ::
  "context_t \<Rightarrow> file_env \<Rightarrow> int \<Rightarrow> u64 \<Rightarrow> string \<Rightarrow> (nat \<times> pages option) option" where
  "hfm_extract_file ctx fe noret object path =
     (let sop = hfm_read_addr ctx (object + off ctx FILE_OBJECT__SECTION_OBJECT_POINTER);
          datasection = hfm_read_addr ctx (sop + off ctx SECTION_OBJECT_POINTERS__DATA_SECTION_OBJECT);
          imagesection = hfm_read_addr ctx (sop + off ctx SECTION_OBJECT_POINTERS__IMAGE_SECTION_OBJECT)
      in Option.bind (if datasection \<noteq> 0 then extract_ca_file ctx fe noret datasection path
                      else Some (- 1, None)) (\<lambda>(r1, f1).
         Option.bind (if imagesection \<noteq> 0 \<and> imagesection \<noteq> datasection
                      then extract_ca_file ctx fe noret imagesection path
                      else Some (- 1, None)) (\<lambda>(r2, f2).
         Some ((if r1 = 0 then 1 else 0) + (if r2 = 0 then 1 else 0),
               (case f2 of None \<Rightarrow> f1 | Some _ \<Rightarrow> f2)))))"

section \<open>The chain of subsections\<close>

text \<open>The subsections the loop visits, when there is an end.\<close>

inductive chain :: "context_t \<Rightarrow> u64 \<Rightarrow> u64 \<Rightarrow> u64 list \<Rightarrow> bool" for ctx ca where
  End: "\<not> subsection_ok ctx ca s \<Longrightarrow> chain ctx ca s []"
| Next: "subsection_ok ctx ca s \<Longrightarrow> chain ctx ca (next_subsection ctx s) ss \<Longrightarrow> chain ctx ca s (s # ss)"

lemma subsection_loop_chain:
  "chain ctx ca s ss \<Longrightarrow>
   subsection_loop ctx fe ca m s ws = Some (fold (subsection_write ctx fe m) ss ws)"
  by (induction arbitrary: ws rule: chain.induct) (simp_all add: subsection_loop.simps)

lemma chain_of_loop: "subsection_loop ctx fe ca m s ws = Some r \<Longrightarrow> \<exists>ss. chain ctx ca s ss"
proof (induction rule: subsection_loop.raw_induct [rotated, consumes 1, case_names 1])
  case (1 loop ctx fe ca m s ws r)
  show ?case
  proof (cases "subsection_ok ctx ca s")
    case True
    with 1(2) have "loop ctx fe ca m (next_subsection ctx s) (subsection_write ctx fe m s ws) = Some r" by simp
    from 1(1) [OF this] obtain ss where "chain ctx ca (next_subsection ctx s) ss" by blast
    then show ?thesis using True chain.Next by blast
  next
    case False
    then show ?thesis using chain.End by blast
  qed
qed


section \<open>What is written\<close>

text \<open>The page entry \<open>i\<close> of a subsection stands for, if it is in memory.\<close>

definition pte_page :: "context_t \<Rightarrow> nat \<Rightarrow> u64 \<Rightarrow> nat \<Rightarrow> u8 list option" where
  "pte_page ctx m base i =
     (let pte = le_word (hfm_read ctx (base + of_nat m * of_nat i) m);
          page = g_pa (cx_guest ctx) (g_bit_mask (cx_guest ctx) 12 48 AND pte) 4096
      in if g_entry_present (cx_guest ctx) pte \<and> length page = 4096 then Some page else None)"

definition pte_readable :: "context_t \<Rightarrow> nat \<Rightarrow> u64 \<Rightarrow> nat \<Rightarrow> bool" where
  "pte_readable ctx m base i \<longleftrightarrow> length (hfm_read ctx (base + of_nat m * of_nat i) m) = m"

lemma pte_loop_pages:
  assumes "\<And>pos. fe_seek fe pos"
  shows "pte_loop ctx fe base so m n i ws = ws @
    List.map_filter (\<lambda>j. map_option (\<lambda>p. (so + of_nat j * 0x1000, p)) (pte_page ctx m base j))
      (takeWhile (pte_readable ctx m base) [i ..< i + n])"
proof (induction n arbitrary: i ws)
  case 0
  then show ?case by (simp add: List.map_filter_simps)
next
  case (Suc n)
  have up: "[i ..< i + Suc n] = i # [Suc i ..< Suc i + n]" by (simp add: upt_conv_Cons)
  show ?case
  proof (cases "pte_readable ctx m base i")
    case True
    then show ?thesis unfolding up
      by (simp add: Suc.IH assms pte_readable_def pte_page_def Let_def List.map_filter_simps del: upt_Suc)
  next
    case False
    then show ?thesis unfolding up by (simp add: pte_readable_def List.map_filter_simps del: upt_Suc)
  qed
qed

text \<open>The part of the file one subsection gives.\<close>

definition subsection_pages :: "context_t \<Rightarrow> nat \<Rightarrow> u64 \<Rightarrow> pages" where
  "subsection_pages ctx m s =
     (let base = hfm_read_addr ctx (s + off ctx SUBSECTION__SUBSECTION_BASE);
          start = ucast (hfm_read_32 ctx (s + off ctx SUBSECTION__STARTING_SECTOR)) :: u64
      in List.map_filter (\<lambda>j. map_option (\<lambda>p. (start * 0x200 + of_nat j * 0x1000, p)) (pte_page ctx m base j))
           (takeWhile (pte_readable ctx m base)
              [0 ..< unat (hfm_read_32 ctx (s + off ctx SUBSECTION__PTES_IN_SUBSECTION))]))"

lemma fold_subsection_write:
  assumes "\<And>pos. fe_seek fe pos"
  shows "fold (subsection_write ctx fe m) ss ws = ws @ concat (map (subsection_pages ctx m) ss)"
  by (induction ss arbitrary: ws)
    (simp_all add: subsection_write_def subsection_pages_def Let_def pte_loop_pages [OF assms])

text \<open>
  Property C24. The file extracted holds, subsection after subsection in the order of the chain, the
  pages that are present in memory, up to the first table entry that cannot be read, each at the
  position its entry has in the file.
\<close>

theorem extract_pages:
  assumes "ca_valid ctx ca" and "fe_open fe path" and "\<And>pos. fe_seek fe pos"
    and "chain ctx ca (ca + sz ctx CONTROL_AREA) ss"
  shows "extract_ca_file ctx fe noret ca path = Some (noret,
    Some (concat (map (subsection_pages ctx (mmpte_size_of (hd_pm (cx_hdlr ctx)))) ss)))"
  using assms(1,2) by (simp add: extract_ca_file_def subsection_loop_chain [OF assms(4)]
      fold_subsection_write [OF assms(3)])

section \<open>Two control areas\<close>

text \<open>
  The control area at \<open>0x9000\<close> has one subsection with one page; its pointer to the next subsection
  is \<open>next\<close>, which is null or leads back to the subsection.
\<close>

definition extract_ctx :: "u64 \<Rightarrow> context_t" where
  "extract_ctx nxt = demo_ctx\<lparr>
     cx_guest := demo_guest\<lparr>
       g_addr := map_of [(0x9000, 0xA000), (0xA008, 0x9000), (0x9050, 0x9000), (0x9058, 0xB008), (0x9060, nxt)],
       g_64 := map_of [(0xA010, 4096)],
       g_32 := map_of [(0xA018, 1), (0x9068, 1), (0x906C, 3)],
       g_bytes := (\<lambda>a n. if a = 0xB008 then [1, 0x50, 0, 0, 0, 0, 0, 0] else []),
       g_pa := (\<lambda>a n. if a = 0x5000 then replicate n 0xAA else [])\<rparr>,
     cx_hdlr := demo_hdlr\<lparr>
       hd_offsets := (\<lambda>_. 0)(SEGMENT__CONTROL_AREA := 8, SEGMENT__SIZE_OF_SEGMENT := 0x10,
         SEGMENT__TOTAL_NUMBER_OF_PTES := 0x18, SUBSECTION__SUBSECTION_BASE := 8,
         SUBSECTION__NEXT_SUBSECTION := 0x10, SUBSECTION__PTES_IN_SUBSECTION := 0x18,
         SUBSECTION__STARTING_SECTOR := 0x1C),
       hd_sizes := (\<lambda>_. 0)(CONTROL_AREA := 0x50)\<rparr>\<rparr>"

definition disk :: file_env where
  "disk = \<lparr>fe_open = (\<lambda>_. True), fe_seek = (\<lambda>_. True)\<rparr>"

lemmas extract_ctx_simps = extract_ctx_def demo_ctx_def demo_guest_def demo_hdlr_def off_def sz_def
  hfm_read_addr_def hfm_read_64_def hfm_read_32_def hfm_read_def

lemma extract_ctx_valid: "ca_valid (extract_ctx nxt) 0x9000"
  by (simp add: ca_valid_def extract_ctx_simps)

lemma extract_ctx_size: "sz (extract_ctx nxt) CONTROL_AREA = 0x50"
  by (simp add: extract_ctx_simps)

lemma extract_ctx_ok: "subsection_ok (extract_ctx nxt) 0x9000 s \<longleftrightarrow> s = 0x9050"
proof
  assume "s = 0x9050"
  then show "subsection_ok (extract_ctx nxt) 0x9000 s"
    by (simp add: subsection_ok_def extract_ctx_simps mask_eq_exp_minus_1)
next
  assume "subsection_ok (extract_ctx nxt) 0x9000 s"
  then have "hfm_read_addr (extract_ctx nxt) s = 0x9000" "hfm_read_32 (extract_ctx nxt) (s + 0x18) \<noteq> 0"
    by (simp_all add: subsection_ok_def off_def extract_ctx_def)
  then show "s = 0x9050" by (auto simp: extract_ctx_simps split: if_splits)
qed

lemma extract_ctx_next: "next_subsection (extract_ctx nxt) 0x9050 = nxt"
  by (simp add: next_subsection_def extract_ctx_simps)

lemma chain_cycle: "subsection_ok ctx ca s \<Longrightarrow> next_subsection ctx s = s \<Longrightarrow> \<not> chain ctx ca s ss"
proof
  assume "chain ctx ca s ss" "subsection_ok ctx ca s" "next_subsection ctx s = s"
  then show False by (induction rule: chain.induct) simp_all
qed


theorem extract_pages_witness:
  "extract_ca_file (extract_ctx 0) disk 0 0x9000 ''a.file'' =
     Some (0, Some [(3 * 0x200, replicate 4096 0xAA)])"
proof -
  have c: "chain (extract_ctx 0) 0x9000 (0x9000 + sz (extract_ctx 0) CONTROL_AREA) [0x9050]"
    by (auto simp: extract_ctx_size extract_ctx_ok extract_ctx_next intro!: chain.intros)
  have m: "mmpte_size_of (hd_pm (cx_hdlr (extract_ctx 0))) = 8"
    by (simp add: mmpte_size_of_def extract_ctx_simps)
  have r: "pte_readable (extract_ctx 0) 8 0xB008 0" by (simp add: pte_readable_def extract_ctx_simps)
  have p: "pte_page (extract_ctx 0) 8 0xB008 0 = Some (replicate 4096 0xAA)"
    by (simp add: pte_page_def extract_ctx_simps le_word_def Let_def mask_eq_exp_minus_1)
  have "subsection_pages (extract_ctx 0) 8 0x9050 = [(3 * 0x200, replicate 4096 0xAA)]"
    using r p by (simp add: subsection_pages_def extract_ctx_simps Let_def List.map_filter_simps)
  then show ?thesis
    using extract_pages [OF extract_ctx_valid _ _ c, of disk "''a.file''" 0] by (simp add: disk_def m)
qed

end
