(* ===== verification/Windows.thy ===== *)
theory Windows
  imports Guest_Handles
begin

text \<open>
  What the monitor learns about the guest's Windows when a machine is opened (\<open>src/win.c\<close>): the
  running processes, the types of objects, and the drives with their letters. The reads of libvmi
  are a record \<open>win_api\<close>: those with process 0 and 4, kernel symbols and strings. A read that fails
  leaves its variable as it was. Log messages are left out, and so is the memory that is not freed.
\<close>

datatype object_t = OBJECT_TYPE_UNKNOWN | OBJECT_TYPE_DIRECTORY | OBJECT_TYPE_SYMBOLIC_LINK

record win_api =
  wa_pid0 :: guest_t
  wa_pid4 :: guest_t
  wa_ksym_addr :: "string \<Rightarrow> u64 option"
  wa_ksym_8 :: "string \<Rightarrow> u8 option"
  wa_str :: "u64 \<Rightarrow> string option"
  wa_unicode :: "u64 \<Rightarrow> u8 list option"

definition rd :: "guest_t \<Rightarrow> u64 \<Rightarrow> u64 \<Rightarrow> u64" where
  "rd g old a = (case g_addr g a of None \<Rightarrow> old | Some v \<Rightarrow> v)"

section \<open>Processes\<close>

record process_t =
  p_name :: string
  p_pid :: u32
  p_addr :: u64

definition win_ob_header_cookie :: "win_api \<Rightarrow> u8" where
  "win_ob_header_cookie api = (case wa_ksym_8 api ''ObHeaderCookie'' of None \<Rightarrow> 0 | Some c \<Rightarrow> c)"

definition process_at :: "win_api \<Rightarrow> win_hdlr_t \<Rightarrow> u64 \<Rightarrow> process_t option" where
  "process_at api h current_process =
     (case g_32 (wa_pid0 api) (current_process + hd_offsets h EPROCESS__UNIQUE_PROCESS_ID) of
        None \<Rightarrow> None
      | Some pid \<Rightarrow> Some \<lparr>
          p_name = (case wa_str api (current_process + hd_offsets h EPROCESS__IMAGE_FILE_NAME) of
             None \<Rightarrow> [] | Some str \<Rightarrow> take BUFF str),
          p_pid = pid, p_addr = current_process\<rparr>)"

text \<open>The endless loop over the list of processes; \<open>None\<close> is a loop that does not end.\<close>

partial_function (option) process_loop ::
  "win_api \<Rightarrow> win_hdlr_t \<Rightarrow> u64 \<Rightarrow> u64 \<Rightarrow> process_t list \<Rightarrow> process_t list option" where
  "process_loop api h list_head entry ps =
     (let current_process = entry - hd_offsets h EPROCESS__ACTIVE_PROCESS_LINKS in
      case g_addr (wa_pid0 api) entry of
        None \<Rightarrow> Some ps
      | Some nxt \<Rightarrow>
          if nxt = list_head then Some ps
          else process_loop api h list_head nxt
                 (case process_at api h current_process of None \<Rightarrow> ps | Some p \<Rightarrow> ps @ [p]))"

declare process_loop.simps [code]

definition win_cur_processes :: "win_api \<Rightarrow> win_hdlr_t \<Rightarrow> process_t list option" where
  "win_cur_processes api h =
     (case wa_ksym_addr api ''PsActiveProcessHead'' of
        None \<Rightarrow> Some []
      | Some list_head \<Rightarrow> process_loop api h list_head list_head [])"

section \<open>Types of objects\<close>

definition win_get_object_type :: "win_api \<Rightarrow> win_hdlr_t \<Rightarrow> u64 \<Rightarrow> object_t" where
  "win_get_object_type api h object_header =
     (let g = wa_pid4 api; o_f = hd_offsets h; v = hd_winver h in
      if v = VMI_OS_WINDOWS_7 \<or> v = VMI_OS_WINDOWS_8 then
        (case g_8 g (object_header + o_f OBJECT_HEADER__TYPE_INDEX) of
           None \<Rightarrow> OBJECT_TYPE_UNKNOWN
         | Some type_index \<Rightarrow>
             if type_index = 3 then OBJECT_TYPE_DIRECTORY
             else if type_index = 4 then OBJECT_TYPE_SYMBOLIC_LINK else OBJECT_TYPE_UNKNOWN)
      else if v = VMI_OS_WINDOWS_10 then
        (case g_8 g (object_header + o_f OBJECT_HEADER__TYPE_INDEX) of
           None \<Rightarrow> OBJECT_TYPE_UNKNOWN
         | Some type_index \<Rightarrow>
             let index = (drop_bit 8 (object_header + 0x30) XOR ucast type_index XOR ucast (hd_cookie h)) AND 0xFF
             in if index = 3 then OBJECT_TYPE_DIRECTORY
                else if index = 4 then OBJECT_TYPE_SYMBOLIC_LINK else OBJECT_TYPE_UNKNOWN)
      else if v = VMI_OS_WINDOWS_VISTA \<or> v = VMI_OS_WINDOWS_XP then
        (case g_addr g (object_header + o_f OBJECT_HEADER__TYPE) of
           None \<Rightarrow> OBJECT_TYPE_UNKNOWN
         | Some type \<Rightarrow>
             (case g_8 g (type + o_f OBJECT_TYPE__INDEX) of
                None \<Rightarrow> OBJECT_TYPE_UNKNOWN
              | Some type_index \<Rightarrow>
                  if type_index = 2 then OBJECT_TYPE_DIRECTORY
                  else if type_index = 3 then OBJECT_TYPE_SYMBOLIC_LINK else OBJECT_TYPE_UNKNOWN))
      else OBJECT_TYPE_UNKNOWN)"

section \<open>The objects of a handle table\<close>

text \<open>
  The entries of one page with \<open>n\<close> entries that are not null, decoded. As in \<open>context.c\<close>, the offset
  of the pointer in an entry stays 0.
\<close>

definition page_objs :: "guest_t \<Rightarrow> win_hdlr_t \<Rightarrow> (u64 \<Rightarrow> u64) \<Rightarrow> nat \<Rightarrow> u64 \<Rightarrow> u64 list" where
  "page_objs g h decode n table =
     map decode (filter (\<lambda>obj. obj \<noteq> 0)
       (map (\<lambda>i. rd g 0 (table + of_nat i * hd_sizes h HANDLE_TABLE_ENTRY)) [0 ..< n]))"

text \<open>The loop over a table of pages; \<open>table\<close> keeps its value when a pointer cannot be read.\<close>

fun level1_objs ::
  "guest_t \<Rightarrow> win_hdlr_t \<Rightarrow> (u64 \<Rightarrow> u64) \<Rightarrow> u32 \<Rightarrow> nat \<Rightarrow> u64 \<Rightarrow> nat list \<Rightarrow> u64 \<Rightarrow> u64 list \<times> u64" where
  "level1_objs g h decode psize lowest base [] table = ([], table)"
| "level1_objs g h decode psize lowest base (i # is) table =
     (let table = rd g table (base + ucast (of_nat i * psize));
          (rest, table') = level1_objs g h decode psize lowest base is table
      in ((if table \<noteq> 0 then page_objs g h decode lowest table else []) @ rest, table'))"

fun level2_objs ::
  "guest_t \<Rightarrow> win_hdlr_t \<Rightarrow> (u64 \<Rightarrow> u64) \<Rightarrow> u32 \<Rightarrow> nat \<Rightarrow> nat \<Rightarrow> u64 \<Rightarrow> nat list \<Rightarrow> u64 \<Rightarrow> u64 \<Rightarrow> u64 list" where
  "level2_objs g h decode psize lowest mid base [] table table2 = []"
| "level2_objs g h decode psize lowest mid base (i # is) table table2 =
     (let table = rd g table (base + ucast (of_nat i * psize));
          (objs, table2) = (if table \<noteq> 0 then level1_objs g h decode psize lowest table [0 ..< mid] table2
                            else ([], table2))
      in objs @ level2_objs g h decode psize lowest mid base is table table2)"

definition psize32 :: "page_mode_t \<Rightarrow> u32" where
  "psize32 pm = (if pm = VMI_PM_IA32E then 8 else 4)"

definition table_objs :: "win_api \<Rightarrow> win_hdlr_t \<Rightarrow> win_ver_t \<Rightarrow> page_mode_t \<Rightarrow> u64 \<Rightarrow> u64 list result" where
  "table_objs api h winver pm tablecode =
     (let g = wa_pid4 api;
          table_base = tablecode AND NOT EX_FAST_REF_MASK;
          table_levels = tablecode AND EX_FAST_REF_MASK;
          decode = adjust_obj_addr g winver pm;
          psize = psize32 pm;
          pages = unat (VMI_PS_4KB div ucast psize);
          lowest = udiv VMI_PS_4KB (hd_sizes h HANDLE_TABLE_ENTRY) in
      if table_levels = 0 then
        rbind lowest (\<lambda>n. Inr (page_objs g h decode (unat (ucast n :: u32)) table_base))
      else if table_levels = 1 then
        rbind lowest (\<lambda>n. Inr (fst (level1_objs g h decode psize (unat (ucast n :: u32)) table_base [0 ..< pages] 0)))
      else if table_levels = 2 then
        rbind lowest (\<lambda>n. Inr (level2_objs g h decode psize (unat (ucast n :: u32)) pages table_base [0 ..< pages] 0 0))
      else Inr [])"

section \<open>Drives\<close>

definition read_unicode4 :: "win_api \<Rightarrow> u64 \<Rightarrow> string option" where
  "read_unicode4 api a = Option.bind (wa_unicode api a) (\<lambda>us. map_option c_str (g_utf8 (wa_pid4 api) us))"

text \<open>The first directory of the list whose name starts with \<open>GLOBAL??\<close>.\<close>

fun find_global_dir :: "win_api \<Rightarrow> win_hdlr_t \<Rightarrow> u64 list \<Rightarrow> u64" where
  "find_global_dir api h [] = 0"
| "find_global_dir api h (obj # objs) =
     (let global_dir =
        (if win_get_object_type api h obj = OBJECT_TYPE_DIRECTORY then
           (case read_unicode4 api (obj - hd_sizes h OBJECT_HEADER_NAME_INFO + hd_offsets h OBJECT_HEADER_NAME_INFO__NAME) of
              None \<Rightarrow> 0
            | Some name \<Rightarrow> if take 8 name = ''GLOBAL??'' then obj + hd_offsets h OBJECT_HEADER__BODY else 0)
         else 0)
      in if global_dir \<noteq> 0 then global_dir else find_global_dir api h objs)"

definition device_prefix :: string where
  "device_prefix = [CHR 0x5C] @ ''Device'' @ [CHR 0x5C]"

text \<open>
  The drive of a directory entry, if its object is a symbolic link with a drive index; the name of
  its target is copied into 1024 bytes.
\<close>

definition link_drive :: "win_api \<Rightarrow> win_hdlr_t \<Rightarrow> u64 \<Rightarrow> drive_t option result" where
  "link_drive api h obj =
     (let obj_header = obj - hd_offsets h OBJECT_HEADER__BODY in
      if win_get_object_type api h obj_header \<noteq> OBJECT_TYPE_SYMBOLIC_LINK then Inr None
      else let drive_index = (case g_32 (wa_pid4 api) (obj + hd_offsets h OBJECT_SYMBOLIC_LINK__DOS_DEVICE_DRIVE_INDEX) of
             None \<Rightarrow> 0 | Some i \<Rightarrow> i) in
      if drive_index = 0 then Inr None
      else rbind (case read_unicode4 api (obj + hd_offsets h OBJECT_SYMBOLIC_LINK__LINK_TARGET) of
             None \<Rightarrow> Inr []
           | Some target \<Rightarrow>
               let name = (if take 8 target = device_prefix then drop 8 target else target) in
               if length name < BUFF then Inr name else Inl OutOfBounds) (\<lambda>win.
        Inr (Some \<lparr>dos_name = c_str [char_of (unat (64 + drive_index)), CHR '':''],
               win_name = win, drv_index = drive_index\<rparr>)))"

definition entry_drive :: "win_api \<Rightarrow> win_hdlr_t \<Rightarrow> u64 \<Rightarrow> drive_t option result" where
  "entry_drive api h dir_entry =
     (let obj = rd (wa_pid4 api) 0 (dir_entry + hd_offsets h OBJECT_DIRECTORY_ENTRY__OBJECT) in
      if obj = 0 then Inr None else link_drive api h obj)"

text \<open>The chain of a bucket; an unreadable link keeps the loop at its entry.\<close>

definition next_entry :: "win_api \<Rightarrow> win_hdlr_t \<Rightarrow> u64 \<Rightarrow> u64" where
  "next_entry api h dir_entry =
     rd (wa_pid4 api) dir_entry (dir_entry + hd_offsets h OBJECT_DIRECTORY_ENTRY__CHAIN_LINK)"

partial_function (option) bucket_loop ::
  "win_api \<Rightarrow> win_hdlr_t \<Rightarrow> u64 \<Rightarrow> drive_t list \<Rightarrow> drive_t list result option" where
  "bucket_loop api h dir_entry ds =
     (if dir_entry = 0 then Some (Inr ds)
      else case entry_drive api h dir_entry of
        Inl e \<Rightarrow> Some (Inl e)
      | Inr d \<Rightarrow> bucket_loop api h (next_entry api h dir_entry)
                   (case d of None \<Rightarrow> ds | Some d \<Rightarrow> ds @ [d]))"

declare bucket_loop.simps [code]

fun buckets_loop ::
  "win_api \<Rightarrow> win_hdlr_t \<Rightarrow> u32 \<Rightarrow> u64 \<Rightarrow> nat list \<Rightarrow> drive_t list \<Rightarrow> drive_t list result option" where
  "buckets_loop api h psize bucket_addr [] ds = Some (Inr ds)"
| "buckets_loop api h psize bucket_addr (i # is) ds =
     (case bucket_loop api h (rd (wa_pid4 api) 0 (bucket_addr + ucast (psize * of_nat i))) ds of
        None \<Rightarrow> None
      | Some (Inl e) \<Rightarrow> Some (Inl e)
      | Some (Inr ds) \<Rightarrow> buckets_loop api h psize bucket_addr is ds)"

definition directory_drives :: "win_api \<Rightarrow> win_hdlr_t \<Rightarrow> page_mode_t \<Rightarrow> u64 \<Rightarrow> drive_t list result option" where
  "directory_drives api h pm global_dir =
     (if global_dir = 0 then Some (Inr [])
      else let bucket_addr = global_dir + hd_offsets h OBJECT_DIRECTORY__HASH_BUCKETS;
               bucket_size = ucast (hd_offsets h OBJECT_DIRECTORY__LOCK div ucast (psize32 pm)) :: u32
           in buckets_loop api h (psize32 pm) bucket_addr [0 ..< unat bucket_size] [])"

definition drives_process :: "win_ver_t \<Rightarrow> string" where
  "drives_process v =
     (if v = VMI_OS_WINDOWS_VISTA \<or> v = VMI_OS_WINDOWS_XP then ''smss.exe'' else ''System'')"

definition win_list_drives ::
  "win_api \<Rightarrow> win_ver_t \<Rightarrow> page_mode_t \<Rightarrow> win_hdlr_t \<Rightarrow> drive_t list result option" where
  "win_list_drives api winver pm h =
     (if hd_winver h = VMI_OS_WINDOWS_UNKNOWN then Some (Inr [])
      else case win_cur_processes api h of
        None \<Rightarrow> None
      | Some processes \<Rightarrow>
          let process_addr = (case List.find (\<lambda>p. take BUFF (p_name p) = drives_process (hd_winver h)) processes of
                None \<Rightarrow> 0 | Some p \<Rightarrow> p_addr p);
              handle_table = rd (wa_pid4 api) 0 (process_addr + hd_offsets h EPROCESS__OBJECT_TABLE)
          in case g_addr (wa_pid4 api) (handle_table + hd_offsets h HANDLE_TABLE__TABLE_CODE) of
            None \<Rightarrow> Some (Inr [])
          | Some tablecode \<Rightarrow>
              (case table_objs api h winver pm tablecode of
                 Inl e \<Rightarrow> Some (Inl e)
               | Inr objs \<Rightarrow> directory_drives api h pm (find_global_dir api h objs)))"

end
