(* ===== verification/Windows_Props.thy ===== *)
theory Windows_Props
  imports Windows
begin

text \<open>
  The list of processes, the objects of a handle table (compared with the walk that
  \<open>Guest_Handles\<close> defines for single handles) and the drives.
\<close>

section \<open>The list of processes\<close>

text \<open>
  The entries the loop visits and keeps: it ends at an entry whose link cannot be read or leads
  back to the first one, and that entry is not kept.
\<close>

inductive links :: "win_api \<Rightarrow> u64 \<Rightarrow> u64 \<Rightarrow> u64 list \<Rightarrow> bool" for api list_head where
  Broken: "g_addr (wa_pid0 api) e = None \<Longrightarrow> links api list_head e []"
| Closed: "g_addr (wa_pid0 api) e = Some list_head \<Longrightarrow> links api list_head e []"
| Link: "g_addr (wa_pid0 api) e = Some nxt \<Longrightarrow> nxt \<noteq> list_head \<Longrightarrow> links api list_head nxt es \<Longrightarrow>
    links api list_head e (e # es)"

definition process_of_entry :: "win_api \<Rightarrow> win_hdlr_t \<Rightarrow> u64 \<Rightarrow> process_t option" where
  "process_of_entry api h e = process_at api h (e - hd_offsets h EPROCESS__ACTIVE_PROCESS_LINKS)"

lemma process_loop_links:
  "links api list_head e es \<Longrightarrow>
   process_loop api h list_head e ps = Some (ps @ List.map_filter (process_of_entry api h) es)"
proof (induction arbitrary: ps rule: links.induct)
  case (Link e nxt es)
  then show ?case
    by (simp add: process_loop.simps [of _ _ _ e] Let_def List.map_filter_simps process_of_entry_def
        split: option.split)
qed (simp_all add: process_loop.simps Let_def List.map_filter_simps)

lemma links_of_process_loop:
  "process_loop api h list_head e ps = Some r \<Longrightarrow> \<exists>es. links api list_head e es"
proof (induction rule: process_loop.raw_induct [rotated, consumes 1, case_names 1])
  case (1 loop api h list_head e ps r)
  show ?case
  proof (cases "g_addr (wa_pid0 api) e")
    case None
    then show ?thesis using links.Broken by blast
  next
    case (Some nxt)
    show ?thesis
    proof (cases "nxt = list_head")
      case True
      then show ?thesis using links.Closed Some by blast
    next
      case False
      with 1(2) Some obtain ps' where "loop api h list_head nxt ps' = Some r" by (auto simp: Let_def)
      from 1(1) [OF this] obtain es where "links api list_head nxt es" by blast
      then show ?thesis using links.Link Some False by blast
    qed
  qed
qed

text \<open>
  Property C27. The listing of processes returns exactly when the kernel's list leads back to its
  first entry or to memory that cannot be read, and then it holds the processes with a readable
  identifier at the entries before that, in their order.
\<close>

theorem cur_processes_iff:
  assumes "wa_ksym_addr api ''PsActiveProcessHead'' = Some list_head"
  shows "win_cur_processes api h = Some ps \<longleftrightarrow>
    (\<exists>es. links api list_head list_head es \<and> ps = List.map_filter (process_of_entry api h) es)"
proof
  assume l: "win_cur_processes api h = Some ps"
  then have l: "process_loop api h list_head list_head [] = Some ps"
    using assms by (simp add: win_cur_processes_def)
  obtain es where es: "links api list_head list_head es" using links_of_process_loop [OF l] by blast
  then show "\<exists>es. links api list_head list_head es \<and> ps = List.map_filter (process_of_entry api h) es"
    using process_loop_links [OF es, of h "[]"] l by auto
next
  assume "\<exists>es. links api list_head list_head es \<and> ps = List.map_filter (process_of_entry api h) es"
  then show "win_cur_processes api h = Some ps"
    using process_loop_links [of api list_head list_head _ h "[]"] assms by (auto simp: win_cur_processes_def)
qed

section \<open>All objects of a handle table\<close>

lemma slot_address:
  assumes "i < 1024"
  shows "(ucast (of_nat i * psize32 pm) :: u64) = of_nat i * psize_of pm"
proof (rule word_of_unat [THEN trans])
  have "unat (of_nat i :: u32) = i" using assms by (simp add: unat_of_nat)
  then show "unat (ucast (of_nat i * psize32 pm) :: u64) = i * unat (psize_of pm)"
    using assms by (simp add: psize32_def psize_of_def unat_word_ariths)
  show "of_nat (i * unat (psize_of pm)) = (of_nat i * psize_of pm :: u64)" by simp
qed

definition readable_table :: "guest_t \<Rightarrow> page_mode_t \<Rightarrow> nat \<Rightarrow> u64 \<Rightarrow> bool" where
  "readable_table g pm n table \<longleftrightarrow> (\<forall>i < n. g_addr g (table + of_nat i * psize_of pm) \<noteq> None)"

definition ctx_of :: "guest_t \<Rightarrow> win_hdlr_t \<Rightarrow> context_t" where
  "ctx_of g h = \<lparr>cx_regs = \<lparr>rg_rax = 0, rg_rcx = 0, rg_rdx = 0, rg_rsp = 0, rg_r8 = 0, rg_r9 = 0,
     rg_fs_base = 0, rg_gs_base = 0\<rparr>, cx_guest = g, cx_hdlr = h, cx_process_base = 0\<rparr>"

lemma rd_0: "rd g 0 a = hfm_read_addr (ctx_of g h) a"
  by (simp add: rd_def hfm_read_addr_def ctx_of_def)

lemma rd_readable: "g_addr g a \<noteq> None \<Longrightarrow> rd g old a = hfm_read_addr (ctx_of g h) a"
  by (auto simp: rd_def hfm_read_addr_def ctx_of_def)

lemma ctx_of_sel [simp]: "cx_hdlr (ctx_of g h) = h" "sz (ctx_of g h) i = hd_sizes h i"
  by (simp_all add: ctx_of_def sz_def)

definition live_objs :: "(u64 \<Rightarrow> u64) \<Rightarrow> u64 list \<Rightarrow> u64 list" where
  "live_objs decode objs = map decode (filter (\<lambda>obj. obj \<noteq> 0) objs)"

lemma live_objs_append: "live_objs d (xs @ ys) = live_objs d xs @ live_objs d ys"
  by (simp add: live_objs_def)

lemma live_objs_zeros: "live_objs d (map (\<lambda>_. 0) xs) = []"
  by (simp add: live_objs_def)

lemma page_objs_walk: "page_objs g h d n table = live_objs d (map (walk (ctx_of g h) low mid 0 table) [0 ..< n])"
proof -
  have "walk (ctx_of g h) low mid 0 table =
      (\<lambda>i. rd g 0 (table + of_nat i * hd_sizes h HANDLE_TABLE_ENTRY))"
    by (rule ext) (simp add: rd_0 [of _ _ h])
  then show ?thesis by (simp add: page_objs_def live_objs_def)
qed

text \<open>Indices of \<open>m\<close> blocks of \<open>n\<close> elements each.\<close>

lemma map_blocks: "map f [0 ..< m * n] = concat (map (\<lambda>i. map (\<lambda>j. f (i * n + j)) [0 ..< n]) [0 ..< m])"
proof (induction m)
  case (Suc m)
  have "map (\<lambda>j. m * n + j) [0 ..< n] = [m * n ..< m * n + n]"
    using map_add_upt [of "m * n" n] by (simp add: add.commute)
  then have "[0 ..< Suc m * n] = [0 ..< m * n] @ map (\<lambda>j. m * n + j) [0 ..< n]"
    using upt_add_eq_append [of 0 "m * n" n] by (simp add: add.commute)
  then show ?case using Suc by (simp add: comp_def)
qed simp

lemma walk_block:
  assumes "j < low * mid ^ l"
  shows "walk ctx low mid (Suc l) table (i * (low * mid ^ l) + j) =
    (let below = hfm_read_addr ctx (table + of_nat i * psize_of (hd_pm (cx_hdlr ctx)))
     in if below = 0 then 0 else walk ctx low mid l below j)"
proof -
  have n: "low * mid ^ l \<noteq> 0" using assms by (metis not_less0)
  have "(i * (low * mid ^ l) + j) div (low * mid ^ l) = i"
    by (simp only: div_mult_self3 [OF n] div_less [OF assms] add_0_right)
  moreover have "(i * (low * mid ^ l) + j) mod (low * mid ^ l) = j" using assms by simp
  ultimately show ?thesis by (simp add: Let_def del: walk.simps(1))
qed

text \<open>What a table with \<open>Suc l\<close> levels lists is what the tables it points to list, in their order.\<close>

lemma walk_blocks:
  "live_objs d (map (walk ctx low mid (Suc l) table) [0 ..< m * (low * mid ^ l)]) =
   concat (map (\<lambda>i. let below = hfm_read_addr ctx (table + of_nat i * psize_of (hd_pm (cx_hdlr ctx)))
     in if below = 0 then [] else live_objs d (map (walk ctx low mid l below) [0 ..< low * mid ^ l])) [0 ..< m])"
proof (induction m)
  case (Suc m)
  let ?n = "low * mid ^ l"
  let ?below = "hfm_read_addr ctx (table + of_nat m * psize_of (hd_pm (cx_hdlr ctx)))"
  have eq: "map (\<lambda>j. walk ctx low mid (Suc l) table (m * ?n + j)) [0 ..< ?n] =
      map (\<lambda>j. if ?below = 0 then 0 else walk ctx low mid l ?below j) [0 ..< ?n]"
    by (rule map_cong [OF refl]) (simp add: walk_block Let_def del: walk.simps)
  have "live_objs d (map (\<lambda>j. walk ctx low mid (Suc l) table (m * ?n + j)) [0 ..< ?n]) =
      (if ?below = 0 then [] else live_objs d (map (walk ctx low mid l ?below) [0 ..< ?n]))"
    unfolding eq by (cases "?below = 0") (simp_all add: live_objs_zeros del: walk.simps)
  moreover have "map (walk ctx low mid (Suc l) table) [0 ..< Suc m * ?n] =
      map (walk ctx low mid (Suc l) table) [0 ..< m * ?n] @
      map (\<lambda>j. walk ctx low mid (Suc l) table (m * ?n + j)) [0 ..< ?n]"
    by (simp only: map_blocks) (simp del: walk.simps)
  ultimately show ?case
    using Suc by (simp add: live_objs_append Let_def del: walk.simps)
qed (simp add: live_objs_def)

lemma level1_objs_walk:
  assumes "hd_pm h = pm" and "\<forall>i \<in> set is. i < 1024 \<and> g_addr g (base + of_nat i * psize_of pm) \<noteq> None"
  shows "fst (level1_objs g h d (psize32 pm) low base is t) =
    concat (map (\<lambda>i. let below = hfm_read_addr (ctx_of g h) (base + of_nat i * psize_of (hd_pm h))
      in if below = 0 then [] else live_objs d (map (walk (ctx_of g h) low mid 0 below) [0 ..< low])) is)"
  using assms(2)
proof (induction "is" arbitrary: t)
  case (Cons i "is")
  let ?below = "hfm_read_addr (ctx_of g h) (base + of_nat i * psize_of pm)"
  have "rd g t (base + ucast (of_nat i * psize32 pm)) = ?below"
    using Cons.prems by (simp add: slot_address rd_readable)
  then show ?case using Cons.IH [of ?below] Cons.prems
    by (simp add: Let_def case_prod_unfold page_objs_walk [of g h d low _ low mid] assms(1) del: walk.simps)
qed simp

lemma level1_page:
  assumes "hd_pm h = pm" and "mid \<le> 1024" and "readable_table g pm mid base"
  shows "fst (level1_objs g h d (psize32 pm) low base [0 ..< mid] t) =
    live_objs d (map (walk (ctx_of g h) low mid 1 base) [0 ..< mid * low])"
proof -
  have "\<forall>i \<in> set [0 ..< mid]. i < 1024 \<and> g_addr g (base + of_nat i * psize_of pm) \<noteq> None"
    using assms(2,3) by (auto simp: readable_table_def)
  from level1_objs_walk [OF assms(1) this, of d low t mid]
  show ?thesis using walk_blocks [of d "ctx_of g h" low mid 0 base mid, unfolded power_0 mult_1_right]
    by (simp add: Let_def del: walk.simps)
qed

lemma level2_objs_walk:
  assumes "hd_pm h = pm" and "mid \<le> 1024"
    and "\<forall>i \<in> set is. i < 1024 \<and> g_addr g (base + of_nat i * psize_of pm) \<noteq> None \<and>
      (let t = hfm_read_addr (ctx_of g h) (base + of_nat i * psize_of pm) in t \<noteq> 0 \<longrightarrow> readable_table g pm mid t)"
  shows "level2_objs g h d (psize32 pm) low mid base is t t2 =
    concat (map (\<lambda>i. let below = hfm_read_addr (ctx_of g h) (base + of_nat i * psize_of (hd_pm h))
      in if below = 0 then [] else live_objs d (map (walk (ctx_of g h) low mid 1 below) [0 ..< mid * low])) is)"
  using assms(3)
proof (induction "is" arbitrary: t t2)
  case (Cons i "is")
  let ?below = "hfm_read_addr (ctx_of g h) (base + of_nat i * psize_of pm)"
  have r: "rd g t (base + ucast (of_nat i * psize32 pm)) = ?below"
    using Cons.prems by (simp add: slot_address rd_readable)
  have IH: "level2_objs g h d (psize32 pm) low mid base is t' t2' =
    concat (map (\<lambda>i. let below = hfm_read_addr (ctx_of g h) (base + of_nat i * psize_of (hd_pm h))
      in if below = 0 then [] else live_objs d (map (walk (ctx_of g h) low mid 1 below) [0 ..< mid * low])) is)" for t' t2'
    by (rule Cons.IH) (use Cons.prems in simp)
  show ?case
  proof (cases "?below = 0")
    case True
    then show ?thesis by (simp add: r IH Let_def assms(1) del: walk.simps)
  next
    case False
    then have "readable_table g pm mid ?below" using Cons.prems by (simp add: Let_def)
    from level1_page [OF assms(1,2) this, of d low t2] False
    show ?thesis by (simp add: r IH Let_def case_prod_unfold assms(1) del: walk.simps)
  qed
qed simp

text \<open>
  Property C16. Listing a handle table visits what looking up its handles one by one visits: the
  result is, decoded and in the order of the handles, every entry the walk finds that is not null.
  (The pages of pointers have to be readable, and the size of the entries plausible.)
\<close>

theorem table_objs_walk:
  fixes api :: win_api and h :: win_hdlr_t and tablecode :: u64
  defines "g \<equiv> wa_pid4 api" and "base \<equiv> tablecode AND NOT 7" and "levels \<equiv> unat (tablecode AND 7)"
    and "low \<equiv> 4096 div unat (hd_sizes h HANDLE_TABLE_ENTRY)" and "mid \<equiv> 4096 div unat (psize_of (hd_pm h))"
  assumes "hd_sizes h HANDLE_TABLE_ENTRY \<noteq> 0" and "hd_sizes h HANDLE_TABLE_ENTRY \<le> 4096" and "levels \<le> 2"
    and "levels \<ge> 1 \<longrightarrow> readable_table g (hd_pm h) mid base"
    and "levels = 2 \<longrightarrow> (\<forall>i < mid. let t = hfm_read_addr (ctx_of g h) (base + of_nat i * psize_of (hd_pm h)) in
           t \<noteq> 0 \<longrightarrow> readable_table g (hd_pm h) mid t)"
  shows "table_objs api h winver (hd_pm h) tablecode = Inr (live_objs (adjust_obj_addr g winver (hd_pm h))
    (map (walk (ctx_of g h) low mid levels base) [0 ..< low * mid ^ levels]))"
proof -
  note l = lowest_count [OF assms(6,7), folded low_def]
  have mid: "mid \<le> 1024" "unat (VMI_PS_4KB div ucast (psize32 (hd_pm h))) = mid"
    by (simp_all add: mid_def psize_of_def psize32_def VMI_PS_4KB_def unat_div)
  have tc: "tablecode AND NOT EX_FAST_REF_MASK = base" by (simp add: base_def EX_FAST_REF_MASK_def)
  have m: "low * mid = mid * low" "low * (mid * mid) = mid * (low * mid)" by simp_all
  from assms(8) consider "levels = 0" | "levels = 1" | "levels = 2" by linarith
  then show ?thesis
  proof cases
    case 1
    then have "tablecode AND EX_FAST_REF_MASK = 0" by (simp add: levels_def EX_FAST_REF_MASK_def unat_eq_0)
    then show ?thesis using 1
      by (simp add: table_objs_def Let_def l tc page_objs_walk [of g h _ low base low mid] flip: g_def del: walk.simps)
  next
    case 2
    then have "tablecode AND EX_FAST_REF_MASK = 1" by (auto simp: levels_def EX_FAST_REF_MASK_def dest: word_of_unat)
    then show ?thesis using 2 level1_page [OF refl mid(1), of g h base _ low 0] assms(9)
      by (simp add: table_objs_def Let_def l tc mid(2) m flip: g_def del: walk.simps)
  next
    case 3
    then have t: "tablecode AND EX_FAST_REF_MASK = 2" by (auto simp: levels_def EX_FAST_REF_MASK_def dest: word_of_unat)
    have "\<forall>i \<in> set [0 ..< mid]. i < 1024 \<and> g_addr g (base + of_nat i * psize_of (hd_pm h)) \<noteq> None \<and>
      (let t = hfm_read_addr (ctx_of g h) (base + of_nat i * psize_of (hd_pm h)) in t \<noteq> 0 \<longrightarrow> readable_table g (hd_pm h) mid t)"
      using 3 assms(9,10) mid(1) by (auto simp: readable_table_def)
    note e = level2_objs_walk [OF refl mid(1) this, of _ low 0 0]
    show ?thesis using 3 t walk_blocks [of "adjust_obj_addr g winver (hd_pm h)" "ctx_of g h" low mid 1 base mid,
        unfolded power_one_right m(1)]
      by (simp add: table_objs_def Let_def l tc mid(2) e m numeral_2_eq_2 flip: g_def del: walk.simps)
  qed
qed

section \<open>The drives\<close>

definition drive_wf :: "drive_t \<Rightarrow> bool" where
  "drive_wf d \<longleftrightarrow> length (win_name d) < BUFF \<and> drv_index d \<noteq> 0 \<and>
     dos_name d = c_str [char_of (unat (64 + drv_index d)), CHR '':'']"

lemma link_drive_wf: "link_drive api h obj = Inr (Some d) \<Longrightarrow> drive_wf d"
  by (auto simp: link_drive_def Let_def drive_wf_def rbind_eq_Inr BUFF_def split: if_splits option.splits)

lemma entry_drive_wf: "entry_drive api h e = Inr (Some d) \<Longrightarrow> drive_wf d"
  by (auto simp: entry_drive_def Let_def link_drive_wf split: if_splits)

lemma bucket_loop_wf:
  "bucket_loop api h e ds = Some (Inr ds') \<Longrightarrow> \<forall>d \<in> set ds. drive_wf d \<Longrightarrow> \<forall>d \<in> set ds'. drive_wf d"
proof (induction "Inr ds' :: drive_t list result" rule: bucket_loop.raw_induct [rotated, consumes 1, case_names 1])
  case (1 loop api h e ds)
  show ?case
  proof (cases "e = 0")
    case True
    then show ?thesis using 1 by simp
  next
    case False
    with 1(2) obtain d where d: "entry_drive api h e = Inr d"
      "loop api h (next_entry api h e) (case d of None \<Rightarrow> ds | Some d \<Rightarrow> ds @ [d]) = Some (Inr ds')"
      by (auto split: sum.splits)
    have "\<forall>x \<in> set (case d of None \<Rightarrow> ds | Some d \<Rightarrow> ds @ [d]). drive_wf x"
      using 1(3) d(1) entry_drive_wf by (auto split: option.split)
    then show ?thesis using 1(1) [OF d(2)] by blast
  qed
qed

lemma buckets_loop_wf:
  "buckets_loop api h psize a is ds = Some (Inr ds') \<Longrightarrow> \<forall>d \<in> set ds. drive_wf d \<Longrightarrow> \<forall>d \<in> set ds'. drive_wf d"
proof (induction "is" arbitrary: ds)
  case (Cons i "is")
  then obtain ds1 where "bucket_loop api h (rd (wa_pid4 api) 0 (a + ucast (psize * of_nat i))) ds = Some (Inr ds1)"
    "buckets_loop api h psize a is ds1 = Some (Inr ds')"
    by (auto split: option.splits sum.splits)
  then show ?case using Cons.IH bucket_loop_wf Cons.prems(2) by blast
qed simp


section \<open>A guest with one drive\<close>

text \<open>
  The handle table at \<open>0x100\<close> has one entry, the directory \<open>GLOBAL??\<close>; its only bucket has a link
  for drive 3.
\<close>

definition list_guest :: guest_t where
  "list_guest = \<lparr>g_addr = (\<lambda>a. Some (if a = 0x10 then 0x20 else if a = 0x28 then 0x100 else
       if a = 0x100 then 0x200 else if a = 0x230 then 0x300 else if a = 0x308 then 0x430 else
       if a = 0x1000 then 0x2000 else if a = 0x2000 then 0x1000 else 0)),
     g_64 = Map.empty, g_32 = (\<lambda>a. if a = 0x450 then Some 3 else if a = 0x1000 then Some 4 else None),
     g_16 = Map.empty, g_8 = map_of [(0x218, 3), (0x418, 4)],
     g_bytes = (\<lambda>_ _. []), g_pa = (\<lambda>_ _. []),
     g_utf8 = (\<lambda>us. Some (if us = [] then ''GLOBAL??'' else device_prefix @ ''HarddiskVolume2'')),
     g_bit_mask = (\<lambda>a b. mask (b + 1) AND NOT (mask a)), g_entry_present = (\<lambda>_. False)\<rparr>"

definition list_api :: win_api where
  "list_api = \<lparr>wa_pid0 = list_guest, wa_pid4 = list_guest, wa_ksym_addr = (\<lambda>_. Some 0x1000),
     wa_ksym_8 = Map.empty, wa_str = Map.empty,
     wa_unicode = map_of [(0x1E8, []), (0x458, [1])]\<rparr>"

definition list_hdlr :: win_hdlr_t where
  "list_hdlr = \<lparr>hd_pm = VMI_PM_IA32E, hd_winver = VMI_OS_WINDOWS_7, hd_drives = [], hd_cookie = 0,
     hd_offsets = (\<lambda>_. 0)(EPROCESS__OBJECT_TABLE := 0x10, HANDLE_TABLE__TABLE_CODE := 8,
       OBJECT_HEADER__TYPE_INDEX := 0x18, OBJECT_HEADER_NAME_INFO__NAME := 8, OBJECT_HEADER__BODY := 0x30,
       OBJECT_DIRECTORY__LOCK := 8, OBJECT_DIRECTORY_ENTRY__OBJECT := 8,
       OBJECT_SYMBOLIC_LINK__DOS_DEVICE_DRIVE_INDEX := 0x20, OBJECT_SYMBOLIC_LINK__LINK_TARGET := 0x28,
       OBJECT_DIRECTORY_ENTRY__CHAIN_LINK := 0x10),
     hd_sizes = (\<lambda>_. 0)(HANDLE_TABLE_ENTRY := 4096, OBJECT_HEADER_NAME_INFO := 0x20)\<rparr>"

theorem cur_processes_iff_witness:
  "win_cur_processes list_api list_hdlr = Some [\<lparr>p_name = [], p_pid = 4, p_addr = 0x1000\<rparr>]"
proof -
  have "links list_api 0x1000 0x2000 []"
    by (rule links.Closed) (simp add: list_api_def list_guest_def)
  then have l: "links list_api 0x1000 0x1000 [0x1000]"
    by (rule links.Link [rotated 2]) (simp_all add: list_api_def list_guest_def)
  have k: "wa_ksym_addr list_api ''PsActiveProcessHead'' = Some 0x1000" by (simp add: list_api_def)
  show ?thesis
    by (rule cur_processes_iff [OF k, THEN iffD2], rule exI [of _ "[0x1000]"], rule conjI [OF l])
      (simp add: List.map_filter_simps process_of_entry_def process_at_def list_api_def list_guest_def list_hdlr_def)
qed

theorem table_objs_walk_witness:
  "table_objs list_api list_hdlr VMI_OS_WINDOWS_7 VMI_PM_IA32E 1 =
     Inr (live_objs (adjust_obj_addr list_guest VMI_OS_WINDOWS_7 VMI_PM_IA32E)
       (map (walk (ctx_of list_guest list_hdlr) 1 512 1 0) [0 ..< 512]))"
proof -
  have p: "hd_pm list_hdlr = VMI_PM_IA32E" "wa_pid4 list_api = list_guest" "hd_sizes list_hdlr HANDLE_TABLE_ENTRY = 4096"
    by (simp_all add: list_hdlr_def list_api_def)
  have r: "readable_table list_guest pm n t" for pm n t
    by (simp add: readable_table_def list_guest_def)
  show ?thesis
    using table_objs_walk [of list_hdlr 1 list_api VMI_OS_WINDOWS_7] by (simp add: p r psize_of_def del: walk.simps)
qed

lemma list_addr: "rd list_guest v a = (if a = 0x10 then 0x20 else if a = 0x28 then 0x100 else
       if a = 0x100 then 0x200 else if a = 0x230 then 0x300 else if a = 0x308 then 0x430 else
       if a = 0x1000 then 0x2000 else if a = 0x2000 then 0x1000 else 0)"
  by (simp add: rd_def list_guest_def)

lemma list_pids [simp]: "wa_pid4 list_api = list_guest" "wa_pid0 list_api = list_guest"
  by (simp_all add: list_api_def)

lemma list_link: "entry_drive list_api list_hdlr 0x300 =
   Inr (Some \<lparr>dos_name = ''C:'', win_name = ''HarddiskVolume2'', drv_index = 3\<rparr>)"
proof -
  have t: "win_get_object_type list_api list_hdlr 0x400 = OBJECT_TYPE_SYMBOLIC_LINK"
    by (simp add: win_get_object_type_def list_hdlr_def list_guest_def)
  have u: "read_unicode4 list_api 0x458 = Some (device_prefix @ ''HarddiskVolume2'')"
    by (simp add: read_unicode4_def list_api_def list_guest_def device_prefix_def c_str_def NUL_def)
  have l: "length device_prefix = 8" by (simp add: device_prefix_def)
  have b: "hd_offsets list_hdlr OBJECT_HEADER__BODY = 0x30" "hd_offsets list_hdlr OBJECT_DIRECTORY_ENTRY__OBJECT = 8"
    "hd_offsets list_hdlr OBJECT_SYMBOLIC_LINK__DOS_DEVICE_DRIVE_INDEX = 0x20"
    "hd_offsets list_hdlr OBJECT_SYMBOLIC_LINK__LINK_TARGET = 0x28" by (simp_all add: list_hdlr_def)
  have c: "(char_of (67 :: nat) :: char) = CHR ''C''" by code_simp
  have g: "g_32 list_guest 0x450 = Some 3" by (simp add: list_guest_def)
  show ?thesis
    by (simp add: entry_drive_def link_drive_def list_addr Let_def b t u g l c BUFF_def c_str_def NUL_def)
qed

lemma list_bucket: "bucket_loop list_api list_hdlr 0x300 [] =
   Some (Inr [\<lparr>dos_name = ''C:'', win_name = ''HarddiskVolume2'', drv_index = 3\<rparr>])"
proof -
  have "next_entry list_api list_hdlr 0x300 = 0" 
    by (simp add: next_entry_def list_addr list_hdlr_def)
  then show ?thesis by (subst bucket_loop.simps) (simp add: list_link bucket_loop.simps [of _ _ 0])
qed

lemma list_dir: "directory_drives list_api list_hdlr VMI_PM_IA32E 0x230 =
   Some (Inr [\<lparr>dos_name = ''C:'', win_name = ''HarddiskVolume2'', drv_index = 3\<rparr>])"
proof -
  have b: "hd_offsets list_hdlr OBJECT_DIRECTORY__HASH_BUCKETS = 0" "hd_offsets list_hdlr OBJECT_DIRECTORY__LOCK = 8"
   by (simp_all add: list_hdlr_def)
  show ?thesis by (simp add: directory_drives_def b psize32_def list_addr list_bucket)
qed

lemma list_global: "find_global_dir list_api list_hdlr [0x200] = 0x230"
proof -
  have t: "win_get_object_type list_api list_hdlr 0x200 = OBJECT_TYPE_DIRECTORY"
    by (simp add: win_get_object_type_def list_hdlr_def list_guest_def)
  have u: "read_unicode4 list_api 0x1E8 = Some ''GLOBAL??''"
    by (simp add: read_unicode4_def list_api_def list_guest_def c_str_def NUL_def)
  have b: "hd_offsets list_hdlr OBJECT_HEADER__BODY = 0x30" "hd_sizes list_hdlr OBJECT_HEADER_NAME_INFO = 0x20"
    "hd_offsets list_hdlr OBJECT_HEADER_NAME_INFO__NAME = 8" by (simp_all add: list_hdlr_def)
  show ?thesis by (simp add: t u b)
qed

lemma list_objs: "table_objs list_api list_hdlr VMI_OS_WINDOWS_7 VMI_PM_IA32E 0x100 = Inr [0x200]"
proof -
  have b: "hd_sizes list_hdlr HANDLE_TABLE_ENTRY = 4096" by (simp add: list_hdlr_def)
  have d: "adjust_obj_addr list_guest VMI_OS_WINDOWS_7 VMI_PM_IA32E 0x200 = 0x200"
    by (simp add: adjust_obj_addr_def list_guest_def EX_FAST_REF_MASK_def)
  show ?thesis
    by (simp add: table_objs_def b udiv_def VMI_PS_4KB_def EX_FAST_REF_MASK_def page_objs_def list_addr d)
qed


end
