(* ===== verification/Monitor_Util.thy ===== *)
theory Monitor_Util
  imports Guest_Extract File_Filter Policy Outputs Config
begin

text \<open>
  What the monitors share: the record of an access (\<open>send_output\<close> of
  \<open>src/monitors/monitor_util.c\<close>), the match of a name with a monitor's filter, and the name of
  the object a system call is about (\<open>_read_process_path\<close> and the first half of \<open>createfile_cb\<close>
  in \<open>file_created.c\<close> and \<open>file_deleted.c\<close>). The lock around libvmi is left out.
\<close>

text \<open>
  The fields of \<open>vmhdlr_t\<close> that a record needs, and what the callbacks get from outside: the time,
  the settings, the files they write, the reads of libvmi with process 0, and what a function
  without a \<open>return\<close> answers.
\<close>

record out_hdlr_t =
  oh_domid :: int
  oh_name :: string
  oh_policies :: "policies option"
  oh_out :: output_t

record mon_env =
  me_time :: "u32 \<times> u32"
  me_config :: config_t
  me_files :: file_env
  me_noret :: int
  me_pid0_32 :: "u64 \<Rightarrow> u32 option"

datatype effect = Record written | File string pages | Print string

section \<open>Records\<close>

fun monitor_code :: "monitor_t \<Rightarrow> int" where
  "monitor_code MON_INVALID = 0"
| "monitor_code MON_CREATE = 1"
| "monitor_code MON_DELETE = 2"
| "monitor_code MON_MODIFY_CONTENT = 3"
| "monitor_code MON_MODIFY_LOGFILE = 4"
| "monitor_code MON_CHANGE_ATTR = 5"
| "monitor_code MON_CHANGE_ACCESS = 6"
| "monitor_code MON_CHANGE_ATTR_READONLY = 7"
| "monitor_code MON_CHANGE_ATTR_PERMISSION = 8"
| "monitor_code MON_CHANGE_ATTR_OWNERSHIP = 9"
| "monitor_code MON_CHANGE_ATTR_HIDDEN = 10"

text \<open>\<open>strncpy\<close> of a string into \<open>n\<close> bytes that are read as a string later.\<close>

definition copy_str :: "nat \<Rightarrow> string \<Rightarrow> string result" where
  "copy_str n s = (if length s < n then Inr s else Inl OutOfBounds)"

definition extract_path :: "mon_env \<Rightarrow> out_hdlr_t \<Rightarrow> string" where
  "extract_path env vh =
     (case config_get_str (me_config env) ''hfm-base'' of None \<Rightarrow> [] | Some basedir \<Rightarrow> basedir) @
     ''/'' @ ''extract'' @ ''/'' @ oh_name vh @ ''/'' @ show_u32 (fst (me_time env)) @ ''_'' @
     show_u32 (snd (me_time env)) @ ''.file''"

text \<open>The path in the record and the file that is written, if the contents are extracted.\<close>

definition output_extract ::
  "mon_env \<Rightarrow> out_hdlr_t \<Rightarrow> context_t \<Rightarrow> monitor_t \<Rightarrow> int \<Rightarrow> u64 \<Rightarrow> (string \<times> effect list) result option" where
  "output_extract env vh ctx action policy_id file_object =
     (if (action = MON_MODIFY_CONTENT \<or> action = MON_DELETE) \<and>
         config_get_int (me_config env) ''file-extract'' \<noteq> 0 \<and> file_object \<noteq> 0
      then (case Option.bind (oh_policies vh) (\<lambda>t. t policy_id) of
          None \<Rightarrow> Some (Inl NullDeref)
        | Some policy \<Rightarrow>
            if pol_options policy AND POLICY_OPTIONS_EXTRACT = 0 then Some (Inr ([], []))
            else tbind (Some (copy_str PATH_MAX_LEN (extract_path env vh))) (\<lambda>path.
              map_option (\<lambda>(extracted, contents).
                 Inr (if extracted = 0 then [] else path,
                      case contents of None \<Rightarrow> [] | Some ws \<Rightarrow> [File path ws]))
                (hfm_extract_file ctx (me_files env) (me_noret env) file_object path)))
      else Some (Inr ([], [])))"

text \<open>The action of the record is \<open>MON_CREATE\<close> whatever happened.\<close>

definition send_output ::
  "mon_env \<Rightarrow> out_hdlr_t \<Rightarrow> context_t \<Rightarrow> monitor_t \<Rightarrow> int \<Rightarrow> string \<Rightarrow> string \<Rightarrow> u64 \<Rightarrow> effect list result option" where
  "send_output env vh ctx action policy_id filename data file_object =
     (let cur_process = hfm_get_current_process ctx;
          (pid, ctx) = hfm_get_process_pid ctx cur_process in
      tbind (Some (hfm_get_process_sid ctx cur_process)) (\<lambda>sid.
      tbind (Some (copy_str STR_BUFF filename)) (\<lambda>filepath.
      tbind (Some (copy_str STR_BUFF data)) (\<lambda>data.
      tbind (output_extract env vh ctx action policy_id file_object) (\<lambda>(extpath, files).
      tbind (Some (out_write (oh_out vh)
          \<lparr>oi_time_sec = fst (me_time env), oi_time_usec = snd (me_time env), oi_pid = pid,
           oi_vmid = oh_domid vh, oi_policy_id = policy_id, oi_action = monitor_code MON_CREATE, oi_sid = sid,
           oi_data = data, oi_filepath = filepath, oi_extpath = extpath\<rparr>)) (\<lambda>ws.
        Some (Inr (files @ map Record ws))))))))"

section \<open>The filter of a monitor\<close>

text \<open>\<open>filter_match\<close> on the static variable \<open>filter\<close>, which is null before the first policy.\<close>

definition match_filter :: "filter_t option \<Rightarrow> string \<Rightarrow> (int \<times> filter_t option) result" where
  "match_filter flt filepath = (case flt of
       None \<Rightarrow> rbind (fn_translate filepath False) (\<lambda>nodes.
         case nodes of None \<Rightarrow> Inr (-1, None) | Some _ \<Rightarrow> Inl NullDeref)
     | Some f \<Rightarrow> rbind (filter_match f filepath) (\<lambda>(i, f). Inr (i, Some f)))"

section \<open>The object of a system call\<close>

text \<open>\<open>strrchr\<close> as an index, \<open>strstr\<close> as a predicate.\<close>

definition strrchr :: "string \<Rightarrow> char \<Rightarrow> nat option" where
  "strrchr s c = (if c \<in> set s then Some (length s - Suc (length (takeWhile (\<lambda>d. d \<noteq> c) (rev s)))) else None)"

definition strstr :: "string \<Rightarrow> string \<Rightarrow> bool" where
  "strstr s t = list_ex (\<lambda>i. take (length t) (drop i s) = t) [0 ..< Suc (length s)]"

text \<open>
  \<open>_read_process_path\<close>: the length returned starts at 1, which is kept when the image path has no
  backslash to cut it at.
\<close>

definition read_process_path :: "context_t \<Rightarrow> char list \<Rightarrow> (nat \<times> char list) result" where
  "read_process_path ctx path =
     (let process = hfm_get_current_process ctx in
      if process = 0 then Inr (0, path)
      else let peb = hfm_read_addr ctx (process + off ctx EPROCESS__PEB) in
      if peb = 0 then Inr (0, path)
      else let process_parameters = hfm_read_addr ctx (peb + off ctx PEB__PROCESS_PARAMETERS) in
      if process_parameters = 0 then Inr (0, path)
      else rbind (hfm_read_unicode ctx
                    (process_parameters + off ctx RTL_USER_PROCESS_PARAMETERS__IMAGE_PATH_NAME) path 0)
        (\<lambda>(n, path). rbind (read_str path) (\<lambda>s.
          case strrchr s BACKSLASH of
            None \<Rightarrow> Inr (1 + n, path)
          | Some k \<Rightarrow> if k = 0 then Inr (1 + n, path)
              else rbind (arr_set path (int (k + 1)) NUL) (\<lambda>path. Inr (k + 1, path)))))"

definition nt_prefix :: string where
  "nt_prefix = [BACKSLASH] @ ''??'' @ [BACKSLASH]"

text \<open>
  The path that is matched, and the sum of the lengths of its parts. Four characters are dropped
  when the prefix occurs anywhere.
\<close>

definition object_path :: "context_t \<Rightarrow> u64 \<Rightarrow> (nat \<times> string) result" where
  "object_path ctx objattr_addr =
     (let rootdir_addr = hfm_read_64 ctx (objattr_addr + off ctx OBJECT_ATTRIBUTES__ROOT_DIRECTORY);
          objectname_addr = hfm_read_addr ctx (objattr_addr + off ctx OBJECT_ATTRIBUTES__OBJECT_NAME)
      in rbind (if rootdir_addr \<noteq> 0 then read_process_path ctx (zero_buf BUFF) else Inr (0, zero_buf BUFF))
        (\<lambda>(pathlen, filepath).
      rbind (hfm_read_unicode ctx objectname_addr filepath pathlen) (\<lambda>(namelen, filepath).
      rbind (read_str filepath) (\<lambda>s.
        Inr (pathlen + namelen, if strstr s nt_prefix then drop 4 s else s)))))"

text \<open>An argument on the stack of a 32-bit guest, read with process 0; a failed read leaves 0.\<close>

definition arg32 :: "mon_env \<Rightarrow> u64 \<Rightarrow> u32" where
  "arg32 env a = (case me_pid0_32 env a of None \<Rightarrow> 0 | Some v \<Rightarrow> v)"

definition NT_SUCCESS :: "int \<Rightarrow> bool" where
  "NT_SUCCESS status \<longleftrightarrow> 0 \<le> status \<and> status \<le> 0x7FFFFFFF"

end
