(* ===== verification/Monitors.thy ===== *)
theory Monitors
  imports Monitor_Util
begin

text \<open>
  The callbacks of the monitors (\<open>file_created.c\<close>, \<open>file_deleted.c\<close>, \<open>file_modified.c\<close>,
  \<open>attr_changed.c\<close> and \<open>access_changed.c\<close> in \<open>src/monitors\<close>). A callback at the entry of a system
  call may ask for one at its return by handing over parameters, the pointer \<open>extra\<close> of a trap.
  The filter of each monitor is passed and returned, because matching moves its cursors.
\<close>

section \<open>Files created\<close>

record created_params =
  cp_io_status :: u64
  cp_filename :: "char list"
  cp_mode :: u32
  cp_policy :: int

definition FILE_CREATED :: u64 where "FILE_CREATED = 0"
definition FILE_SUPERSEDED :: u64 where "FILE_SUPERSEDED = 3"

definition created_createfile_cb ::
  "mon_env \<Rightarrow> filter_t option \<Rightarrow> context_t \<Rightarrow> (created_params option \<times> filter_t option) result" where
  "created_createfile_cb env flt ctx =
     (let rsp = rg_rsp (cx_regs ctx);
          (objattr_addr, io_status_addr, create) =
            (if hd_pm (cx_hdlr ctx) = VMI_PM_IA32E
             then (rg_r8 (cx_regs ctx), rg_r9 (cx_regs ctx), arg32 env (rsp + 16))
             else (ucast (arg32 env (rsp + 12)), ucast (arg32 env (rsp + 16)), arg32 env (rsp + 32)))
      in rbind (object_path ctx objattr_addr) (\<lambda>(len, start_filepath).
      rbind (match_filter flt start_filepath) (\<lambda>(policy_match, flt).
        if policy_match \<ge> 0 then
          rbind (strncpy_at (zero_buf BUFF) 0 start_filepath (len + 1)) (\<lambda>filename.
            Inr (Some \<lparr>cp_io_status = io_status_addr, cp_filename = filename, cp_mode = create,
                       cp_policy = policy_match\<rparr>, flt))
        else Inr (None, flt))))"

definition created_createfile_ret_cb ::
  "mon_env \<Rightarrow> out_hdlr_t \<Rightarrow> context_t \<Rightarrow> created_params \<Rightarrow> effect list result option" where
  "created_createfile_ret_cb env vh ctx params =
     (let information = hfm_read_64 ctx (cp_io_status params + off ctx IO_STATUS_BLOCK__INFORMATION) in
      if information = FILE_CREATED \<or>
         information = FILE_SUPERSEDED \<and> NT_SUCCESS (uint (rg_rax (cx_regs ctx)))
      then tbind (Some (read_str (cp_filename params))) (\<lambda>filename.
        send_output env vh ctx MON_CREATE (cp_policy params) filename [] 0)
      else Some (Inr []))"

text \<open>
  The arguments of \<open>NtSetInformationFile\<close>: the handle, the status block, the information and its class.
\<close>

definition FILE_BASIC_INFORMATION :: u32 where "FILE_BASIC_INFORMATION = 4"
definition FILE_RENAME_INFORMATION :: u32 where "FILE_RENAME_INFORMATION = 10"
definition FILE_DISPOSITION_INFORMATION :: u32 where "FILE_DISPOSITION_INFORMATION = 13"

text \<open>
  A rename is only printed. The function has no \<open>return\<close>, so its value (the first component) is
  what the caller finds; it is a parameter.
\<close>

definition created_setinformation_cb :: "'r \<Rightarrow> context_t \<Rightarrow> 'r \<times> effect list" where
  "created_setinformation_cb noret ctx =
     (let rsp = rg_rsp (cx_regs ctx);
          (fileinfo_addr, fileinfo_class) =
            (if hd_pm (cx_hdlr ctx) = VMI_PM_IA32E
             then (rg_r8 (cx_regs ctx), hfm_read_32 ctx (rsp + 40))
             else (ucast (hfm_read_32 ctx (rsp + 12)), hfm_read_32 ctx (rsp + 20)))
      in (noret,
        if fileinfo_class = FILE_RENAME_INFORMATION then
          let filename_length = hfm_read_32 ctx (fileinfo_addr + off ctx FILE_RENAME_INFORMATION__FILE_NAME_LENGTH);
              contents = hfm_read ctx (fileinfo_addr + off ctx FILE_RENAME_INFORMATION__FILE_NAME) (unat filename_length)
          in if filename_length = 0 then []
             else if length contents \<noteq> unat filename_length then []
             else (case g_utf8 (cx_guest ctx) contents of
                 Some str2 \<Rightarrow> [Print (''RENAME '' @ c_str str2 @ [OUT_LF])]
               | None \<Rightarrow> [Print (''RENAME , filename converted failed'' @ [OUT_LF])])
        else []))"

section \<open>Files deleted\<close>

definition DESIRED_ACCESS_DELETE :: u32 where "DESIRED_ACCESS_DELETE = 0x00010000"
definition FILE_DELETE_ON_CLOSE :: u32 where "FILE_DELETE_ON_CLOSE = 0x00004000"

text \<open>The name of the file behind a handle, with its object, as the callbacks read it.\<close>

definition handle_filename :: "context_t \<Rightarrow> u64 \<Rightarrow> (u64 \<times> nat \<times> string) result" where
  "handle_filename ctx handle =
     rbind (hfm_fileobj_from_handle ctx handle) (\<lambda>file_object.
     rbind (hfm_read_filename_from_object ctx file_object) (\<lambda>(len, filename).
       Inr (file_object, len, filename)))"

definition deleted_setinformation_cb ::
  "mon_env \<Rightarrow> out_hdlr_t \<Rightarrow> filter_t option \<Rightarrow> context_t \<Rightarrow> (effect list \<times> filter_t option) result option" where
  "deleted_setinformation_cb env vh flt ctx =
     (let rsp = rg_rsp (cx_regs ctx);
          (handle, fileinfo_addr, fileinfo_class) =
            (if hd_pm (cx_hdlr ctx) = VMI_PM_IA32E
             then (rg_rcx (cx_regs ctx), rg_r8 (cx_regs ctx), hfm_read_32 ctx (rsp + 40))
             else (ucast (hfm_read_32 ctx (rsp + 4)), ucast (hfm_read_32 ctx (rsp + 12)), hfm_read_32 ctx (rsp + 20)))
      in if fileinfo_class = FILE_DISPOSITION_INFORMATION then
           tbind (Some (handle_filename ctx handle)) (\<lambda>(file_object, len, filename).
           tbind (Some (match_filter flt filename)) (\<lambda>(policy_id, flt).
             if policy_id \<ge> 0 \<and>
                hfm_read_8 ctx (fileinfo_addr + off ctx FILE_DISPOSITION_INFORMATION__DELETE_FILE) \<noteq> 0
             then tbind (send_output env vh ctx MON_DELETE policy_id filename [] file_object)
                    (\<lambda>es. Some (Inr (es, flt)))
             else Some (Inr ([], flt))))
         else Some (Inr ([], flt)))"

text \<open>Registered on Windows 8 only. The line printed first has the two numbers in hexadecimal.\<close>

fun show_hex :: "nat \<Rightarrow> string" where
  "show_hex n = (if n < 16 then [(''0123456789abcdef'' ! n)] else show_hex (n div 16) @ [''0123456789abcdef'' ! (n mod 16)])"

declare show_hex.simps [simp del]

definition deleted_createfile_cb ::
  "mon_env \<Rightarrow> out_hdlr_t \<Rightarrow> filter_t option \<Rightarrow> context_t \<Rightarrow> (effect list \<times> filter_t option) result option" where
  "deleted_createfile_cb env vh flt ctx =
     (let rsp = rg_rsp (cx_regs ctx);
          (objattr_addr, desired_access, create_options) =
            (if hd_pm (cx_hdlr ctx) = VMI_PM_IA32E
             then (rg_r8 (cx_regs ctx), ucast (rg_rdx (cx_regs ctx)), hfm_read_32 ctx (rsp + 72))
             else (ucast (arg32 env (rsp + 12)), hfm_read_32 ctx (rsp + 8), hfm_read_32 ctx (rsp + 36)));
          line = Print (''desired_access '' @ show_hex (unat desired_access) @ '' create_options '' @
            show_hex (unat create_options) @ [OUT_LF])
      in if desired_access AND DESIRED_ACCESS_DELETE \<noteq> 0 \<and> create_options AND FILE_DELETE_ON_CLOSE \<noteq> 0 then
           tbind (Some (object_path ctx objattr_addr)) (\<lambda>(len, start_filepath).
           tbind (Some (match_filter flt start_filepath)) (\<lambda>(policy_match, flt).
             tbind (if policy_match \<ge> 0 then send_output env vh ctx MON_DELETE policy_match start_filepath [] 0
                    else Some (Inr [])) (\<lambda>es.
               Some (Inr ([line, Print (''DELETE'' @ [OUT_LF])] @ es, flt)))))
         else Some (Inr ([line], flt)))"

section \<open>Files modified\<close>

record modified_params =
  mp_filename :: "char list"
  mp_file_object :: u64
  mp_io_status :: u64
  mp_policy :: int

definition writefile_cb ::
  "filter_t option \<Rightarrow> context_t \<Rightarrow> (modified_params option \<times> filter_t option) result" where
  "writefile_cb flt ctx =
     (let rsp = rg_rsp (cx_regs ctx);
          (handle, io_status_addr) =
            (if hd_pm (cx_hdlr ctx) = VMI_PM_IA32E
             then (rg_rcx (cx_regs ctx), hfm_read_addr ctx (rsp + 40))
             else (ucast (hfm_read_32 ctx (rsp + 4)), ucast (hfm_read_32 ctx (rsp + 20))))
      in rbind (handle_filename ctx handle) (\<lambda>(file_object, len, filename).
           if filename = [] then Inr (None, flt)
           else rbind (match_filter flt filename) (\<lambda>(policy_id, flt).
             if policy_id \<ge> 0 then
               rbind (strncpy_at (zero_buf BUFF) 0 filename len) (\<lambda>copy.
                 Inr (Some \<lparr>mp_filename = copy, mp_file_object = file_object, mp_io_status = io_status_addr,
                            mp_policy = policy_id\<rparr>, flt))
             else Inr (None, flt))))"

definition writefile_ret_cb ::
  "mon_env \<Rightarrow> out_hdlr_t \<Rightarrow> context_t \<Rightarrow> modified_params \<Rightarrow> effect list result option" where
  "writefile_ret_cb env vh ctx params =
     (let status = sint (ucast (rg_rax (cx_regs ctx)) :: u32) in
      if NT_SUCCESS status then
        tbind (Some (read_str (mp_filename params))) (\<lambda>filename.
          send_output env vh ctx MON_MODIFY_CONTENT (mp_policy params) filename [] (mp_file_object params))
      else Some (Inr []))"

section \<open>Attributes changed\<close>

text \<open>The name is read and matched once for every class of attributes, and again if they are not 0.\<close>

definition attr_setinformation_cb ::
  "mon_env \<Rightarrow> out_hdlr_t \<Rightarrow> filter_t option \<Rightarrow> context_t \<Rightarrow> (effect list \<times> filter_t option) result option" where
  "attr_setinformation_cb env vh flt ctx =
     (let rsp = rg_rsp (cx_regs ctx);
          (handle, fileinfo_addr, fileinfo_class) =
            (if hd_pm (cx_hdlr ctx) = VMI_PM_IA32E
             then (rg_rcx (cx_regs ctx), rg_r8 (cx_regs ctx), hfm_read_32 ctx (rsp + 40))
             else (ucast (hfm_read_32 ctx (rsp + 4)), ucast (hfm_read_32 ctx (rsp + 12)), hfm_read_32 ctx (rsp + 20)))
      in if fileinfo_class = FILE_BASIC_INFORMATION then
           let file_attributes = hfm_read_32 ctx (fileinfo_addr + off ctx FILE_BASIC_INFORMATION__FILE_ATTRIBUTES) in
           tbind (Some (handle_filename ctx handle)) (\<lambda>(_, _, filename).
           tbind (Some (match_filter flt filename)) (\<lambda>(_, flt).
             if file_attributes \<noteq> 0 then
               tbind (Some (handle_filename ctx handle)) (\<lambda>(_, _, filename).
               tbind (Some (match_filter flt filename)) (\<lambda>(policy_id, flt).
                 if policy_id \<ge> 0
                 then tbind (send_output env vh ctx MON_CHANGE_ATTR policy_id filename [] 0) (\<lambda>es. Some (Inr (es, flt)))
                 else Some (Inr ([], flt))))
             else Some (Inr ([], flt))))
         else Some (Inr ([], flt)))"

text \<open>\<open>_attr_to_str\<close>, which nothing calls.\<close>

definition attr_to_str :: "u32 \<Rightarrow> string" where
  "attr_to_str attr =
     (if attr = 0x80 then ''N''
      else concat (map (\<lambda>(b, c). if attr AND b \<noteq> 0 then [c] else [])
        [(0x1, CHR ''R''), (0x2, CHR ''H''), (0x4, CHR ''S''), (0x10, CHR ''D''), (0x20, CHR ''A''),
         (0x100, CHR ''T''), (0x200, CHR ''P''), (0x400, CHR ''L''), (0x4000, CHR ''E'')]))"

section \<open>Access rights changed\<close>

record access_params =
  ap_filename :: "char list"
  ap_policy :: u32
  ap_detail :: string

definition OWNER_SECURITY_INFORMATION :: u32 where "OWNER_SECURITY_INFORMATION = 1"
definition GROUP_SECURITY_INFORMATION :: u32 where "GROUP_SECURITY_INFORMATION = 2"
definition DACL_SECURITY_INFORMATION :: u32 where "DACL_SECURITY_INFORMATION = 4"
definition SACL_SECURITY_INFORMATION :: u32 where "SACL_SECURITY_INFORMATION = 8"
definition LABEL_SECURITY_INFORMATION :: u32 where "LABEL_SECURITY_INFORMATION = 0x10"
definition SE_SELF_RELATIVE :: u16 where "SE_SELF_RELATIVE = 0x8000"

text \<open>
  The owner or the group of a security descriptor, as text; \<open>detail\<close> keeps its contents when the
  identifier cannot be read.
\<close>

definition sid_detail ::
  "context_t \<Rightarrow> u64 \<Rightarrow> win_offset \<Rightarrow> win_offset \<Rightarrow> string \<Rightarrow> string \<Rightarrow> string \<Rightarrow> (string \<times> string) result" where
  "sid_detail ctx sd_addr relative absolute label detail buff =
     (let control = hfm_read_16 ctx (sd_addr + off ctx SECURITY_DESCRIPTOR__CONTROL);
          sid_addr = (if control AND SE_SELF_RELATIVE \<noteq> 0
             then sd_addr + ucast (hfm_read_32 ctx (sd_addr + off ctx relative))
             else hfm_read_addr ctx (sd_addr + off ctx absolute))
      in rbind (hfm_extract_sid STR_BUFF ctx sid_addr) (\<lambda>s.
         let detail = (case s of None \<Rightarrow> detail | Some t \<Rightarrow> t) in
         rbind (sprintf_at STR_BUFF (label @ '' : '' @ detail) buff) (\<lambda>buff. Inr (detail, buff))))"

definition set_security_info_text :: "context_t \<Rightarrow> u32 \<Rightarrow> u64 \<Rightarrow> string result" where
  "set_security_info_text ctx info sd_addr =
     rbind (if info AND OWNER_SECURITY_INFORMATION \<noteq> 0
            then sid_detail ctx sd_addr SECURITY_DESCRIPTOR_RELATIVE__OWNER SECURITY_DESCRIPTOR__OWNER
                   ''Owner Changed;'' [] []
            else Inr ([], [])) (\<lambda>(detail, buff).
     rbind (if info AND GROUP_SECURITY_INFORMATION \<noteq> 0
            then sid_detail ctx sd_addr SECURITY_DESCRIPTOR_RELATIVE__GROUP SECURITY_DESCRIPTOR__GROUP
                   ''Group Changed;'' detail buff
            else Inr (detail, buff)) (\<lambda>(detail, buff).
     rbind (if info AND DACL_SECURITY_INFORMATION \<noteq> 0 then sprintf_at STR_BUFF ''DACL Changed;'' buff else Inr buff) (\<lambda>buff.
     rbind (if info AND SACL_SECURITY_INFORMATION \<noteq> 0 then sprintf_at STR_BUFF ''SACL Changed;'' buff else Inr buff) (\<lambda>buff.
     if info AND LABEL_SECURITY_INFORMATION \<noteq> 0 then sprintf_at STR_BUFF ''Label Changed;'' buff else Inr buff))))"

definition setsecurity_cb ::
  "filter_t option \<Rightarrow> context_t \<Rightarrow> (access_params option \<times> filter_t option) result" where
  "setsecurity_cb flt ctx =
     (let rsp = rg_rsp (cx_regs ctx);
          (handle, security_info, security_desc_addr) =
            (if hd_pm (cx_hdlr ctx) = VMI_PM_IA32E
             then (rg_rcx (cx_regs ctx), ucast (rg_rdx (cx_regs ctx)), rg_r8 (cx_regs ctx))
             else (ucast (hfm_read_32 ctx (rsp + 4)), hfm_read_32 ctx (rsp + 8), ucast (hfm_read_32 ctx (rsp + 12))))
      in rbind (handle_filename ctx handle) (\<lambda>(_, _, filename).
         rbind (match_filter flt filename) (\<lambda>(policy_id, flt).
           if policy_id > 0 then
             rbind (strncpy_at (zero_buf BUFF) 0 filename STR_BUFF) (\<lambda>copy.
             rbind (set_security_info_text ctx security_info security_desc_addr) (\<lambda>detail.
               Inr (Some \<lparr>ap_filename = copy, ap_policy = word_of_int policy_id, ap_detail = detail\<rparr>, flt)))
           else Inr (None, flt))))"

definition setsecurity_ret_cb ::
  "mon_env \<Rightarrow> out_hdlr_t \<Rightarrow> context_t \<Rightarrow> access_params \<Rightarrow> effect list result option" where
  "setsecurity_ret_cb env vh ctx params =
     (if (ucast (rg_rax (cx_regs ctx)) :: u32) = 0 then
        tbind (Some (read_str (ap_filename params))) (\<lambda>filename.
          send_output env vh ctx MON_CHANGE_ACCESS (sint (ap_policy params)) filename (ap_detail params) 0)
      else Some (Inr []))"

end
