(* ===== verification/Monitor_Policies.thy ===== *)
theory Monitor_Policies
  imports Monitors Hfm_Traps
begin

text \<open>
  Policies and monitors (\<open>src/monitors/monitor.c\<close>, the \<open>*_add_policy\<close> and \<open>*_close\<close> functions of
  the monitors, and \<open>hfm_set_policies\<close> of \<open>src/hfm.c\<close>). The static variable \<open>filter\<close> of each monitor
  is shared by all machines, the flags that say whether its system calls are trapped are fields of
  each machine's handler; both are functions of the monitor here. The iteration order of the table
  of policies is the order of the list.
\<close>

datatype plugin = File_created | File_deleted | File_modified | Attr_changed | Access_changed

text \<open>The callbacks, and the parameters handed from one to the other.\<close>

datatype mon_cb =
    Created_createfile | Created_createfile_ret | Created_setinformation | Created_setinformation_ret
  | Deleted_createfile | Deleted_setinformation | Deleted_setinformation_ret
  | Modified_writefile | Modified_writefile_ret
  | Attr_setinformation | Attr_setinformation_ret
  | Access_setsecurity | Access_setsecurity_ret

datatype params_t =
    Created_params created_params
  | Modified_params modified_params
  | Access_params access_params

type_synonym filters_t = "plugin \<Rightarrow> filter_t option"

record 'w mon_vm =
  mv_vm :: "(mon_cb, params_t, 'w) vm_t"
  mv_winver :: win_ver_t
  mv_init :: "plugin \<Rightarrow> bool"

section \<open>The system calls of the monitors\<close>

type_synonym call = "string \<times> mon_cb \<times> mon_cb option"

definition created_calls :: "call list" where
  "created_calls =
     [(''NtOpenFile'', Created_createfile, Some Created_createfile_ret),
      (''NtCreateFile'', Created_createfile, Some Created_createfile_ret),
      (''NtSetInformationFile'', Created_setinformation, Some Created_setinformation_ret),
      (''ZwSetInformationFile'', Created_setinformation, Some Created_setinformation_ret)]"

definition deleted_calls :: "win_ver_t \<Rightarrow> call list" where
  "deleted_calls winver =
     (if winver = VMI_OS_WINDOWS_8 then
        [(''NtCreateFile'', Deleted_createfile, None), (''ZwCreateFile'', Deleted_createfile, None)]
      else
        [(''NtSetInformationFile'', Deleted_setinformation, Some Deleted_setinformation_ret),
         (''ZwSetInformationFile'', Deleted_setinformation, Some Deleted_setinformation_ret)])"

definition modified_calls :: "call list" where
  "modified_calls =
     [(''NtWriteFile'', Modified_writefile, Some Modified_writefile_ret),
      (''ZwWriteFile'', Modified_writefile, Some Modified_writefile_ret)]"

definition attr_calls :: "call list" where
  "attr_calls =
     [(''NtSetInformationFile'', Attr_setinformation, Some Attr_setinformation_ret),
      (''ZwSetInformationFile'', Attr_setinformation, Some Attr_setinformation_ret)]"

definition access_calls :: "call list" where
  "access_calls =
     [(''NtSetSecurityObject'', Access_setsecurity, Some Access_setsecurity_ret),
      (''ZwSetSecurityObject'', Access_setsecurity, Some Access_setsecurity_ret)]"

definition monitor_calls ::
  "'w vmi_api \<Rightarrow> call list \<Rightarrow> (mon_cb, params_t, 'w) vm_t \<Rightarrow> (mon_cb, params_t, 'w) vm_t result" where
  "monitor_calls api =
     foldm (\<lambda>(name, cb, ret_cb) vm. map_sum id snd (hfm_monitor_syscall api name (Some cb) ret_cb vm))"

section \<open>Adding policies\<close>

text \<open>
  What every \<open>*_add_policy\<close> does: make the filter, trap the monitor's system calls if this machine
  has not been set up, and add the pattern. The answer of \<open>filter_add\<close> is ignored.
\<close>

definition plugin_add_policy ::
  "'w vmi_api \<Rightarrow> plugin \<Rightarrow> (win_ver_t \<Rightarrow> call list) \<Rightarrow> policy_t \<Rightarrow> filters_t \<times> 'w mon_vm \<Rightarrow>
   (filters_t \<times> 'w mon_vm) result" where
  "plugin_add_policy api p calls policy = (\<lambda>(fs, v).
     let flt = (case fs p of None \<Rightarrow> filter_init | Some f \<Rightarrow> f) in
     rbind (if mv_init v p then Inr v
            else rbind (monitor_calls api (calls (mv_winver v)) (mv_vm v)) (\<lambda>vm.
              Inr (v\<lparr>mv_vm := vm, mv_init := (mv_init v)(p := True)\<rparr>))) (\<lambda>v.
     rbind (filter_add flt (pol_path policy) (pol_id policy)) (\<lambda>(flt, _).
       Inr (fs(p \<mapsto> flt), v))))"

definition file_created_add_policy where
  "file_created_add_policy api = plugin_add_policy api File_created (\<lambda>_. created_calls)"

definition file_deleted_add_policy where
  "file_deleted_add_policy api = plugin_add_policy api File_deleted deleted_calls"

definition file_modified_add_policy where
  "file_modified_add_policy api = plugin_add_policy api File_modified (\<lambda>_. modified_calls)"

definition attr_changed_add_policy where
  "attr_changed_add_policy api = plugin_add_policy api Attr_changed (\<lambda>_. attr_calls)"

definition access_changed_add_policy where
  "access_changed_add_policy api = plugin_add_policy api Access_changed (\<lambda>_. access_calls)"

text \<open>\<open>owner_changed_add_policy\<close> answers \<open>FAIL\<close>; nothing calls it.\<close>

definition owner_changed_add_policy :: "policy_t \<Rightarrow> 's \<Rightarrow> bool \<times> 's" where
  "owner_changed_add_policy policy s = (False, s)"

definition mon_add_policy ::
  "'w vmi_api \<Rightarrow> policy_t \<Rightarrow> filters_t \<times> 'w mon_vm \<Rightarrow> (filters_t \<times> 'w mon_vm) result" where
  "mon_add_policy api policy s = (case pol_type policy of
       MON_CREATE \<Rightarrow> file_created_add_policy api policy s
     | MON_DELETE \<Rightarrow> file_deleted_add_policy api policy s
     | MON_MODIFY_CONTENT \<Rightarrow> file_modified_add_policy api policy s
     | MON_CHANGE_ATTR \<Rightarrow> attr_changed_add_policy api policy s
     | MON_CHANGE_ACCESS \<Rightarrow> access_changed_add_policy api policy s
     | _ \<Rightarrow> Inr s)"

definition hfm_set_policies ::
  "'w vmi_api \<Rightarrow> policy_t list option \<Rightarrow> filters_t \<times> 'w mon_vm \<Rightarrow> (filters_t \<times> 'w mon_vm) result" where
  "hfm_set_policies api policies s =
     (case policies of None \<Rightarrow> Inr s | Some ps \<Rightarrow> foldm (mon_add_policy api) ps s)"

text \<open>The end of \<open>hfm_restart_vmi\<close>: the flags of the machine are reset, the filters stay.\<close>

definition restart_policies ::
  "'w vmi_api \<Rightarrow> policy_t list option \<Rightarrow> filters_t \<times> 'w mon_vm \<Rightarrow> (filters_t \<times> 'w mon_vm) result" where
  "restart_policies api policies = (\<lambda>(fs, v).
     hfm_set_policies api policies (fs, v\<lparr>mv_init := \<lambda>_. False\<rparr>))"

section \<open>Closing\<close>

text \<open>The filters afterwards, and the patterns that were freed; a filter itself is not.\<close>

definition plugin_close :: "plugin \<Rightarrow> filters_t \<times> nodelist list \<Rightarrow> filters_t \<times> nodelist list" where
  "plugin_close p = (\<lambda>(fs, freed). case fs p of
       None \<Rightarrow> (fs, freed)
     | Some f \<Rightarrow> (fs(p := None), freed @ filter_close f))"

definition file_created_close where "file_created_close = plugin_close File_created"
definition file_deleted_close where "file_deleted_close = plugin_close File_deleted"
definition file_modified_close where "file_modified_close = plugin_close File_modified"
definition attr_changed_close where "attr_changed_close = plugin_close Attr_changed"
definition access_changed_close where "access_changed_close = plugin_close Access_changed"

definition mon_close :: "filters_t \<Rightarrow> filters_t \<times> nodelist list" where
  "mon_close fs = access_changed_close (attr_changed_close (file_modified_close (file_deleted_close
     (file_created_close (fs, [])))))"

definition mon_init :: int where "mon_init = 0"

section \<open>Dispatch of the callbacks\<close>

text \<open>
  What \<open>trap->cb (context)\<close> runs: the new value of \<open>extra\<close>, the filters and the effects. The
  parameters of a return trap are those its entry callback handed over.
\<close>

definition run_callback ::
  "mon_env \<Rightarrow> params_t option \<Rightarrow> out_hdlr_t \<Rightarrow> context_t \<Rightarrow> mon_cb \<Rightarrow> params_t option \<Rightarrow> filters_t \<Rightarrow>
   (params_t option \<times> filters_t \<times> effect list) result option" where
  "run_callback env noret vh ctx cb extra fs = (case (cb, extra) of
       (Created_createfile, _) \<Rightarrow>
         tbind (Some (created_createfile_cb env (fs File_created) ctx)) (\<lambda>(p, flt).
           Some (Inr (map_option Created_params p, fs(File_created := flt), [])))
     | (Created_createfile_ret, Some (Created_params p)) \<Rightarrow>
         tbind (created_createfile_ret_cb env vh ctx p) (\<lambda>es. Some (Inr (None, fs, es)))
     | (Created_setinformation, _) \<Rightarrow>
         (case created_setinformation_cb noret ctx of (r, es) \<Rightarrow> Some (Inr (r, fs, es)))
     | (Deleted_createfile, _) \<Rightarrow>
         tbind (deleted_createfile_cb env vh (fs File_deleted) ctx) (\<lambda>(es, flt).
           Some (Inr (None, fs(File_deleted := flt), es)))
     | (Deleted_setinformation, _) \<Rightarrow>
         tbind (deleted_setinformation_cb env vh (fs File_deleted) ctx) (\<lambda>(es, flt).
           Some (Inr (None, fs(File_deleted := flt), es)))
     | (Modified_writefile, _) \<Rightarrow>
         tbind (Some (writefile_cb (fs File_modified) ctx)) (\<lambda>(p, flt).
           Some (Inr (map_option Modified_params p, fs(File_modified := flt), [])))
     | (Modified_writefile_ret, Some (Modified_params p)) \<Rightarrow>
         tbind (writefile_ret_cb env vh ctx p) (\<lambda>es. Some (Inr (None, fs, es)))
     | (Attr_setinformation, _) \<Rightarrow>
         tbind (attr_setinformation_cb env vh (fs Attr_changed) ctx) (\<lambda>(es, flt).
           Some (Inr (None, fs(Attr_changed := flt), es)))
     | (Access_setsecurity, _) \<Rightarrow>
         tbind (Some (setsecurity_cb (fs Access_changed) ctx)) (\<lambda>(p, flt).
           Some (Inr (map_option Access_params p, fs(Access_changed := flt), [])))
     | (Access_setsecurity_ret, Some (Access_params p)) \<Rightarrow>
         tbind (setsecurity_ret_cb env vh ctx p) (\<lambda>es. Some (Inr (None, fs, es)))
     | (Created_setinformation_ret, _) \<Rightarrow> Some (Inr (None, fs, []))
     | (Deleted_setinformation_ret, _) \<Rightarrow> Some (Inr (None, fs, []))
     | (Attr_setinformation_ret, _) \<Rightarrow> Some (Inr (None, fs, []))
     | _ \<Rightarrow> Some (Inl NullDeref))"

end
