(* ===== verification/Monitor_Policies_Props.thy ===== *)
theory Monitor_Policies_Props
  imports Monitor_Policies
begin

text \<open>
  The table of policies becomes the filters of the monitors: each monitor has the patterns of its
  own policies, in the order of the table, and the system calls of the monitors that are needed are
  trapped once. The filters are shared by all machines and survive restarts, so they fill up.
\<close>

section \<open>The monitor of a policy\<close>

definition plugin_of :: "monitor_t \<Rightarrow> plugin option" where
  "plugin_of m = (case m of
       MON_CREATE \<Rightarrow> Some File_created | MON_DELETE \<Rightarrow> Some File_deleted
     | MON_MODIFY_CONTENT \<Rightarrow> Some File_modified | MON_CHANGE_ATTR \<Rightarrow> Some Attr_changed
     | MON_CHANGE_ACCESS \<Rightarrow> Some Access_changed | _ \<Rightarrow> None)"

definition plugin_calls :: "win_ver_t \<Rightarrow> plugin \<Rightarrow> call list" where
  "plugin_calls winver p = (case p of
       File_created \<Rightarrow> created_calls | File_deleted \<Rightarrow> deleted_calls winver
     | File_modified \<Rightarrow> modified_calls | Attr_changed \<Rightarrow> attr_calls | Access_changed \<Rightarrow> access_calls)"

lemma mon_add_policy_plugin:
  "mon_add_policy api policy s = (case plugin_of (pol_type policy) of
     None \<Rightarrow> Inr s | Some p \<Rightarrow> plugin_add_policy api p (\<lambda>w. plugin_calls w p) policy s)"
  by (simp add: mon_add_policy_def plugin_of_def plugin_calls_def file_created_add_policy_def
    file_deleted_add_policy_def file_modified_add_policy_def attr_changed_add_policy_def
    access_changed_add_policy_def split: monitor_t.split)

text \<open>The patterns and ids a list of policies has for a monitor.\<close>

definition rules :: "plugin \<Rightarrow> policy_t list \<Rightarrow> (string \<times> int) list" where
  "rules p ps = map (\<lambda>pol. (pol_path pol, pol_id pol)) (filter (\<lambda>pol. plugin_of (pol_type pol) = Some p) ps)"

lemma rules_simps [simp]:
  "rules p [] = []"
  "rules p (pol # ps) = (if plugin_of (pol_type pol) = Some p then [(pol_path pol, pol_id pol)] else []) @ rules p ps"
  by (simp_all add: rules_def)

lemma parsed_append: "parsed_patterns (l @ l') = parsed_patterns l @ parsed_patterns l'"
  by (induction l rule: parsed_patterns.induct) (auto split: option.split)

section \<open>Filters and their contents\<close>

definition filters_view :: "filters_t \<Rightarrow> (plugin \<Rightarrow> filter_view) \<Rightarrow> bool" where
  "filters_view fs vs \<longleftrightarrow> (\<forall>p. filter_view (case fs p of None \<Rightarrow> filter_init | Some f \<Rightarrow> f) (vs p))"

lemma no_filters: "filters_view (\<lambda>_. None) (\<lambda>_. [])"
  by (simp add: filters_view_def ff.init_view)

lemma filter_add_view:
  assumes "filter_view f v" and "short_path s" and "filter_add f s pid = Inr (f', r)"
  shows "filter_view f' (v @ parsed_patterns [(s, pid)])"
proof (cases "split_path s")
  case None
  then show ?thesis using ff.add_invalid [OF assms(1,2)] assms by simp
next
  case (Some ps)
  then show ?thesis
    using ff.add_pattern [OF assms(1,2) Some, of pid] ff.add_full [OF assms(1,2) Some, of pid] assms
    by (cases "length v < MAX_PATTERNS") auto
qed

lemma plugin_add_policy_view:
  assumes "plugin_add_policy api p calls pol (fs, v) = Inr (fs', v')"
    and "filters_view fs vs" and "short_path (pol_path pol)"
  shows "filters_view fs' (vs(p := vs p @ parsed_patterns [(pol_path pol, pol_id pol)]))"
proof -
  let ?f = "case fs p of None \<Rightarrow> filter_init | Some f \<Rightarrow> f"
  obtain f' r where f': "filter_add ?f (pol_path pol) (pol_id pol) = Inr (f', r)" "fs' = fs(p \<mapsto> f')"
    using assms(1) by (auto simp: plugin_add_policy_def Let_def rbind_eq_Inr)
  have "filter_view ?f (vs p)" using assms(2) by (simp add: filters_view_def)
  from filter_add_view [OF this assms(3) f'(1)] assms(2) show ?thesis
    by (simp add: filters_view_def f'(2))
qed

lemma add_policies_view:
  assumes "foldm (mon_add_policy api) ps (fs, v) = Inr (fs', v')"
    and "filters_view fs vs" and "\<forall>pol \<in> set ps. short_path (pol_path pol)"
  shows "filters_view fs' (\<lambda>p. vs p @ parsed_patterns (rules p ps))"
  using assms
proof (induction ps arbitrary: fs v vs)
  case (Cons pol ps)
  then obtain fs1 v1 where s1: "mon_add_policy api pol (fs, v) = Inr (fs1, v1)"
    "foldm (mon_add_policy api) ps (fs1, v1) = Inr (fs', v')"
    by (auto simp: rbind_eq_Inr)
  show ?case
  proof (cases "plugin_of (pol_type pol)")
    case None
    then show ?thesis using Cons.IH [OF s1(2)] Cons.prems s1(1) by (simp add: mon_add_policy_plugin)
  next
    case (Some p)
    then have a: "plugin_add_policy api p (\<lambda>w. plugin_calls w p) pol (fs, v) = Inr (fs1, v1)"
      using s1(1) by (simp add: mon_add_policy_plugin)
    have "filters_view fs1 (vs(p := vs p @ parsed_patterns [(pol_path pol, pol_id pol)]))"
      by (rule plugin_add_policy_view [OF a Cons.prems(2)]) (use Cons.prems(3) in simp)
    from Cons.IH [OF s1(2) this] Cons.prems(3)
    have "filters_view fs' (\<lambda>q. (vs(p := vs p @ parsed_patterns [(pol_path pol, pol_id pol)])) q @ parsed_patterns (rules q ps))"
      by simp
    moreover have "(\<lambda>q. (vs(p := vs p @ parsed_patterns [(pol_path pol, pol_id pol)])) q @ parsed_patterns (rules q ps)) =
        (\<lambda>q. vs q @ parsed_patterns (rules q (pol # ps)))"
      using Some by (auto simp: fun_eq_iff parsed_append simp del: parsed_patterns.simps(2))
    ultimately show ?thesis by simp
  qed
qed simp

lemma match_filter_view:
  assumes "filters_view fs vs" and "short_path s" and "split_path s = Some xs" and "fs p \<noteq> None"
  shows "\<exists>f'. match_filter (fs p) s = rbind (first_match (vs p) xs) (\<lambda>i. Inr (i, Some f')) \<and>
    filters_view (fs(p \<mapsto> f')) vs"
proof -
  obtain f where f: "fs p = Some f" using assms(4) by auto
  with assms(1) have v: "filter_view f (vs p)" by (auto simp: filters_view_def split: option.splits)
  from ff.match_path [OF v assms(2,3)] obtain f' where f': "filter_view f' (vs p)"
    "filter_match f s = rbind (first_match (vs p) xs) (\<lambda>pid. Inr (pid, f'))" by blast
  then show ?thesis using assms(1)
    by (intro exI [of _ f']) (simp add: match_filter_def f rbind_assoc filters_view_def)
qed

text \<open>
  Property C2. Once a table of policies is set, each monitor answers a path with the id of the first
  policy of its own kind, in the order of the table, that the matcher accepts, and with -1 if there is
  none.
\<close>

theorem set_policies_match:
  assumes "hfm_set_policies api (Some ps) (\<lambda>_. None, v) = Inr (fs, v')"
    and "\<forall>pol \<in> set ps. short_path (pol_path pol)"
    and "pol \<in> set ps" and "plugin_of (pol_type pol) = Some p"
    and "short_path s" and "split_path s = Some xs"
  shows "\<exists>f'. match_filter (fs p) s =
    rbind (first_match (parsed_patterns (rules p ps)) xs) (\<lambda>i. Inr (i, Some f'))"
proof -
  have s: "foldm (mon_add_policy api) ps (\<lambda>_. None, v) = Inr (fs, v')"
    using assms(1) by (simp add: hfm_set_policies_def)
  have set: "fs q \<noteq> None" if "foldm (mon_add_policy api) l (fs0, v0) = Inr (fs, v')"
    "fs0 q \<noteq> None \<or> (\<exists>pol \<in> set l. plugin_of (pol_type pol) = Some q)" for l fs0 v0 q
    using that
  proof (induction l arbitrary: fs0 v0)
    case (Cons a l)
    then obtain fs1 v1 where s1: "mon_add_policy api a (fs0, v0) = Inr (fs1, v1)"
      "foldm (mon_add_policy api) l (fs1, v1) = Inr (fs, v')"
      by (auto simp: rbind_eq_Inr)
    have "fs1 q \<noteq> None \<or> (\<exists>pol \<in> set l. plugin_of (pol_type pol) = Some q)"
      using Cons.prems(2) s1(1)
      by (auto simp: mon_add_policy_plugin plugin_add_policy_def Let_def rbind_eq_Inr split: option.splits if_splits)
    then show ?case using Cons.IH [OF s1(2)] by blast
  qed simp
  have "fs p \<noteq> None" using set [OF s] assms(3,4) by blast
  moreover have "filters_view fs (\<lambda>p. parsed_patterns (rules p ps))"
    using add_policies_view [OF s no_filters assms(2)] by simp
  ultimately show ?thesis using match_filter_view [OF _ assms(5,6)] by blast
qed

section \<open>The shared filters fill up\<close>

text \<open>Setting the policies again and again, as restarts do (and further machines).\<close>

fun restarts ::
  "'w vmi_api \<Rightarrow> policy_t list \<Rightarrow> nat \<Rightarrow> filters_t \<times> 'w mon_vm \<Rightarrow> (filters_t \<times> 'w mon_vm) result" where
  "restarts api ps 0 s = Inr s"
| "restarts api ps (Suc n) s = rbind (restart_policies api (Some ps) s) (restarts api ps n)"

lemma restarts_view:
  assumes "restarts api ps n (fs, v) = Inr (fs', v')" and "filters_view fs vs"
    and "\<forall>pol \<in> set ps. short_path (pol_path pol)"
  shows "filters_view fs' (\<lambda>p. vs p @ concat (replicate n (parsed_patterns (rules p ps))))"
  using assms
proof (induction n arbitrary: fs v vs)
  case (Suc n)
  then obtain fs1 v1 where s1: "foldm (mon_add_policy api) ps (fs, v\<lparr>mv_init := \<lambda>_. False\<rparr>) = Inr (fs1, v1)"
    "restarts api ps n (fs1, v1) = Inr (fs', v')"
    by (auto simp: rbind_eq_Inr restart_policies_def hfm_set_policies_def)
  from Suc.IH [OF s1(2) add_policies_view [OF s1(1) Suc.prems(2,3)] Suc.prems(3)]
  show ?case by simp
qed simp

text \<open>
  Property C20. The policies of a monitor can be set \<open>n\<close> times, for the first time, for further
  machines and after each restart, only as long as \<open>n\<close> times their number is at most 128; with the
  next policy the array of ids is overrun.
\<close>

theorem restarts_bounded:
  assumes "restarts api ps n (\<lambda>_. None, v) = Inr s" and "\<forall>pol \<in> set ps. short_path (pol_path pol)"
  shows "n * length (parsed_patterns (rules p ps)) \<le> 128"
proof -
  obtain fs v' where s: "s = (fs, v')" by (cases s)
  have "filters_view fs (\<lambda>p. [] @ concat (replicate n (parsed_patterns (rules p ps))))"
    using restarts_view [OF assms(1) [unfolded s] no_filters assms(2)] .
  then have "filter_view (case fs p of None \<Rightarrow> filter_init | Some f \<Rightarrow> f)
      ([] @ concat (replicate n (parsed_patterns (rules p ps))))"
    unfolding filters_view_def by blast
  then have "length (concat (replicate n (parsed_patterns (rules p ps)))) \<le> MAX_PATTERNS"
    by (simp add: filter_view_def)
  then show ?thesis by (simp add: MAX_PATTERNS_def length_concat sum_list_replicate)
qed

section \<open>The system calls that are trapped\<close>

text \<open>The calls of the monitors that a table of policies sets up, each monitor once.\<close>

fun new_calls :: "win_ver_t \<Rightarrow> (plugin \<Rightarrow> bool) \<Rightarrow> policy_t list \<Rightarrow> call list" where
  "new_calls w i [] = []"
| "new_calls w i (pol # ps) = (case plugin_of (pol_type pol) of
       None \<Rightarrow> new_calls w i ps
     | Some p \<Rightarrow> if i p then new_calls w i ps else plugin_calls w p @ new_calls w (i(p := True)) ps)"

lemma monitor_calls_append: "monitor_calls api (xs @ ys) vm = rbind (monitor_calls api xs vm) (monitor_calls api ys)"
  by (simp add: monitor_calls_def foldm_append)

lemma plugin_add_policy_calls:
  assumes "plugin_add_policy api p calls pol (fs, v) = Inr (fs', v')"
  shows "mv_winver v' = mv_winver v" and "mv_init v' = (mv_init v)(p := True)"
    and "monitor_calls api (if mv_init v p then [] else calls (mv_winver v)) (mv_vm v) = Inr (mv_vm v')"
  using assms
  by (auto simp: plugin_add_policy_def Let_def rbind_eq_Inr fun_upd_idem monitor_calls_def split: if_splits)

text \<open>
  Setting a table of policies traps the system calls of exactly the monitors the table
  has policies for, and of each of them once, in the order in which the table first needs them; the
  flags of the machine say which monitors have been set up.
\<close>

theorem set_policies_calls:
  assumes "hfm_set_policies api (Some ps) (fs, v) = Inr (fs', v')"
  shows "monitor_calls api (new_calls (mv_winver v) (mv_init v) ps) (mv_vm v) = Inr (mv_vm v') \<and>
    mv_init v' = (\<lambda>p. mv_init v p \<or> (\<exists>pol \<in> set ps. plugin_of (pol_type pol) = Some p))"
proof -
  have "foldm (mon_add_policy api) ps (fs, v) = Inr (fs', v')"
    using assms by (simp add: hfm_set_policies_def)
  then show ?thesis
  proof (induction ps arbitrary: fs v)
    case Nil
    then show ?case by (simp add: monitor_calls_def)
  next
    case (Cons pol ps)
    then obtain fs1 v1 where s1: "mon_add_policy api pol (fs, v) = Inr (fs1, v1)"
      "foldm (mon_add_policy api) ps (fs1, v1) = Inr (fs', v')"
      by (auto simp: rbind_eq_Inr)
    note IH = Cons.IH [OF s1(2)]
    show ?case
    proof (cases "plugin_of (pol_type pol)")
      case None
      then show ?thesis using IH s1(1) by (auto simp: mon_add_policy_plugin fun_eq_iff)
    next
      case (Some p)
      then have a: "plugin_add_policy api p (\<lambda>w. plugin_calls w p) pol (fs, v) = Inr (fs1, v1)"
        using s1(1) by (simp add: mon_add_policy_plugin)
      note c = plugin_add_policy_calls [OF a]
      have "new_calls (mv_winver v) (mv_init v) (pol # ps) =
          (if mv_init v p then [] else plugin_calls (mv_winver v) p) @ new_calls (mv_winver v) (mv_init v1) ps"
        by (simp add: Some c(2) fun_upd_idem)
      then have "monitor_calls api (new_calls (mv_winver v) (mv_init v) (pol # ps)) (mv_vm v) = Inr (mv_vm v')"
        using IH c(3) by (simp add: monitor_calls_append c(1) del: new_calls.simps)
      moreover have "mv_init v' = (\<lambda>q. mv_init v q \<or> (\<exists>pol \<in> set (pol # ps). plugin_of (pol_type pol) = Some q))"
        using IH Some by (auto simp: c(2) fun_eq_iff)
      ultimately show ?thesis by blast
    qed
  qed
qed

section \<open>A small table\<close>

text \<open>Two policies on a machine whose kernel has none of the symbols that are looked for.\<close>

definition blind_api :: "unit vmi_api" where
  "blind_api = \<lparr>vmi_read_8_pa = (\<lambda>_ w. (None, w)), vmi_write_8_pa = (\<lambda>_ _ w. (False, w)),
     vmi_read_pa = (\<lambda>_ _ w. ([], w)), vmi_write_pa = (\<lambda>_ _ w. (0, w)),
     vmi_slat_change_gfn = (\<lambda>_ _ _ w. (False, w)), vmi_set_mem_event = (\<lambda>_ _ _ w. (False, w)),
     xc_domain_setmaxmem = (\<lambda>_ w. (- 1, w)), xc_domain_increase_reservation_exact = (\<lambda>_ w. (- 1, 0, w)),
     xc_domain_populate_physmap_exact = (\<lambda>_ w. (- 1, 0, w)), xc_domain_decrease_reservation_exact = (\<lambda>_ w. w),
     vmi_pause_vm = id, vmi_resume_vm = id, vmi_translate_ksym2v = (\<lambda>_ _. 0),
     vmi_translate_kv2p = (\<lambda>_ _. 0), vmi_read_addr = (\<lambda>_ _ _. None), vmi_pagetable_lookup = (\<lambda>_ _ _. 0)\<rparr>"

definition blind_vm :: "unit mon_vm" where
  "blind_vm = \<lparr>mv_vm = \<lparr>vm_tm = tm_init, vm_heap = Map.empty, vm_fresh = 1, vm_memsize = 0, vm_altp2m_idx = 1,
     vm_interrupted = 0, vm_regs = [], vm_step = [], vm_world = ()\<rparr>, mv_winver = VMI_OS_WINDOWS_7, mv_init = (\<lambda>_. False)\<rparr>"

definition two_policies :: "policy_t list" where
  "two_policies =
     [\<lparr>pol_id = 3, pol_path = ''/home/*/a'', pol_type = MON_CREATE, pol_options = 0, pol_severity = WARNING\<rparr>,
      \<lparr>pol_id = 4, pol_path = ''/b'', pol_type = MON_DELETE, pol_options = 4, pol_severity = WARNING\<rparr>]"

lemma blind_call: "hfm_monitor_syscall blind_api n cb r vm = Inr (True, vm)"
  by (simp add: hfm_monitor_syscall_def blind_api_def Let_def)

lemma blind_calls: "monitor_calls blind_api cs vm = Inr vm"
  by (induction cs) (auto simp: monitor_calls_def blind_call)

lemma blind_policies:
  "\<exists>fs. hfm_set_policies blind_api (Some two_policies) (\<lambda>_. None, blind_vm) =
     Inr (fs, blind_vm\<lparr>mv_init := \<lambda>p. p = File_created \<or> p = File_deleted\<rparr>)"
proof -
  have sp: "short_path ''/home/*/a''" "split_path ''/home/*/a'' = Some [''home'', ''*'', ''a'']"
    "short_path ''/b''" "split_path ''/b'' = Some [''b'']" by code_simp+
  have "\<exists>f. filter_add filter_init s pid = Inr (f, 0)" if "short_path s" "split_path s = Some ps" for s ps pid
    using ff.add_pattern [OF ff.init_view that] by (auto simp: MAX_PATTERNS_def)
  from this [OF sp(1,2)] this [OF sp(3,4)]
  obtain f g where "filter_add filter_init ''/home/*/a'' 3 = Inr (f, 0)" "filter_add filter_init ''/b'' 4 = Inr (g, 0)"
    by blast
  then show ?thesis
    by (intro exI [of _ "(\<lambda>_. None)(File_created \<mapsto> f, File_deleted \<mapsto> g)"])
      (simp add: hfm_set_policies_def two_policies_def mon_add_policy_plugin plugin_of_def plugin_add_policy_def
        blind_calls blind_vm_def fun_eq_iff)
qed

lemma two_policies_short: "\<forall>pol \<in> set two_policies. short_path (pol_path pol)"
  by code_simp

theorem set_policies_match_witness:
  "\<exists>fs v' f'. hfm_set_policies blind_api (Some two_policies) (\<lambda>_. None, blind_vm) = Inr (fs, v') \<and>
    match_filter (fs File_created) ''/home/x/a'' = Inr (3, Some f')"
proof -
  obtain fs v' where s: "hfm_set_policies blind_api (Some two_policies) (\<lambda>_. None, blind_vm) = Inr (fs, v')"
    using blind_policies by blast
  have p: "two_policies ! 0 \<in> set two_policies" "plugin_of (pol_type (two_policies ! 0)) = Some File_created"
    by (simp_all add: two_policies_def plugin_of_def)
  have sp: "short_path ''/home/x/a''" "split_path ''/home/x/a'' = Some [''home'', ''x'', ''a'']" by code_simp+
  have "first_match (parsed_patterns (rules File_created two_policies)) [''home'', ''x'', ''a''] = Inr 3" by code_simp
  with set_policies_match [OF s two_policies_short p sp] s show ?thesis by auto
qed

theorem set_policies_calls_witness:
  "\<exists>fs v'. hfm_set_policies blind_api (Some two_policies) (\<lambda>_. None, blind_vm) = Inr (fs, v') \<and>
    monitor_calls blind_api (created_calls @ deleted_calls VMI_OS_WINDOWS_7) (mv_vm blind_vm) = Inr (mv_vm v') \<and>
    mv_init v' File_deleted \<and> \<not> mv_init v' Attr_changed"
proof -
  obtain fs v' where s: "hfm_set_policies blind_api (Some two_policies) (\<lambda>_. None, blind_vm) = Inr (fs, v')"
    using blind_policies by blast
  have "new_calls (mv_winver blind_vm) (mv_init blind_vm) two_policies = created_calls @ deleted_calls VMI_OS_WINDOWS_7"
    by (simp add: two_policies_def blind_vm_def plugin_of_def plugin_calls_def)
  with set_policies_calls [OF s] s show ?thesis
    by (auto simp: two_policies_def plugin_of_def blind_vm_def)
qed

theorem restarts_bounded_witness:
  "\<exists>s. restarts blind_api two_policies 1 (\<lambda>_. None, blind_vm) = Inr s \<and>
    1 * length (parsed_patterns (rules File_created two_policies)) \<le> 128"
proof -
  have "\<exists>s. restarts blind_api two_policies 1 (\<lambda>_. None, blind_vm) = Inr s"
    using blind_policies by (auto simp: restart_policies_def blind_vm_def)
  then obtain s where "restarts blind_api two_policies 1 (\<lambda>_. None, blind_vm) = Inr s" by blast
  from restarts_bounded [OF this two_policies_short, of File_created] this show ?thesis by blast
qed

end
