(* ===== verification/Outputs_Props.thy ===== *)
theory Outputs_Props
  imports Outputs
begin

text \<open>
  The records of the outputs can be read back: a line of the CSV file by splitting it at its
  commas, a query by collecting its JSON strings. Both need conditions on the texts that the code
  does not check.
\<close>

section \<open>Escaping\<close>

definition escaped :: "string \<Rightarrow> string" where
  "escaped s = concat (map (\<lambda>c. if c = BACKSLASH then [BACKSLASH, BACKSLASH] else [c]) s)"

lemma escaped_simps [simp]:
  "escaped [] = []"
  "escaped (c # s) = (if c = BACKSLASH then [BACKSLASH, BACKSLASH] else [c]) @ escaped s"
  by (simp_all add: escaped_def)

lemma length_escaped: "length s \<le> length (escaped s)"
  by (induction s) auto

lemma NUL_escaped: "NUL \<notin> set s \<Longrightarrow> NUL \<notin> set (escaped s)"
  by (induction s) (auto simp: BACKSLASH_def NUL_def)

lemma escape_loop_eq:
  assumes "n + length s \<le> maxlen"
  shows "escape_loop cap maxlen n s dest =
    (if length dest + length (escaped s) < cap then Inr (dest @ escaped s @ [NUL]) else Inl OutOfBounds)"
  using assms by (induction s arbitrary: n dest) (auto simp: put_char_def)

lemma escape_write:
  assumes "length (oi_filepath info) < 1024" and "NUL \<notin> set (oi_filepath info)"
  shows "out_es_write ou info =
    (if length (oi_filepath info) + count_list (oi_filepath info) BACKSLASH < 1024
     then Inr [Es_insert ''hfm'' (ou_es_type ou) (es_query info (escaped (oi_filepath info)))]
     else Inl OutOfBounds)"
proof -
  have len: "length (escaped s) = length s + count_list s BACKSLASH" for s
    by (induction s) auto
  have "c_str (escaped (oi_filepath info) @ [NUL]) = escaped (oi_filepath info)"
    using NUL_escaped [OF assms(2)] by (auto simp: c_str_def takeWhile_append)
  then show ?thesis
    using assms by (simp add: out_es_write_def escape_def escape_loop_eq len read_str_def)
qed

text \<open>
  Property C26. The path of a record is written to Elasticsearch exactly when it fits with its backslashes
  doubled; otherwise \<open>_escape\<close> writes behind the buffer of 1024 bytes.
\<close>

theorem es_write_bounds:
  assumes "length (oi_filepath info) < 1024" and "NUL \<notin> set (oi_filepath info)"
  shows "out_es_write ou info =
    (if length (oi_filepath info) + count_list (oi_filepath info) BACKSLASH < 1024
     then Inr [Es_insert ''hfm'' (ou_es_type ou) (es_query info (escaped (oi_filepath info)))]
     else Inl OutOfBounds)"
  using assms by (rule escape_write)

section \<open>Reading a query back\<close>

text \<open>The strings of a JSON text, in their order; a string that does not end is dropped.\<close>

fun json_scan :: "string option \<Rightarrow> string \<Rightarrow> string list" where
  "json_scan v [] = []"
| "json_scan None (c # s) = (if c = QUOTE then json_scan (Some []) s else json_scan None s)"
| "json_scan (Some v) (c # s) =
     (if c = QUOTE then v # json_scan None s
      else if c = BACKSLASH then (case s of [] \<Rightarrow> [] | d # s' \<Rightarrow> json_scan (Some (v @ [d])) s')
      else json_scan (Some (v @ [c])) s)"

definition json_strings :: "string \<Rightarrow> string list" where
  "json_strings s = json_scan None s"

definition json_plain :: "string \<Rightarrow> bool" where
  "json_plain s \<longleftrightarrow> QUOTE \<notin> set s \<and> BACKSLASH \<notin> set s"

lemma scan_outside: "QUOTE \<notin> set g \<Longrightarrow> json_scan None (g @ s) = json_scan None s"
  by (induction g) auto

lemma scan_escaped:
  "QUOTE \<notin> set v \<Longrightarrow> json_scan (Some a) (escaped v @ QUOTE # s) = (a @ v) # json_scan None s"
  by (induction v arbitrary: a) (auto simp: BACKSLASH_def QUOTE_def)

lemma escaped_plain: "json_plain v \<Longrightarrow> escaped v = v"
  by (induction v) (auto simp: json_plain_def)

lemma scan_plain: "json_plain v \<Longrightarrow> json_scan (Some a) (v @ QUOTE # s) = (a @ v) # json_scan None s"
  using scan_escaped [of v a s] by (simp add: escaped_plain) (simp add: json_plain_def)

lemma scan_member:
  assumes "json_plain name" and "QUOTE \<notin> set v"
  shows "json_scan None (json_member name (escaped v) @ s) = name # v # json_scan None s"
proof -
  have "json_scan None (json_member name (escaped v) @ s) =
      name # json_scan None ('' : '' @ QUOTE # escaped v @ QUOTE # s)"
    using scan_plain [OF assms(1), of "[]"] by (simp add: json_member_def)
  moreover have "QUOTE \<notin> set '' : ''" by (simp add: QUOTE_def)
  ultimately show ?thesis using scan_outside [of "'' : ''"] scan_escaped [OF assms(2), of "[]"] by simp
qed

lemma scan_gap: "json_scan None (json_gap n @ s) = json_scan None s"
proof -
  have "QUOTE \<notin> set (json_gap n)" by (auto simp: json_gap_def QUOTE_def)
  then show ?thesis by (rule scan_outside)
qed

lemma json_plain_nat: "json_plain (show_nat n)"
proof -
  have "\<not> is_digit QUOTE" "\<not> is_digit BACKSLASH" by (simp_all add: is_digit_def QUOTE_def BACKSLASH_def)
  then show ?thesis using show_nat_digits [of n] by (auto simp: json_plain_def)
qed

lemma json_plain_int: "json_plain (show_int n)"
  using json_plain_nat by (auto simp: show_int_def json_plain_def QUOTE_def BACKSLASH_def)

lemma scan_plain_member:
  "json_plain name \<Longrightarrow> json_plain v \<Longrightarrow> json_scan None (json_member name v @ s) = name # v # json_scan None s"
  using scan_member [of name v s] by (simp add: escaped_plain) (simp add: json_plain_def)

text \<open>
  Property C25. The query for a record whose texts need no escaping but for the backslashes of
  the path, and which fits into its 2048 bytes, is sent once, and its strings are the names and the
  values of the record.
\<close>

theorem es_query_roundtrip:
  assumes "QUOTE \<notin> set (oi_filepath info)" and "NUL \<notin> set (oi_filepath info)"
    and "length (escaped (oi_filepath info)) < 1024"
    and "json_plain (oi_sid info)" and "json_plain (oi_extpath info)" and "json_plain (oi_data info)"
    and "length (es_text info (escaped (oi_filepath info))) < 2048"
  shows "\<exists>q. out_es_write ou info = Inr [Es_insert ''hfm'' (ou_es_type ou) q] \<and>
    json_strings q =
      [''time_sec'', show_u32 (oi_time_sec info), ''time_usec'', show_u32 (oi_time_usec info),
       ''pid'', show_int (oi_pid info), ''sid'', oi_sid info, ''vmid'', show_int (oi_vmid info),
       ''policy_id'', show_int (oi_policy_id info), ''action'', show_int (oi_action info),
       ''filepath'', oi_filepath info, ''extpath'', oi_extpath info, ''data'', oi_data info]"
proof -
  let ?q = "es_query info (escaped (oi_filepath info))"
  have q: "?q = es_text info (escaped (oi_filepath info))" using assms(7) by (simp add: es_query_def)
  have len: "length (oi_filepath info) < 1024" using assms(3) length_escaped le_less_trans by blast
  have "c_str (escaped (oi_filepath info) @ [NUL]) = escaped (oi_filepath info)"
    using NUL_escaped [OF assms(2)] by (auto simp: c_str_def takeWhile_append)
  then have "out_es_write ou info = Inr [Es_insert ''hfm'' (ou_es_type ou) ?q]"
    using assms(3) len by (simp add: out_es_write_def escape_def escape_loop_eq read_str_def)
  moreover have b: "QUOTE \<notin> set ''{''" "QUOTE \<notin> set ''}''" by (simp_all add: QUOTE_def)
  have n: "json_plain ''time_sec''" "json_plain ''time_usec''" "json_plain ''pid''" "json_plain ''sid''"
    "json_plain ''vmid''" "json_plain ''policy_id''" "json_plain ''action''" "json_plain ''filepath''"
    "json_plain ''extpath''" "json_plain ''data''" by (simp_all add: json_plain_def QUOTE_def BACKSLASH_def)
  have e: "json_scan None ''}'' = []" by (simp add: QUOTE_def)
  have "json_strings ?q =
      [''time_sec'', show_u32 (oi_time_sec info), ''time_usec'', show_u32 (oi_time_usec info),
       ''pid'', show_int (oi_pid info), ''sid'', oi_sid info, ''vmid'', show_int (oi_vmid info),
       ''policy_id'', show_int (oi_policy_id info), ''action'', show_int (oi_action info),
       ''filepath'', oi_filepath info, ''extpath'', oi_extpath info, ''data'', oi_data info]"
    unfolding json_strings_def q es_text_def append_assoc scan_outside [OF b(1)]
      scan_plain_member [OF n(1) json_plain_nat [of "unat (oi_time_sec info)", folded show_u32_def]]
      scan_plain_member [OF n(2) json_plain_nat [of "unat (oi_time_usec info)", folded show_u32_def]]
      scan_plain_member [OF n(3) json_plain_int] scan_plain_member [OF n(4) assms(4)]
      scan_plain_member [OF n(5) json_plain_int] scan_plain_member [OF n(6) json_plain_int]
      scan_plain_member [OF n(7) json_plain_int] scan_member [OF n(8) assms(1)]
      scan_plain_member [OF n(9) assms(5)] scan_plain_member [OF n(10) assms(6)] scan_gap e
    by (rule refl)
  ultimately show ?thesis by blast
qed

section \<open>Reading a line back\<close>

fun fields :: "char \<Rightarrow> string \<Rightarrow> string list" where
  "fields d [] = [[]]"
| "fields d (c # s) =
     (if c = d then [] # fields d s else (case fields d s of [] \<Rightarrow> [] | f # fs \<Rightarrow> (c # f) # fs))"

lemma fields_snoc: "d \<notin> set x \<Longrightarrow> fields d x = [x]"
  by (induction x) auto

lemma fields_append: "d \<notin> set x \<Longrightarrow> fields d (x @ [d] @ s) = x # fields d s"
  by (induction x) auto

lemma show_no_comma: "CHR '','' \<notin> set (show_u32 w)" "CHR '','' \<notin> set (show_int n)"
proof -
  have c: "CHR '','' \<notin> set (show_nat k)" for k
  proof -
    have "\<not> is_digit (CHR '','')" by (simp add: is_digit_def)
    then show ?thesis using show_nat_digits [of k] by auto
  qed
  show "CHR '','' \<notin> set (show_u32 w)" using c by (simp add: show_u32_def)
  show "CHR '','' \<notin> set (show_int n)" using c by (simp add: show_int_def)
qed

text \<open>
  A line of the CSV file has ten columns with the values of the record in their
  order, if no text of the record has a comma; a comma in a file's name shifts the columns behind it.
\<close>

theorem csv_roundtrip:
  assumes "CHR '','' \<notin> set (oi_sid info)" and "CHR '','' \<notin> set (oi_filepath info)"
    and "CHR '','' \<notin> set (oi_extpath info)" and "CHR '','' \<notin> set (oi_data info)"
  shows "\<exists>l. csv_line info = l @ [OUT_LF] \<and> fields (CHR '','') l =
    [show_u32 (oi_time_sec info), show_u32 (oi_time_usec info), show_int (oi_pid info), oi_sid info,
     show_int (oi_vmid info), show_int (oi_policy_id info), show_int (oi_action info),
     oi_filepath info, oi_extpath info, oi_data info]"
proof (intro exI conjI)
  let ?l = "show_u32 (oi_time_sec info) @ '','' @ show_u32 (oi_time_usec info) @ '','' @ show_int (oi_pid info) @
     '','' @ oi_sid info @ '','' @ show_int (oi_vmid info) @ '','' @ show_int (oi_policy_id info) @ '','' @
     show_int (oi_action info) @ '','' @ oi_filepath info @ '','' @ oi_extpath info @ '','' @ oi_data info"
  show "csv_line info = ?l @ [OUT_LF]" by (simp add: csv_line_def)
  show "fields (CHR '','') ?l =
    [show_u32 (oi_time_sec info), show_u32 (oi_time_usec info), show_int (oi_pid info), oi_sid info,
     show_int (oi_vmid info), show_int (oi_policy_id info), show_int (oi_action info),
     oi_filepath info, oi_extpath info, oi_data info]"
    unfolding fields_append [OF show_no_comma(1)] fields_append [OF show_no_comma(2)]
      fields_append [OF assms(1)] fields_append [OF assms(2)] fields_append [OF assms(3)] fields_snoc [OF assms(4)]
    by (rule refl)
qed

section \<open>A record\<close>

definition demo_record :: output_info_t where
  "demo_record = \<lparr>oi_time_sec = 7, oi_time_usec = 5, oi_pid = 4, oi_vmid = 1, oi_policy_id = 2, oi_action = 1,
     oi_sid = ''S-1-5'', oi_data = [], oi_filepath = ''C:'' @ [BACKSLASH] @ ''a'', oi_extpath = []\<rparr>"

lemma demo_record_simps [simp]:
  "oi_time_sec demo_record = 7" "oi_time_usec demo_record = 5" "oi_pid demo_record = 4" "oi_vmid demo_record = 1"
  "oi_policy_id demo_record = 2" "oi_action demo_record = 1" "oi_sid demo_record = ''S-1-5''"
  "oi_data demo_record = []" "oi_filepath demo_record = ''C:'' @ [BACKSLASH] @ ''a''" "oi_extpath demo_record = []"
  by (simp_all add: demo_record_def)

lemma demo_record_chars:
  "QUOTE \<notin> set (oi_filepath demo_record)" "NUL \<notin> set (oi_filepath demo_record)"
  "CHR '','' \<notin> set (oi_filepath demo_record)"
  "json_plain ''S-1-5''" "json_plain []" "length (escaped (oi_filepath demo_record)) = 5"
  "count_list (oi_filepath demo_record) BACKSLASH = 1"
  by (simp_all add: json_plain_def QUOTE_def BACKSLASH_def NUL_def)

lemma demo_record_numbers:
  "show_u32 7 = ''7''" "show_u32 5 = ''5''" "show_int 4 = ''4''" "show_int 1 = ''1''" "show_int 2 = ''2''"
  by code_simp+

definition es_demo :: output_t where
  "es_demo = \<lparr>ou_type = OUT_ELASTICSEARCH, ou_fp = False, ou_es_type = ''log''\<rparr>"

theorem es_write_bounds_witness:
  "out_es_write es_demo demo_record =
     Inr [Es_insert ''hfm'' (ou_es_type es_demo) (es_query demo_record (escaped (oi_filepath demo_record)))]"
  using es_write_bounds [of demo_record es_demo] demo_record_chars by simp

theorem es_query_roundtrip_witness:
  "\<exists>q. out_es_write \<lparr>ou_type = OUT_ELASTICSEARCH, ou_fp = False, ou_es_type = ''log''\<rparr> demo_record =
      Inr [Es_insert ''hfm'' ''log'' q] \<and>
    json_strings q = [''time_sec'', ''7'', ''time_usec'', ''5'', ''pid'', ''4'', ''sid'', ''S-1-5'', ''vmid'', ''1'',
      ''policy_id'', ''2'', ''action'', ''1'', ''filepath'', ''C:'' @ [BACKSLASH] @ ''a'', ''extpath'', [], ''data'', []]"
proof -
  have "length (es_text demo_record (escaped (oi_filepath demo_record))) < 2048"
    using demo_record_chars(6) by (simp add: es_text_def json_member_def json_gap_def demo_record_numbers)
  from es_query_roundtrip [OF demo_record_chars(1,2) _ _ _ _ this,
      of "\<lparr>ou_type = OUT_ELASTICSEARCH, ou_fp = False, ou_es_type = ''log''\<rparr>"] demo_record_chars(4,5)
  show ?thesis by (simp add: demo_record_numbers demo_record_chars(6) del: escaped_simps)
    (simp add: BACKSLASH_def)
qed

theorem csv_roundtrip_witness:
  "\<exists>l. csv_line demo_record = l @ [OUT_LF] \<and> fields (CHR '','') l =
    [''7'', ''5'', ''4'', ''S-1-5'', ''1'', ''2'', ''1'', ''C:'' @ [BACKSLASH] @ ''a'', [], []]"
  using csv_roundtrip [of demo_record] demo_record_chars(3) by (simp add: demo_record_numbers)

text \<open>What the escaping leaves out: a quote in a name adds a member of its own choice to the query.\<close>

definition quoted_name :: string where
  "quoted_name = [QUOTE] @ '', '' @ [QUOTE] @ ''pid'' @ [QUOTE] @ '' : '' @ [QUOTE] @ ''9''"

theorem es_query_injection:
  "\<exists>q. out_es_write ou (demo_record\<lparr>oi_filepath := quoted_name\<rparr>) = Inr [Es_insert ''hfm'' (ou_es_type ou) q] \<and>
    drop 14 (json_strings q) = [''filepath'', [], ''pid'', ''9'', ''extpath'', [], ''data'', []]"
proof -
  have a: "length (oi_filepath (demo_record\<lparr>oi_filepath := quoted_name\<rparr>)) < 1024"
    "NUL \<notin> set (oi_filepath (demo_record\<lparr>oi_filepath := quoted_name\<rparr>))"
    "length quoted_name + count_list quoted_name BACKSLASH < 1024"
    by code_simp+
  have "drop 14 (json_strings (es_query (demo_record\<lparr>oi_filepath := quoted_name\<rparr>) (escaped quoted_name))) =
      [''filepath'', [], ''pid'', ''9'', ''extpath'', [], ''data'', []]"
    by code_simp
  then show ?thesis using escape_write [OF a(1,2), of ou] a(3) by simp
qed

end
