(* ===== verification/Monitor_Props.thy ===== *)
theory Monitor_Props
  imports Monitor_Policies_Props Outputs_Props
begin

text \<open>
  What the monitors report. Each property follows one system call from its entry, where the object
  is found and its name is matched with the policies, to the record that is written.
\<close>

section \<open>Names in buffers\<close>

lemma strncpy_name:
  assumes "NUL \<notin> set s" and "length s < BUFF" and "n \<le> BUFF"
  shows "\<exists>b. strncpy_at (zero_buf BUFF) 0 s n = Inr b \<and> read_str b = Inr (take n s)"
proof -
  have c: "c_str s = s" using assms(1) by (auto simp: c_str_def takeWhile_eq_all_conv)
  have "take n (s @ zero_buf n) @ drop n (zero_buf BUFF) = take n s @ zero_buf (BUFF - length (take n s))"
    using assms(3) by (simp add: zero_buf_def min_def flip: replicate_add)
  moreover have "NUL \<notin> set (take n s)" using assms(1) by (auto dest: in_set_takeD)
  ultimately have "read_str (take n (s @ zero_buf n) @ drop n (zero_buf BUFF)) = Inr (take n s)"
    using assms(2) by (simp add: read_str_padded)
  then show ?thesis using assms(3) by (simp add: strncpy_at_def c)
qed

lemma handle_filename_length:
  assumes "handle_filename ctx h = Inr (obj, len, name)"
  shows "length name \<le> len" and "length name < BUFF"
proof -
  have u: "length (c_str s) \<le> length s" for s by (simp add: c_str_def length_takeWhile_le)
  from assms obtain d p where "name = take (BUFF - 1) (d @ c_str p)" "len = length d + length p"
    unfolding handle_filename_def hfm_read_filename_from_object_def Let_def read_unicode_string
    by (auto simp: rbind_eq_Inr split: if_splits)
  then show "length name \<le> len" "length name < BUFF"
    using u [of p] by (auto simp: BUFF_def)
qed

lemma short_path_NUL: "short_path s \<Longrightarrow> NUL \<notin> set s"
  by (simp add: short_path_def)

section \<open>The record of an access\<close>


section \<open>Writing to a file\<close>

lemma writefile_cb_eq:
  assumes "hd_pm (cx_hdlr ctx) = VMI_PM_IA32E"
    and "handle_filename ctx (rg_rcx (cx_regs ctx)) = Inr (obj, len, name)" and "name \<noteq> []" and "len \<le> 1024"
    and "match_filter flt name = Inr (i, flt')" and "NUL \<notin> set name"
  shows "\<exists>b io. read_str b = Inr name \<and> writefile_cb flt ctx = Inr (if i \<ge> 0
    then Some \<lparr>mp_filename = b, mp_file_object = obj, mp_io_status = io, mp_policy = i\<rparr> else None, flt')"
proof -
  note l = handle_filename_length [OF assms(2)]
  obtain b where b: "strncpy_at (zero_buf BUFF) 0 name len = Inr b" "read_str b = Inr (take len name)"
    using strncpy_name [OF assms(6) l(2), of len] assms(4) by (auto simp: BUFF_def)
  show ?thesis
    using b l(1) assms by (intro exI [of _ b]) (auto simp: writefile_cb_def Let_def)
qed

text \<open>
  A write to a file that a policy names is reported once, when the system call returns
  with success, with the name the file had at the entry and with the policy that matched it first; a
  failed write, and a write to a file that no policy names, is not reported.
\<close>

theorem write_reported:
  assumes "filters_view fs vs" and "fs File_modified \<noteq> None"
    and "hd_pm (cx_hdlr ctx) = VMI_PM_IA32E"
    and "handle_filename ctx (rg_rcx (cx_regs ctx)) = Inr (obj, len, name)" and "name \<noteq> []" and "len \<le> 1024"
    and "short_path name" and "split_path name = Some xs" and "first_match (vs File_modified) xs = Inr i"
  shows "\<exists>p fs'. run_callback env noret vh ctx Modified_writefile extra fs = Some (Inr (p, fs', [])) \<and>
    filters_view fs' vs \<and> (p = None \<longleftrightarrow> i < 0) \<and>
    (i \<ge> 0 \<longrightarrow> (\<forall>env ctx fs. run_callback env noret vh ctx Modified_writefile_ret p fs =
      (if 0 \<le> sint (ucast (rg_rax (cx_regs ctx)) :: u32)
       then tbind (send_output env vh ctx MON_MODIFY_CONTENT i name [] obj) (\<lambda>es. Some (Inr (None, fs, es)))
       else Some (Inr (None, fs, [])))))"
proof -
  obtain f' where f': "match_filter (fs File_modified) name = Inr (i, Some f')" "filters_view (fs(File_modified \<mapsto> f')) vs"
    using match_filter_view [OF assms(1,7,8,2)] assms(9) by auto
  from writefile_cb_eq [OF assms(3-6) f'(1) short_path_NUL [OF assms(7)]]
  obtain b io where b: "read_str b = Inr name" "writefile_cb (fs File_modified) ctx = Inr (if i \<ge> 0
    then Some \<lparr>mp_filename = b, mp_file_object = obj, mp_io_status = io, mp_policy = i\<rparr> else None, Some f')"
    by blast
  have s: "NT_SUCCESS (sint w) \<longleftrightarrow> 0 \<le> sint w" for w :: u32
    using sint_lt [of w] by (auto simp: NT_SUCCESS_def)
  show ?thesis using f'(2)
    by (cases "i \<ge> 0") (auto simp: run_callback_def b writefile_ret_cb_def s Let_def)
qed

section \<open>Creating a file\<close>


text \<open>
  A status block that cannot be read reads as 0, which is the code's \<open>FILE_CREATED\<close>: the creation is
  reported although the call may have failed.
\<close>

theorem create_unreadable:
  assumes "g_64 (cx_guest ctx) (cp_io_status p + off ctx IO_STATUS_BLOCK__INFORMATION) = None"
    and "read_str (cp_filename p) = Inr name"
  shows "created_createfile_ret_cb env vh ctx p = send_output env vh ctx MON_CREATE (cp_policy p) name [] 0"
  using assms by (simp add: created_createfile_ret_cb_def hfm_read_64_def FILE_CREATED_def)

section \<open>Deleting a file and changing its attributes\<close>

lemma setinformation_args:
  assumes "hd_pm (cx_hdlr ctx) = VMI_PM_IA32E"
  shows "(if hd_pm (cx_hdlr ctx) = VMI_PM_IA32E
     then (rg_rcx (cx_regs ctx), rg_r8 (cx_regs ctx), hfm_read_32 ctx (rg_rsp (cx_regs ctx) + 40)) else a) =
    (rg_rcx (cx_regs ctx), rg_r8 (cx_regs ctx), hfm_read_32 ctx (rg_rsp (cx_regs ctx) + 40))"
  using assms by simp

lemma report_assoc:
  "tbind (tbind x (\<lambda>es. Some (Inr (es, flt)))) (\<lambda>(es, flt). Some (Inr (None, fs(p := flt), es))) =
   tbind x (\<lambda>es. Some (Inr (None, fs(p := flt), es)))"
  by (simp add: tbind_def split: option.split sum.split)

text \<open>
  Property C10. Marking a file for deletion is reported at the entry of the system call, exactly for
  the class 13 of information with its byte set and a file that a policy names; clearing the mark is
  not.
\<close>

theorem delete_reported:
  assumes "filters_view fs vs" and "fs File_deleted \<noteq> None"
    and "hd_pm (cx_hdlr ctx) = VMI_PM_IA32E"
    and "handle_filename ctx (rg_rcx (cx_regs ctx)) = Inr (obj, len, name)"
    and "short_path name" and "split_path name = Some xs" and "first_match (vs File_deleted) xs = Inr i"
  shows "\<exists>fs'. filters_view fs' vs \<and>
    run_callback env noret vh ctx Deleted_setinformation extra fs =
      (if hfm_read_32 ctx (rg_rsp (cx_regs ctx) + 40) = 13 \<and> i \<ge> 0 \<and>
          hfm_read_8 ctx (rg_r8 (cx_regs ctx) + off ctx FILE_DISPOSITION_INFORMATION__DELETE_FILE) \<noteq> 0
       then tbind (send_output env vh ctx MON_DELETE i name [] obj) (\<lambda>es. Some (Inr (None, fs', es)))
       else Some (Inr (None, fs', [])))"
proof -
  obtain f' where f': "match_filter (fs File_deleted) name = Inr (i, Some f')" "filters_view (fs(File_deleted \<mapsto> f')) vs"
    using match_filter_view [OF assms(1,5,6,2)] assms(7) by auto
  show ?thesis
  proof (cases "hfm_read_32 ctx (rg_rsp (cx_regs ctx) + 40) = 13")
    case True
    then show ?thesis using f'(2)
      by (intro exI [of _ "fs(File_deleted \<mapsto> f')"])
        (simp add: run_callback_def deleted_setinformation_cb_def setinformation_args [OF assms(3)] assms(4) f'(1)
          FILE_DISPOSITION_INFORMATION_def report_assoc)
  next
    case False
    then show ?thesis using assms(1)
      by (intro exI [of _ fs])
        (simp add: run_callback_def deleted_setinformation_cb_def setinformation_args [OF assms(3)]
          FILE_DISPOSITION_INFORMATION_def)
  qed
qed

text \<open>
  A change of attributes is reported at the entry of the system call, exactly for the
  class 4 of information with attributes other than 0 and a file that a policy names. (The name is
  read and matched twice, which gives the same answer.)
\<close>

theorem attributes_reported:
  assumes "filters_view fs vs" and "fs Attr_changed \<noteq> None"
    and "hd_pm (cx_hdlr ctx) = VMI_PM_IA32E"
    and "handle_filename ctx (rg_rcx (cx_regs ctx)) = Inr (obj, len, name)"
    and "short_path name" and "split_path name = Some xs" and "first_match (vs Attr_changed) xs = Inr i"
  shows "\<exists>fs'. filters_view fs' vs \<and>
    run_callback env noret vh ctx Attr_setinformation extra fs =
      (if hfm_read_32 ctx (rg_rsp (cx_regs ctx) + 40) = 4 \<and> i \<ge> 0 \<and>
          hfm_read_32 ctx (rg_r8 (cx_regs ctx) + off ctx FILE_BASIC_INFORMATION__FILE_ATTRIBUTES) \<noteq> 0
       then tbind (send_output env vh ctx MON_CHANGE_ATTR i name [] 0) (\<lambda>es. Some (Inr (None, fs', es)))
       else Some (Inr (None, fs', [])))"
proof -
  obtain f where f: "match_filter (fs Attr_changed) name = Inr (i, Some f)" "filters_view (fs(Attr_changed \<mapsto> f)) vs"
    using match_filter_view [OF assms(1,5,6,2)] assms(7) by auto
  obtain g where g: "match_filter (Some f) name = Inr (i, Some g)" "filters_view (fs(Attr_changed \<mapsto> g)) vs"
    using match_filter_view [OF f(2) assms(5,6), of Attr_changed] assms(7) by auto
  show ?thesis
  proof (cases "hfm_read_32 ctx (rg_rsp (cx_regs ctx) + 40) = 4")
    case True
    let ?a = "hfm_read_32 ctx (rg_r8 (cx_regs ctx) + off ctx FILE_BASIC_INFORMATION__FILE_ATTRIBUTES)"
    show ?thesis using f(2) g(2) True
      by (intro exI [of _ "fs(Attr_changed \<mapsto> if ?a = 0 then f else g)"])
        (simp add: run_callback_def attr_setinformation_cb_def setinformation_args [OF assms(3)] assms(4) f(1) g(1)
          FILE_BASIC_INFORMATION_def report_assoc)
  next
    case False
    then show ?thesis using assms(1)
      by (intro exI [of _ fs])
        (simp add: run_callback_def attr_setinformation_cb_def setinformation_args [OF assms(3)]
          FILE_BASIC_INFORMATION_def)
  qed
qed

section \<open>The name of the object of a create call\<close>

lemma strrchr_last:
  assumes "strrchr s c = Some k"
  shows "k < length s" and "s ! k = c" and "c \<notin> set (drop (Suc k) s)"
proof -
  let ?n = "length (takeWhile (\<lambda>d. d \<noteq> c) (rev s))"
  from assms have c: "c \<in> set s" and k: "k = length s - Suc ?n"
    by (auto simp: strrchr_def split: if_splits)
  then have n: "?n < length s" using takeWhile_length_less [of "rev s" "\<lambda>d. d \<noteq> c"] by auto
  then show "k < length s" using k by simp
  have "rev s ! ?n = c" using nth_length_takeWhile [of "\<lambda>d. d \<noteq> c" "rev s"] n by simp
  then show "s ! k = c" using n k by (simp add: rev_nth)
  have "drop (Suc k) s = rev (take ?n (rev s))" using n k by (simp add: rev_take Suc_diff_Suc)
  moreover have "c \<notin> set (take ?n (rev s))"
    by (metis (full_types) set_takeWhileD takeWhile_eq_take)
  ultimately show "c \<notin> set (drop (Suc k) s)" by simp
qed

text \<open>The address and the text of the name a create call is given, and of the image path.\<close>

definition object_name :: "context_t \<Rightarrow> u64 \<Rightarrow> string" where
  "object_name ctx a = unicode_at ctx (hfm_read_addr ctx (a + off ctx OBJECT_ATTRIBUTES__OBJECT_NAME))"

definition image_path_addr :: "context_t \<Rightarrow> u64" where
  "image_path_addr ctx =
     hfm_read_addr ctx (hfm_read_addr ctx (hfm_get_current_process ctx + off ctx EPROCESS__PEB) +
       off ctx PEB__PROCESS_PARAMETERS) + off ctx RTL_USER_PROCESS_PARAMETERS__IMAGE_PATH_NAME"

lemma object_path_absolute:
  assumes "hfm_read_64 ctx (a + off ctx OBJECT_ATTRIBUTES__ROOT_DIRECTORY) = 0"
  shows "object_path ctx a = (let name = object_name ctx a in
    if \<not> fits_buff name then Inl OutOfBounds
    else Inr (length name, if strstr (c_str name) nt_prefix then drop 4 (c_str name) else c_str name))"
  using assms read_unicode_string [of ctx "hfm_read_addr ctx (a + off ctx OBJECT_ATTRIBUTES__OBJECT_NAME)"
    "\<lambda>n s. Inr (n, if strstr s nt_prefix then drop 4 s else s)"]
  by (simp add: object_path_def object_name_def Let_def)

text \<open>
  A create call without a root directory is about the name it is given, less the
  prefix of the object manager.
\<close>

theorem absolute_object_path:
  assumes "hfm_read_64 ctx (a + off ctx OBJECT_ATTRIBUTES__ROOT_DIRECTORY) = 0"
  shows "object_path ctx a = (let name = object_name ctx a in
    if \<not> fits_buff name then Inl OutOfBounds
    else Inr (length name, if strstr (c_str name) nt_prefix then drop 4 (c_str name) else c_str name))"
  using assms by (rule object_path_absolute)

text \<open>
  Property C18. A name relative to a root directory is appended to the directory of the program that
  runs, whatever the root directory is; and the end of the program's own file name stays behind it
  if that is longer, so that another path is matched.
\<close>

theorem relative_object_path:
  assumes "hfm_read_64 ctx (a + off ctx OBJECT_ATTRIBUTES__ROOT_DIRECTORY) \<noteq> 0"
    and "hfm_get_current_process ctx \<noteq> 0"
    and "hfm_read_addr ctx (hfm_get_current_process ctx + off ctx EPROCESS__PEB) \<noteq> 0"
    and "hfm_read_addr ctx (hfm_read_addr ctx (hfm_get_current_process ctx + off ctx EPROCESS__PEB) +
       off ctx PEB__PROCESS_PARAMETERS) \<noteq> 0"
    and "unicode_at ctx (image_path_addr ctx) = img" and "NUL \<notin> set img" and "length img < 1024"
    and "strrchr img BACKSLASH = Some k" and "k \<noteq> 0"
    and "object_name ctx a = name" and "NUL \<notin> set name" and "name \<noteq> []" and "k + 1 + length name < 1024"
  shows "object_path ctx a = (let path = take (k + 1) img @ name @ drop (k + 1 + length name) img in
    Inr (k + 1 + length name, if strstr path nt_prefix then drop 4 path else path))"
proof -
  define m where "m = k + 1"
  have m: "m \<le> length img" "m + length name < 1024"
    using strrchr_last(1) [OF assms(8)] assms(13) by (simp_all add: m_def)
  have c: "c_str img = img" "c_str name = name"
    using assms(6,11) by (auto simp: c_str_def takeWhile_eq_all_conv)
  let ?b = "img @ zero_buf (BUFF - length img)"
  have i: "strncpy_at (zero_buf BUFF) 0 img (length img) = Inr ?b" "read_str ?b = Inr img"
    using strncpy_at_zero_buf [of BUFF img] assms(6,7) by (simp_all add: c read_str_padded BUFF_def)
  let ?b' = "?b[m := NUL]"
  have "arr_set ?b (int m) NUL = Inr ?b'"
    using assms(7) m(1) arr_set_nat [of m ?b NUL] by (simp add: BUFF_def)
  then have p: "read_process_path ctx (zero_buf BUFF) = Inr (m, ?b')"
    using assms(2-5,9) i(1) unfolding m_def
    by (simp add: read_process_path_def Let_def hfm_read_unicode_at i(2) assms(8) image_path_addr_def [symmetric])
  let ?p = "take m img @ name @ drop (m + length name) img"
  let ?z = "zero_buf (BUFF - max (length img) (m + length name))"
  have "strncpy_at ?b' m name (length name) = Inr (take m ?b' @ name @ drop (m + length name) ?b')"
    using assms(7) m by (simp add: strncpy_at_def c BUFF_def)
  moreover have "take m ?b' = take m img" using m(1) by simp
  moreover have "drop (m + length name) ?b' = drop (m + length name) img @ ?z"
    using assms(12) by (simp add: zero_buf_def max_def)
  ultimately have w: "hfm_read_unicode ctx (hfm_read_addr ctx (a + off ctx OBJECT_ATTRIBUTES__OBJECT_NAME)) ?b' m =
      Inr (length name, ?p @ ?z)"
    using assms(7,10) m by (simp add: hfm_read_unicode_at object_name_def BUFF_def)
  have "NUL \<notin> set ?p" using assms(6,11) by (auto dest: in_set_takeD in_set_dropD)
  then have r: "read_str (?p @ ?z) = Inr ?p"
    using assms(7) m read_str_padded [of ?p] by (simp add: BUFF_def)
  show ?thesis using assms(1) unfolding m_def [symmetric]
    by (simp only: object_path_def Let_def p w r rbind_Inr case_prod_conv simp_thms if_True)
qed

end
