(* ===== verification/Monitor_Demo.thy ===== *)
theory Monitor_Demo
  imports Monitor_Props Guest_Demo
begin

text \<open>
  A Windows 7 guest in the middle of a system call, on which the properties of the monitors are applied: the
  process 4 at \<open>0xB000\<close> with the identifier \<open>S-1-5-32-544\<close>, whose handle 4 is the file object of
  \<open>Guest_Demo\<close>; its program is \<open>tool.exe\<close> in \<open>C:\bin\<close>. The stack starts at \<open>0xF000\<close>.
\<close>

definition mon_image :: string where
  "mon_image = ''C:'' @ [BACKSLASH] @ ''bin'' @ [BACKSLASH] @ ''tool.exe''"

definition mon_guest :: guest_t where
  "mon_guest = demo_guest\<lparr>
     g_addr := map_of [(0x1008, 0x2000), (0x1FB8, 0x3000), (0x1038, 0x4000),
       (0x9000, 0xA000), (0xA000, 0xB000), (0xB000, 0xC000), (0xC000, 0x6000), (0x6010, 0xFD1),
       (0xB020, 0xD000), (0xD000, 0xE000), (0xE000, 0x5000), (0xB030, 0xB100), (0xB100, 0x1070),
       (0x1058, 0x4100), (0x1078, 0x4200), (0xF210, 0x1030), (0xF310, 0x1050)],
     g_64 := map_of [(0xF308, 1)],
     g_32 := map_of [(0x5008, 32), (0x500C, 544), (0xC010, 1), (0xB028, 4), (0xF028, 13), (0xF128, 4), (0xF160, 2)],
     g_16 := map_of [(0x1FB0, 30), (0x1030, 12), (0x1050, 4), (0x1070, 30)],
     g_8 := map_of [(0x5000, 1), (0x5001, 2), (0x5007, 5), (0xF150, 1)],
     g_bytes := (\<lambda>a n. if a = 0x3000 then utf16 demo_volume else if a = 0x4000 then utf16 demo_path
       else if a = 0x4100 then utf16 ''ab'' else if a = 0x4200 then utf16 mon_image else [])\<rparr>"

definition mon_win :: win_hdlr_t where
  "mon_win = demo_hdlr\<lparr>hd_offsets := demo_offsets(HANDLE_TABLE__HANDLE_COUNT := 0x10, EPROCESS__TOKEN := 0x20,
     EPROCESS__UNIQUE_PROCESS_ID := 0x28, EPROCESS__PEB := 0x30,
     OBJECT_ATTRIBUTES__ROOT_DIRECTORY := 8, OBJECT_ATTRIBUTES__OBJECT_NAME := 0x10,
     FILE_BASIC_INFORMATION__FILE_ATTRIBUTES := 0x10)\<rparr>"

definition mon_ctx :: "u64 \<Rightarrow> u64 \<Rightarrow> context_t" where
  "mon_ctx rsp r8 = \<lparr>cx_regs = demo_regs\<lparr>rg_rcx := 4, rg_gs_base := 0x9000, rg_rsp := rsp, rg_r8 := r8\<rparr>,
     cx_guest = mon_guest, cx_hdlr = mon_win, cx_process_base = 0\<rparr>"

definition mon_console :: out_hdlr_t where
  "mon_console = \<lparr>oh_domid = 1, oh_name = ''win7'', oh_policies = None,
     oh_out = \<lparr>ou_type = OUT_CONSOLE, ou_fp = False, ou_es_type = []\<rparr>\<rparr>"

definition mon_env0 :: mon_env where
  "mon_env0 = \<lparr>me_time = (7, 5), me_config = [''file-extract'' \<mapsto> ''0''], me_files = \<lparr>fe_open = (\<lambda>_. False), fe_seek = (\<lambda>_. False)\<rparr>,
     me_noret = 0, me_pid0_32 = Map.empty\<rparr>"

lemma mon_regs [simp]:
  "rg_rcx (cx_regs (mon_ctx rsp r8)) = 4" "rg_rsp (cx_regs (mon_ctx rsp r8)) = rsp" "rg_r8 (cx_regs (mon_ctx rsp r8)) = r8"
  "rg_rax (cx_regs (mon_ctx rsp r8)) = 0" "rg_r9 (cx_regs (mon_ctx rsp r8)) = 0" "rg_gs_base (cx_regs (mon_ctx rsp r8)) = 0x9000"
  "hd_pm (cx_hdlr (mon_ctx rsp r8)) = VMI_PM_IA32E" "hd_winver (cx_hdlr (mon_ctx rsp r8)) = VMI_OS_WINDOWS_7"
  "hd_drives (cx_hdlr (mon_ctx rsp r8)) = [\<lparr>dos_name = ''C:'', win_name = demo_volume, drv_index = 3\<rparr>]"
  "cx_process_base (mon_ctx rsp r8) = 0" "cx_guest (mon_ctx rsp r8) = mon_guest"
  by (simp_all add: mon_ctx_def demo_regs_def mon_win_def demo_hdlr_def)

lemma mon_off:
  "off (mon_ctx rsp r8) i = (demo_offsets(HANDLE_TABLE__HANDLE_COUNT := 0x10, EPROCESS__TOKEN := 0x20,
     EPROCESS__UNIQUE_PROCESS_ID := 0x28, EPROCESS__PEB := 0x30,
     OBJECT_ATTRIBUTES__ROOT_DIRECTORY := 8, OBJECT_ATTRIBUTES__OBJECT_NAME := 0x10,
     FILE_BASIC_INFORMATION__FILE_ATTRIBUTES := 0x10)) i"
  "sz (mon_ctx rsp r8) j = demo_sizes j"
  by (simp_all add: off_def sz_def mon_ctx_def mon_win_def demo_hdlr_def)

lemmas mon_reads = mon_off demo_offsets_def demo_sizes_def hfm_read_addr_def hfm_read_64_def hfm_read_32_def
  hfm_read_16_def hfm_read_8_def hfm_read_def mon_guest_def demo_guest_def

lemma mon_process: "hfm_get_current_process (mon_ctx rsp r8) = 0xB000"
  by (simp add: hfm_get_current_process_def mon_reads Let_def)

lemma mon_unicode:
  "unicode_at (mon_ctx rsp r8) 0x1FB0 = demo_volume" "unicode_at (mon_ctx rsp r8) 0x1030 = demo_path"
  "unicode_at (mon_ctx rsp r8) 0x1050 = ''ab''" "unicode_at (mon_ctx rsp r8) 0x1070 = mon_image"
proof -
  have "length mon_image = 15" by (simp add: mon_image_def)
  then show "unicode_at (mon_ctx rsp r8) 0x1FB0 = demo_volume" "unicode_at (mon_ctx rsp r8) 0x1030 = demo_path"
    "unicode_at (mon_ctx rsp r8) 0x1050 = ''ab''" "unicode_at (mon_ctx rsp r8) 0x1070 = mon_image"
    by (simp_all add: unicode_at_def mon_reads Let_def demo_lengths del: utf16.simps narrow.simps)
qed

lemma mon_fileobj: "hfm_fileobj_from_handle (mon_ctx rsp r8) 4 = Inr 0x1000"
proof -
  have "handle_entry (mon_ctx rsp r8) 0x6000 4 = Inr 0xFD1"
    by (simp add: handle_entry_def EX_FAST_REF_MASK_def HANDLE_MULTIPLIER_def mon_reads Let_def)
  moreover have "decode_entry (mon_ctx rsp r8) 0xFD1 = 0xFD0"
    by (simp add: decode_entry_def EX_FAST_REF_MASK_def)
  moreover have "hfm_read_addr (mon_ctx rsp r8) 0xB000 = 0xC000" "hfm_read_addr (mon_ctx rsp r8) 0xC000 = 0x6000"
    "hfm_read_32 (mon_ctx rsp r8) 0xC010 = 1" "off (mon_ctx rsp r8) EPROCESS__OBJECT_TABLE = 0"
    "off (mon_ctx rsp r8) HANDLE_TABLE__TABLE_CODE = 0" "off (mon_ctx rsp r8) HANDLE_TABLE__HANDLE_COUNT = 0x10"
    "off (mon_ctx rsp r8) OBJECT_HEADER__BODY = 0x30"
    by (simp_all add: mon_reads)
  ultimately show ?thesis by (simp add: hfm_fileobj_from_handle_def mon_process Let_def)
qed

lemma demo_no_NUL: "c_str demo_volume = demo_volume" "c_str demo_path = demo_path"
  by (simp_all add: c_str_def demo_volume_def demo_path_def NUL_def)

definition mon_name :: string where "mon_name = ''C:'' @ demo_path"

lemma mon_filename: "handle_filename (mon_ctx rsp r8) 4 = Inr (0x1000, 8, mon_name)"
proof -
  have "device_name (mon_ctx rsp r8) 0x1000 = demo_volume" "path_of_object (mon_ctx rsp r8) 0x1000 = demo_path"
  proof -
    have "hfm_read_addr (mon_ctx rsp r8) 0x1008 = 0x2000" "off (mon_ctx rsp r8) FILE_OBJECT__DEVICE_OBJECT = 8"
      "off (mon_ctx rsp r8) OBJECT_HEADER__BODY = 0x30" "sz (mon_ctx rsp r8) OBJECT_HEADER_NAME_INFO = 0x20"
      "off (mon_ctx rsp r8) OBJECT_HEADER_NAME_INFO__NAME = 0" "off (mon_ctx rsp r8) FILE_OBJECT__FILE_NAME = 0x30"
      by (simp_all add: mon_reads)
    then show "device_name (mon_ctx rsp r8) 0x1000 = demo_volume" "path_of_object (mon_ctx rsp r8) 0x1000 = demo_path"
      by (simp_all add: device_name_def path_of_object_def mon_unicode)
  qed
  moreover have "\<forall>d \<in> set (hd_drives (cx_hdlr (mon_ctx rsp r8))). length (win_name d) < BUFF"
    by (simp add: demo_lengths BUFF_def)
  ultimately have "hfm_read_filename_from_object (mon_ctx rsp r8) 0x1000 = Inr (8, mon_name)"
    by (simp add: read_filename_eq demo_no_NUL fits_buff_def BUFF_def demo_lengths mon_name_def)
  then show ?thesis by (simp add: handle_filename_def mon_fileobj)
qed

text \<open>Filters that hold one pattern.\<close>

lemma one_pattern:
  assumes "short_path s" and "split_path s = Some ps"
  shows "\<exists>f. filters_view (\<lambda>_. Some f) (\<lambda>_. [(ps, i)])"
  using ff.add_pattern [OF ff.init_view assms, of i] by (auto simp: filters_view_def MAX_PATTERNS_def)

lemma mon_name_path: "short_path mon_name" "split_path mon_name = Some [''C:'', ''f.txt'']" "mon_name \<noteq> []"
  "first_match [([''C:'', ''*''], 7)] [''C:'', ''f.txt''] = Inr 7"
  by code_simp+

lemma mon_filters: "\<exists>f. filters_view (\<lambda>_. Some f) (\<lambda>_. [([''C:'', ''*''], 7)])"
  by (rule one_pattern [of "''C:/*''"]) code_simp+

theorem write_reported_witness:
  "\<exists>f p fs'. run_callback mon_env0 None mon_console (mon_ctx 0xF000 0xF150) Modified_writefile None (\<lambda>_. Some f) = Some (Inr (p, fs', [])) \<and>
    run_callback mon_env0 None mon_console (mon_ctx 0xF008 0) Modified_writefile_ret p fs' =
      tbind (send_output mon_env0 mon_console (mon_ctx 0xF008 0) MON_MODIFY_CONTENT 7 mon_name [] 0x1000) (\<lambda>es. Some (Inr (None, fs', es)))"
proof -
  obtain f where f: "filters_view (\<lambda>_. Some f) (\<lambda>_. [([''C:'', ''*''], 7)])" using mon_filters by blast
  have h: "handle_filename (mon_ctx 0xF000 0xF150) (rg_rcx (cx_regs (mon_ctx 0xF000 0xF150))) = Inr (0x1000, 8, mon_name)"
    by (simp add: mon_filename)
  from write_reported [OF f _ mon_regs(7) h mon_name_path(3) _ mon_name_path(1,2,4), of mon_env0 None mon_console None]
  obtain p fs' where r: "run_callback mon_env0 None mon_console (mon_ctx 0xF000 0xF150) Modified_writefile None (\<lambda>_. Some f) = Some (Inr (p, fs', []))"
    "\<forall>ctx fs. run_callback mon_env0 None mon_console ctx Modified_writefile_ret p fs =
      (if 0 \<le> sint (ucast (rg_rax (cx_regs ctx)) :: u32)
       then tbind (send_output mon_env0 mon_console ctx MON_MODIFY_CONTENT 7 mon_name [] 0x1000) (\<lambda>es. Some (Inr (None, fs, es)))
       else Some (Inr (None, fs, [])))" by auto
  then show ?thesis by (intro exI [of _ f] exI [of _ p] exI [of _ fs']) simp
qed

theorem delete_reported_witness:
  "\<exists>f fs'. run_callback mon_env0 None mon_console (mon_ctx 0xF000 0xF150) Deleted_setinformation None (\<lambda>_. Some f) =
     tbind (send_output mon_env0 mon_console (mon_ctx 0xF000 0xF150) MON_DELETE 7 mon_name [] 0x1000) (\<lambda>es. Some (Inr (None, fs', es)))"
proof -
  obtain f where f: "filters_view (\<lambda>_. Some f) (\<lambda>_. [([''C:'', ''*''], 7)])" using mon_filters by blast
  have h: "handle_filename (mon_ctx 0xF000 0xF150) (rg_rcx (cx_regs (mon_ctx 0xF000 0xF150))) = Inr (0x1000, 8, mon_name)"
    by (simp add: mon_filename)
  have "hfm_read_32 (mon_ctx 0xF000 0xF150) 0xF028 = 13" "hfm_read_8 (mon_ctx 0xF000 0xF150) 0xF150 = 1"
    "off (mon_ctx 0xF000 0xF150) FILE_DISPOSITION_INFORMATION__DELETE_FILE = 0" by (simp_all add: mon_reads)
  with delete_reported [OF f _ mon_regs(7) h mon_name_path(1,2,4), of mon_env0 None mon_console None] show ?thesis by auto
qed

theorem attributes_reported_witness:
  "\<exists>f fs'. run_callback mon_env0 None mon_console (mon_ctx 0xF100 0xF150) Attr_setinformation None (\<lambda>_. Some f) =
     tbind (send_output mon_env0 mon_console (mon_ctx 0xF100 0xF150) MON_CHANGE_ATTR 7 mon_name [] 0) (\<lambda>es. Some (Inr (None, fs', es)))"
proof -
  obtain f where f: "filters_view (\<lambda>_. Some f) (\<lambda>_. [([''C:'', ''*''], 7)])" using mon_filters by blast
  have h: "handle_filename (mon_ctx 0xF100 0xF150) (rg_rcx (cx_regs (mon_ctx 0xF100 0xF150))) = Inr (0x1000, 8, mon_name)"
    by (simp add: mon_filename)
  have "hfm_read_32 (mon_ctx 0xF100 0xF150) 0xF128 = 4" "hfm_read_32 (mon_ctx 0xF100 0xF150) 0xF160 = 2"
    "off (mon_ctx 0xF100 0xF150) FILE_BASIC_INFORMATION__FILE_ATTRIBUTES = 0x10" by (simp_all add: mon_reads)
  with attributes_reported [OF f _ mon_regs(7) h mon_name_path(1,2,4), of mon_env0 None mon_console None] show ?thesis by auto
qed

section \<open>Names of create calls\<close>

lemma mon_object_names:
  "object_name (mon_ctx rsp r8) 0xF200 = demo_path" "object_name (mon_ctx rsp r8) 0xF300 = ''ab''"
  "hfm_read_64 (mon_ctx rsp r8) 0xF208 = 0" "hfm_read_64 (mon_ctx rsp r8) 0xF308 = 1"
  "off (mon_ctx rsp r8) OBJECT_ATTRIBUTES__ROOT_DIRECTORY = 8"
proof -
  have "hfm_read_addr (mon_ctx rsp r8) 0xF210 = 0x1030" "hfm_read_addr (mon_ctx rsp r8) 0xF310 = 0x1050"
    "off (mon_ctx rsp r8) OBJECT_ATTRIBUTES__OBJECT_NAME = 0x10" by (simp_all add: mon_reads)
  then show "object_name (mon_ctx rsp r8) 0xF200 = demo_path" "object_name (mon_ctx rsp r8) 0xF300 = ''ab''"
    by (simp_all add: object_name_def mon_unicode)
  show "hfm_read_64 (mon_ctx rsp r8) 0xF208 = 0" "hfm_read_64 (mon_ctx rsp r8) 0xF308 = 1"
    "off (mon_ctx rsp r8) OBJECT_ATTRIBUTES__ROOT_DIRECTORY = 8" by (simp_all add: mon_reads)
qed

lemma demo_path_plain: "\<not> strstr demo_path nt_prefix"
  by code_simp

theorem absolute_object_path_witness: "object_path (mon_ctx 0xF000 0xF200) 0xF200 = Inr (6, demo_path)"
  using absolute_object_path [of "mon_ctx 0xF000 0xF200" "0xF200"]
  by (simp add: mon_object_names demo_no_NUL fits_buff_def BUFF_def demo_lengths demo_path_plain)

text \<open>The name \<open>ab\<close>, opened by \<open>tool.exe\<close>, is taken for \<open>C:\bin\abol.exe\<close>.\<close>

theorem relative_object_path_witness:
  "object_path (mon_ctx 0xF000 0xF200) 0xF300 =
     Inr (9, ''C:'' @ [BACKSLASH] @ ''bin'' @ [BACKSLASH] @ ''abol.exe'')"
proof -
  let ?ctx = "mon_ctx 0xF000 0xF200"
  have a: "hfm_read_64 ?ctx (0xF300 + off ?ctx OBJECT_ATTRIBUTES__ROOT_DIRECTORY) \<noteq> 0"
    by (simp add: mon_object_names)
  have b: "hfm_read_addr ?ctx (hfm_get_current_process ?ctx + off ?ctx EPROCESS__PEB) \<noteq> 0"
    "hfm_read_addr ?ctx (hfm_read_addr ?ctx (hfm_get_current_process ?ctx + off ?ctx EPROCESS__PEB) +
       off ?ctx PEB__PROCESS_PARAMETERS) \<noteq> 0" "image_path_addr ?ctx = 0x1070"
    by (simp_all add: mon_process mon_reads image_path_addr_def)
  have p: "hfm_get_current_process ?ctx \<noteq> 0" by (simp add: mon_process)
  have i: "unicode_at ?ctx (image_path_addr ?ctx) = mon_image" by (simp add: b(3) mon_unicode)
  have s: "NUL \<notin> set mon_image" "length mon_image < 1024" "strrchr mon_image BACKSLASH = Some 6"
    "NUL \<notin> set ''ab''" by code_simp+
  have c: "take (6 + 1) mon_image @ ''ab'' @ drop (6 + 1 + length ''ab'') mon_image =
      ''C:'' @ [BACKSLASH] @ ''bin'' @ [BACKSLASH] @ ''abol.exe''" by code_simp
  have n: "\<not> strstr (''C:'' @ [BACKSLASH] @ ''bin'' @ [BACKSLASH] @ ''abol.exe'') nt_prefix" by code_simp
  have "object_path ?ctx 0xF300 = (let path = take (6 + 1) mon_image @ ''ab'' @ drop (6 + 1 + length ''ab'') mon_image in
    Inr (6 + 1 + length ''ab'', if strstr path nt_prefix then drop 4 path else path))"
    by (rule relative_object_path [OF a p b(1,2) i s(1,2,3) _ mon_object_names(2) s(4)]) simp_all
  then show ?thesis unfolding c Let_def using n by simp
qed

lemma demo_path_matched: "short_path demo_path" "split_path demo_path = Some [''f.txt'']"
  "first_match [([''*''], 7)] [''f.txt''] = Inr 7"
  by code_simp+

lemma mon_root_filter: "\<exists>f. filters_view (\<lambda>_. Some f) (\<lambda>_. [([''*''], 7)])"
  by (rule one_pattern [of "''/*''"]) code_simp+


section \<open>A record\<close>

lemma mon_sid: "hfm_get_process_sid (mon_ctx rsp r8) 0xB000 = Inr (sid_text [1, 5, 32, 544])"
proof -
  have up: "[0 ..< 6] = [0, 1, 2, 3, 4, 5 :: nat]" "[0 ..< 2] = [0, 1 :: nat]" by code_simp+
  have r: "hfm_read_8 (mon_ctx rsp r8) a = (if a = 0x5000 then 1 else if a = 0x5001 then 2 else if a = 0x5007 then 5
      else if a = 0xF150 then 1 else 0)" for a
    by (simp add: hfm_read_8_def mon_guest_def)
  have r32: "hfm_read_32 (mon_ctx rsp r8) 0x5008 = 32" "hfm_read_32 (mon_ctx rsp r8) 0x500C = 544"
    by (simp_all add: hfm_read_32_def mon_guest_def)
  have "unat (sid_authority (mon_ctx rsp r8) 0x5000) = 5"
    by (simp add: sid_authority_value up r)
  moreover have "sid_subs (mon_ctx rsp r8) 0x5000 = [32, 544]"
    by (simp add: sid_subs_def r r32 up)
  ultimately have "sid_numbers (mon_ctx rsp r8) 0x5000 = [1, 5, 32, 544]" by (simp add: sid_numbers_def r)
  then have "hfm_extract_sid SID_LEN (mon_ctx rsp r8) 0x5000 = Inr (Some (sid_text [1, 5, 32, 544]))"
    by (simp add: extract_sid_text sid_text_def show_nat.simps SID_LEN_def r)
  moreover have "hfm_read_addr (mon_ctx rsp r8) 0xB020 = 0xD000" "hfm_read_addr (mon_ctx rsp r8) 0xD000 = 0xE000"
    "hfm_read_addr (mon_ctx rsp r8) 0xE000 = 0x5000" "off (mon_ctx rsp r8) EPROCESS__TOKEN = 0x20"
    "off (mon_ctx rsp r8) TOKEN__USER_AND_GROUPS = 0" "off (mon_ctx rsp r8) SID_AND_ATTRIBUTES__SID = 0"
    by (simp_all add: mon_reads)
  ultimately show ?thesis by (simp add: hfm_get_process_sid_def Let_def)
qed

lemma process_base_sid: "hfm_get_process_sid (ctx\<lparr>cx_process_base := b\<rparr>) a = hfm_get_process_sid ctx a"
proof -
  have "hfm_read_8 (ctx\<lparr>cx_process_base := b\<rparr>) = hfm_read_8 ctx" "hfm_read_32 (ctx\<lparr>cx_process_base := b\<rparr>) = hfm_read_32 ctx"
    "hfm_read_addr (ctx\<lparr>cx_process_base := b\<rparr>) = hfm_read_addr ctx" "off (ctx\<lparr>cx_process_base := b\<rparr>) = off ctx"
    by (simp_all add: fun_eq_iff hfm_read_8_def hfm_read_32_def hfm_read_addr_def off_def)
  then show ?thesis by (simp only: hfm_get_process_sid_def hfm_extract_sid_def sid_authority_def)
qed

lemma mon_pid: "hfm_get_process_pid (mon_ctx rsp r8) 0xB000 = (4, (mon_ctx rsp r8)\<lparr>cx_process_base := 0xB000\<rparr>)"
proof -
  have "off ((mon_ctx rsp r8)\<lparr>cx_process_base := 0xB000\<rparr>) EPROCESS__UNIQUE_PROCESS_ID = 0x28"
    using mon_off(1) [of rsp r8 EPROCESS__UNIQUE_PROCESS_ID] by (simp add: off_def demo_offsets_def)
  then show ?thesis by (simp add: hfm_get_process_pid_def mon_guest_def)
qed

lemma mon_send:
  assumes "length name < STR_BUFF"
  shows "\<exists>es. send_output mon_env0 mon_console (mon_ctx rsp r8) action i name [] obj = Some (Inr es)"
proof -
  have "hfm_get_process_sid ((mon_ctx rsp r8)\<lparr>cx_process_base := 0xB000\<rparr>) 0xB000 = Inr (sid_text [1, 5, 32, 544])"
    by (simp add: process_base_sid mon_sid)
  moreover have "output_extract mon_env0 mon_console ctx action i obj = Some (Inr ([], []))" for ctx
  proof -
    have "config_get_int (me_config mon_env0) ''file-extract'' = 0" by code_simp
    then show ?thesis by (simp add: output_extract_def)
  qed
  ultimately show ?thesis
    using assms by (simp add: send_output_def mon_process mon_pid copy_str_def STR_BUFF_def out_write_def mon_console_def)
qed


end
