(* ===== verification/Monitor_Events.thy ===== *)
theory Monitor_Events
  imports Monitor_Props Hfm_Int3
begin

text \<open>
  The breakpoint event (\<open>_int3_cb\<close> of \<open>src/hfm.c\<close>) with the monitors of \<open>src/monitors\<close> as its
  callbacks: the entry of a system call leaves a trap on its return address with the parameters of
  the call, and the return reports the access and takes the trap away.
\<close>

section \<open>The program around a machine\<close>

text \<open>
  What a callback can change besides the traps: the static variables \<open>filter\<close> of the monitors, and
  what has been written. They are kept beside the world of the hypervisor, which libvmi changes.
\<close>

record 'h mon_world =
  mw_hyp :: 'h
  mw_lock :: bool
  mw_filters :: filters_t
  mw_effects :: "effect list"

definition on_hyp :: "('h \<Rightarrow> 'a \<times> 'h) \<Rightarrow> 'h mon_world \<Rightarrow> 'a \<times> 'h mon_world" where
  "on_hyp f w = (case f (mw_hyp w) of (x, h) \<Rightarrow> (x, w\<lparr>mw_hyp := h\<rparr>))"

definition lift_api :: "'h vmi_api \<Rightarrow> 'h mon_world vmi_api" where
  "lift_api api = \<lparr>
     vmi_read_8_pa = (\<lambda>pa. on_hyp (vmi_read_8_pa api pa)),
     vmi_write_8_pa = (\<lambda>pa b. on_hyp (vmi_write_8_pa api pa b)),
     vmi_read_pa = (\<lambda>pa n. on_hyp (vmi_read_pa api pa n)),
     vmi_write_pa = (\<lambda>pa bs. on_hyp (vmi_write_pa api pa bs)),
     vmi_slat_change_gfn = (\<lambda>idx gfn r. on_hyp (vmi_slat_change_gfn api idx gfn r)),
     vmi_set_mem_event = (\<lambda>gfn acc idx. on_hyp (vmi_set_mem_event api gfn acc idx)),
     xc_domain_setmaxmem = (\<lambda>m. on_hyp (xc_domain_setmaxmem api m)),
     xc_domain_increase_reservation_exact = (\<lambda>g w. case xc_domain_increase_reservation_exact api g (mw_hyp w) of
        (rc, g, h) \<Rightarrow> (rc, g, w\<lparr>mw_hyp := h\<rparr>)),
     xc_domain_populate_physmap_exact = (\<lambda>g w. case xc_domain_populate_physmap_exact api g (mw_hyp w) of
        (rc, g, h) \<Rightarrow> (rc, g, w\<lparr>mw_hyp := h\<rparr>)),
     xc_domain_decrease_reservation_exact = (\<lambda>f w. w\<lparr>mw_hyp := xc_domain_decrease_reservation_exact api f (mw_hyp w)\<rparr>),
     vmi_pause_vm = (\<lambda>w. w\<lparr>mw_hyp := vmi_pause_vm api (mw_hyp w)\<rparr>),
     vmi_resume_vm = (\<lambda>w. w\<lparr>mw_hyp := vmi_resume_vm api (mw_hyp w)\<rparr>),
     vmi_translate_ksym2v = (\<lambda>s w. vmi_translate_ksym2v api s (mw_hyp w)),
     vmi_translate_kv2p = (\<lambda>v w. vmi_translate_kv2p api v (mw_hyp w)),
     vmi_read_addr = (\<lambda>dtb a w. vmi_read_addr api dtb a (mw_hyp w)),
     vmi_pagetable_lookup = (\<lambda>dtb a w. vmi_pagetable_lookup api dtb a (mw_hyp w))\<rparr>"

text \<open>
  What the callbacks of one machine get from outside: the registers of an event other than \<open>rsp\<close>,
  the guest's memory in the address space \<open>cr3\<close>, and the arguments of \<open>run_callback\<close>.
\<close>

record 'h machine_t =
  mc_env :: "event_t \<Rightarrow> mon_env"
  mc_noret :: "params_t option"
  mc_out :: out_hdlr_t
  mc_win :: win_hdlr_t
  mc_regs :: "event_t \<Rightarrow> x86_registers_t"
  mc_guest :: "'h \<Rightarrow> u64 \<Rightarrow> guest_t"

text \<open>
  The context of the callbacks. One context serves all traps of an event; the only field a callback
  changes is \<open>process_base\<close>, the current process, which every callback of the event finds the same.
\<close>

definition event_context :: "'h machine_t \<Rightarrow> event_t \<Rightarrow> 'h \<Rightarrow> context_t" where
  "event_context m ev h =
     \<lparr>cx_regs = (mc_regs m ev)\<lparr>rg_rsp := r_rsp (e_regs ev)\<rparr>,
      cx_guest = mc_guest m h (r_cr3 (e_regs ev)), cx_hdlr = mc_win m, cx_process_base = 0\<rparr>"

text \<open>
  The mutex \<open>vmi_lock\<close> of the machine, which only its callbacks take: taking it while it is held
  waits for ever, and it must be held when it is given back.
\<close>

definition hfm_lock_and_get_vmi :: "'h mon_world \<Rightarrow> 'h mon_world result option" where
  "hfm_lock_and_get_vmi w = (if mw_lock w then None else Some (Inr (w\<lparr>mw_lock := True\<rparr>)))"

definition hfm_release_vmi :: "'h mon_world \<Rightarrow> 'h mon_world result" where
  "hfm_release_vmi w = (if mw_lock w then Inr (w\<lparr>mw_lock := False\<rparr>) else Inl NotLocked)"

text \<open>The callbacks that only answer null do not take it; the others do first and give it back last.\<close>

definition takes_lock :: "mon_cb \<Rightarrow> bool" where
  "takes_lock cb \<longleftrightarrow> cb \<notin> {Created_setinformation_ret, Deleted_setinformation_ret, Attr_setinformation_ret}"

text \<open>\<open>trap->cb (context)\<close>.\<close>

definition monitor_run_cb :: "'h machine_t \<Rightarrow> (mon_cb, params_t, 'h mon_world) run_cb" where
  "monitor_run_cb m cb p ev vm =
     tbind (Some (read_trap (vm_heap vm) p)) (\<lambda>trap.
     tbind (if takes_lock cb then hfm_lock_and_get_vmi (vm_world vm) else Some (Inr (vm_world vm))) (\<lambda>w.
     tbind (run_callback (mc_env m ev) (mc_noret m) (mc_out m) (event_context m ev (mw_hyp w)) cb
         (trap_extra trap) (mw_filters w)) (\<lambda>(extra, fs, es).
     tbind (let w = w\<lparr>mw_filters := fs, mw_effects := mw_effects w @ es\<rparr>
            in if takes_lock cb then Some (hfm_release_vmi w) else Some (Inr w)) (\<lambda>w.
       Some (Inr (extra, vm\<lparr>vm_world := w\<rparr>))))))"

definition monitored_int3 ::
  "'h vmi_api \<Rightarrow> 'h machine_t \<Rightarrow> freed_read \<Rightarrow> event_t \<Rightarrow> (mon_cb, params_t, 'h mon_world) vm_t \<Rightarrow>
   (event_rsp_t \<times> (mon_cb, params_t, 'h mon_world) vm_t) result option" where
  "monitored_int3 api m = int3_cb (lift_api api) (monitor_run_cb m)"

section \<open>What the pieces leave alone\<close>

lemma on_hyp_eq: "on_hyp f w = (x, w') \<longleftrightarrow> (\<exists>h. f (mw_hyp w) = (x, h) \<and> w' = w\<lparr>mw_hyp := h\<rparr>)"
  by (auto simp: on_hyp_def split: prod.splits)

text \<open>
  The operations of libvmi act on the hypervisor only: \<open>own\<close> is the rest of the world.
\<close>

definition own :: "'h mon_world \<Rightarrow> bool \<times> filters_t \<times> effect list" where
  "own w = (mw_lock w, mw_filters w, mw_effects w)"

lemma own_hyp [simp]: "own (w\<lparr>mw_hyp := h\<rparr>) = own w"
  by (simp add: own_def)

lemma lift_own:
  "vmi_read_8_pa (lift_api api) pa w = (t, w') \<Longrightarrow> own w' = own w"
  "vmi_write_8_pa (lift_api api) pa b w = (ok, w') \<Longrightarrow> own w' = own w"
  "vmi_read_pa (lift_api api) pa n w = (bs, w') \<Longrightarrow> own w' = own w"
  "vmi_write_pa (lift_api api) pa bs w = (n, w') \<Longrightarrow> own w' = own w"
  "vmi_slat_change_gfn (lift_api api) idx gfn r w = (ok, w') \<Longrightarrow> own w' = own w"
  "vmi_set_mem_event (lift_api api) gfn acc idx w = (ok, w') \<Longrightarrow> own w' = own w"
  "xc_domain_setmaxmem (lift_api api) m w = (rc, w') \<Longrightarrow> own w' = own w"
  "xc_domain_increase_reservation_exact (lift_api api) g w = (rc, g', w') \<Longrightarrow> own w' = own w"
  "xc_domain_populate_physmap_exact (lift_api api) g w = (rc, g', w') \<Longrightarrow> own w' = own w"
  by (auto simp: lift_api_def on_hyp_eq split: prod.splits)

lemma lift_decrease_own [simp]: "own (xc_domain_decrease_reservation_exact (lift_api api) g w) = own w"
  by (simp add: lift_api_def)

lemma alloc_own: "xen_alloc_shadow_frame (lift_api api) n w = (r, w') \<Longrightarrow> own w' = own w"
  by (auto simp: xen_alloc_shadow_frame_def split: prod.splits if_splits dest!: lift_own)

lemma create_shadow_page_own:
  "create_shadow_page (lift_api api) f vm = (r, vm') \<Longrightarrow> own (vm_world vm') = own (vm_world vm)"
  by (auto simp: create_shadow_page_def Let_def split: prod.splits if_splits dest!: lift_own alloc_own)

lemma ensure_shadow_own:
  "ensure_shadow (lift_api api) f vm = Inr (r, vm') \<Longrightarrow> own (vm_world vm') = own (vm_world vm)"
  by (auto simp: ensure_shadow_def rbind_eq_Inr split: option.splits prod.splits if_splits
      dest!: create_shadow_page_own)

lemma ensure_memtrap_own [simp]:
  "own (vm_world (ensure_memtrap (lift_api api) f vm)) = own (vm_world vm)"
  by (auto simp: ensure_memtrap_def Let_def split: prod.splits dest!: lift_own)

lemma set_int3_own:
  "set_int3 (lift_api api) r pa vm = (d, vm') \<Longrightarrow> own (vm_world vm') = own (vm_world vm)"
  by (auto simp: set_int3_def Let_def split: prod.splits option.splits if_splits dest!: lift_own)

lemma register_trap_world: "register_trap p pa d vm = Inr (ok, vm') \<Longrightarrow> vm_world vm' = vm_world vm"
  by (auto simp: register_trap_def rbind_eq_Inr)

lemma inject_trap_own:
  assumes "inject_trap (lift_api api) p vm = Inr (ok, vm')"
  shows "own (vm_world vm') = own (vm_world vm)"
proof -
  obtain pa where pa: "read_pa (vm_heap vm) p = Inr pa"
    using assms by (auto simp: inject_trap_def rbind_eq_Inr)
  show ?thesis
  proof (cases "tm_trap_exist (vm_tm vm) pa")
    case True
    then show ?thesis using assms register_trap_world by (fastforce simp: inject_trap_def pa)
  next
    case False
    obtain r vm1 where e: "ensure_shadow (lift_api api) (frame_of pa) vm = Inr (r, vm1)"
      using assms False by (auto simp: inject_trap_def pa Let_def rbind_eq_Inr)
    obtain d vm3 where s: "set_int3 (lift_api api) r pa (ensure_memtrap (lift_api api) (frame_of pa) vm1) = (d, vm3)"
      by fastforce
    show ?thesis
      using assms False register_trap_world [of p pa d vm3 ok vm'] ensure_shadow_own [OF e] set_int3_own [OF s]
      by (cases d) (auto simp: inject_trap_def pa e s Let_def)
  qed
qed

lemma remove_int3_own:
  "remove_int3 (lift_api api) pa vm = Inr vm' \<Longrightarrow> own (vm_world vm') = own (vm_world vm)"
  by (auto simp: remove_int3_def split: prod.splits option.splits dest!: lift_own)

lemma drop_trap_own:
  "drop_trap (lift_api api) p vm = Inr vm' \<Longrightarrow> own (vm_world vm') = own (vm_world vm)"
  by (auto simp: drop_trap_def rbind_eq_Inr split: if_splits dest!: remove_int3_own)

lemma reapply_traps_own:
  "reapply_traps (lift_api api) r pas vm = Inr (ok, vm') \<Longrightarrow> own (vm_world vm') = own (vm_world vm)"
proof (induction pas arbitrary: vm)
  case (Cons pa pas)
  obtain t w where 1: "vmi_read_8_pa (lift_api api) pa (vm_world vm) = (t, w)" by fastforce
  obtain k u where 2: "vmi_write_8_pa (lift_api api) (push_bit 12 r + (pa AND mask 12)) INT3_CHAR w = (k, u)"
    by fastforce
  note own = lift_own(1) [OF 1] lift_own(2) [OF 2]
  show ?case
    using Cons.prems own
    by (auto simp: 1 2 rbind_eq_Inr split: option.splits if_splits dest!: Cons.IH)
qed simp

lemma recopy_page_own:
  "recopy_page (lift_api api) pass vm = Inr (ok, vm') \<Longrightarrow> own (vm_world vm') = own (vm_world vm)"
  by (auto simp: recopy_page_def Let_def split: option.splits prod.splits if_splits
      dest!: lift_own reapply_traps_own)

lemma save_regs_world: "save_regs ev vm = Inr vm' \<Longrightarrow> vm_world vm' = vm_world vm"
  by (auto simp: save_regs_def rbind_eq_Inr)

lemma arm_step_world: "arm_step n cb vm = Inr vm' \<Longrightarrow> vm_world vm' = vm_world vm"
  by (auto simp: arm_step_def rbind_eq_Inr split: option.splits)

lemma post_mem_cb_own:
  assumes "post_mem_cb (lift_api api) ev pass vm = Inr (r, vm')"
  shows "own (vm_world vm') = own (vm_world vm)"
proof -
  obtain vm1 ok vm2 where 1: "save_regs ev vm = Inr vm1"
    and 2: "(if pass_traps pass \<noteq> [] then recopy_page (lift_api api) pass vm1 else Inr (True, vm1)) = Inr (ok, vm2)"
    and 3: "(if \<not> ok then Inr (no_response, vm2\<lparr>vm_interrupted := - 1\<rparr>)
       else rbind (arm_step (e_vcpu ev) Singlestep_cb vm2) (\<lambda>vm.
         Inr (\<lparr>rsp_toggle = True, rsp_slat = Some (vm_altp2m_idx vm), rsp_reinject = None\<rparr>, vm))) = Inr (r, vm')"
    using assms unfolding post_mem_cb_def by (auto simp only: rbind_eq_Inr prod.case split_paired_Ex)
  have "own (vm_world vm2) = own (vm_world vm1)"
    using 2 by (auto split: if_splits dest!: recopy_page_own)
  moreover have "vm_world vm' = vm_world vm2"
    using 3 by (auto simp: rbind_eq_Inr split: if_splits dest!: arm_step_world)
  ultimately show ?thesis using save_regs_world [OF 1] by simp
qed

section \<open>The lock is free between the callbacks\<close>

lemma monitor_run_cb_free:
  assumes "\<not> mw_lock (vm_world vm)"
  shows "monitor_run_cb m cb p ev vm =
     tbind (Some (read_trap (vm_heap vm) p)) (\<lambda>trap.
     tbind (run_callback (mc_env m ev) (mc_noret m) (mc_out m) (event_context m ev (mw_hyp (vm_world vm))) cb
         (trap_extra trap) (mw_filters (vm_world vm))) (\<lambda>(extra, fs, es).
       Some (Inr (extra, vm\<lparr>vm_world := (vm_world vm)
         \<lparr>mw_filters := fs, mw_effects := mw_effects (vm_world vm) @ es\<rparr>\<rparr>))))"
  using assms
  by (auto simp: monitor_run_cb_def hfm_lock_and_get_vmi_def hfm_release_vmi_def tbind_def Let_def
      split: option.split sum.split)

lemma monitor_run_cb_lock:
  "monitor_run_cb m cb p ev vm = Some (Inr (x, vm')) \<Longrightarrow> \<not> mw_lock (vm_world vm) \<Longrightarrow> \<not> mw_lock (vm_world vm')"
  by (auto simp: monitor_run_cb_free tbind_eq_Inr)

lemma own_lock: "own w' = own w \<Longrightarrow> mw_lock w' = mw_lock w"
  by (simp add: own_def)

lemma monitor_cb_frame: "cb_frame (monitor_run_cb m)"
  by (auto simp: cb_frame_def monitor_run_cb_def tbind_eq_Inr)

lemma inject_return_trap_own:
  assumes "inject_return_trap (lift_api api) ev t x vm = Inr vm'"
  shows "own (vm_world vm') = own (vm_world vm)"
  using assms
  by (auto simp: inject_return_trap_def alloc_trap_def Let_def rbind_eq_Inr split: option.splits if_splits
      dest!: inject_trap_own)

lemma int3_node_lock:
  assumes "\<not> mw_lock (vm_world vm)"
    and "int3_node (lift_api api) (monitor_run_cb m) ev pa i vm = Some (Inr (Some (freed, vm')))"
  shows "\<not> mw_lock (vm_world vm')"
proof -
  obtain p vm1 where r: "run_trap_cb (lift_api api) (monitor_run_cb m) ev p vm = Some (Inr vm1)"
    and d: "drop_trap (lift_api api) p vm1 = Inr vm' \<or> vm' = vm1"
    using assms(2) by (auto simp: int3_node_def Let_def tbind_eq_Inr rbind_eq_Inr split: if_splits)
  have "\<not> mw_lock (vm_world vm1)"
    using r assms(1) monitor_run_cb_lock [of m]
    by (auto simp: run_trap_cb_def tbind_eq_Inr rbind_eq_Inr split: option.splits if_splits
        dest!: inject_return_trap_own own_lock)
  then show ?thesis using d drop_trap_own own_lock by metis
qed

lemma vcpu_step_lock:
  assumes "vcpu_step (lift_api api) (monitor_run_cb m) fr n (v, vm) (v', vm')" and "\<not> mw_lock (vm_world vm)"
  shows "\<not> mw_lock (vm_world vm')"
  using assms(1)
proof cases
  case (Breakpoint ev r)
  then obtain vm1 where s: "save_regs ev vm = Inr vm1"
    by (auto simp: int3_cb_def split: sum.splits)
  then have w: "\<not> mw_lock (vm_world vm1)" using assms(2) by (auto simp: save_regs_def rbind_eq_Inr)
  show ?thesis
  proof (cases "tm_int3traps_at_pa (vm_tm vm1) (int3_pa ev) = []")
    case True
    then show ?thesis
      using Breakpoint s w by (auto simp: int3_cb_def Let_def split: prod.splits option.splits dest!: lift_own own_lock)
  next
    case False
    then obtain vm2 where l: "int3_loop (lift_api api) (monitor_run_cb m) fr ev (int3_pa ev) 0 vm1 = Some (Inr vm2)"
      and "vm_world vm' = vm_world vm2"
      using Breakpoint s by (auto simp: int3_cb_def Let_def rbind_eq_Inr arm_step_def split: sum.splits option.splits)
    moreover have "\<not> mw_lock (vm_world vm2)"
      by (rule int3_loop_inv [OF l, where P = "\<lambda>vm. \<not> mw_lock (vm_world vm)"]) (fact w, rule int3_node_lock)
    ultimately show ?thesis by simp
  qed
next
  case (Mem_access ev r)
  then show ?thesis
    using assms(2) by (auto simp: pre_mem_cb_def save_regs_def arm_step_def Let_def rbind_eq_Inr split: if_splits option.splits)
next
  case (Stepped ev r)
  then obtain cb where "arr_get (vm_step vm) (int (e_vcpu ev)) = Inr (Some cb)"
    by (auto simp: step_event_def rbind_eq_Inr split: option.splits)
  then show ?thesis
    using Stepped assms(2) by (cases cb) (auto simp: step_event_def dest!: post_mem_cb_own own_lock)
qed

end
