(* ===== verification/Monitor_Calls.thy ===== *)
theory Monitor_Calls
  imports Monitor_Events
begin

text \<open>
  A system call from its entry to its return: what the trap on its entry does to the tables, what the
  trap on its return address does, and what the monitors report in between.
\<close>

section \<open>The traps at an address\<close>

lemma register_trap_traps:
  assumes "register_trap p pa d vm = Inr (ok, vm')" and "pa = pa_of (vm_heap vm) p"
  shows "ok \<and> vm_heap vm' = vm_heap vm \<and>
    tm_int3traps_at_pa (vm_tm vm') x = tm_int3traps_at_pa (vm_tm vm) x @ (if x = pa then [p] else [])"
  using assms
  by (auto simp: register_trap_def tm_add_int3trap_def tm_set_doubletrap_def read_pa_Inr rbind_eq_Inr
      tm_int3traps_at_pa_def Let_def split: option.splits if_splits)

lemma inject_trap_traps:
  assumes "inject_trap api p vm = Inr (ok, vm')"
  shows "vm_heap vm' = vm_heap vm"
    and "tm_int3traps_at_pa (vm_tm vm') x =
      tm_int3traps_at_pa (vm_tm vm) x @ (if ok \<and> x = pa_of (vm_heap vm) p then [p] else [])"
proof -
  let ?pa = "pa_of (vm_heap vm) p"
  have pa: "read_pa (vm_heap vm) p = Inr ?pa"
    using assms by (auto simp: inject_trap_def rbind_eq_Inr read_pa_Inr)
  have "vm_heap vm' = vm_heap vm \<and> tm_int3traps_at_pa (vm_tm vm') x =
      tm_int3traps_at_pa (vm_tm vm) x @ (if ok \<and> x = ?pa then [p] else [])"
  proof (cases "tm_trap_exist (vm_tm vm) ?pa")
    case True
    then have "register_trap p ?pa None vm = Inr (ok, vm')" using assms by (simp add: inject_trap_def pa)
    from register_trap_traps [OF this refl] show ?thesis by simp
  next
    case False
    obtain r vm1 where e: "ensure_shadow api (frame_of ?pa) vm = Inr (r, vm1)"
      using assms False by (auto simp: inject_trap_def pa Let_def rbind_eq_Inr)
    obtain d vm3 where s: "set_int3 api r ?pa (ensure_memtrap api (frame_of ?pa) vm1) = (d, vm3)" by fastforce
    have h: "vm_heap vm1 = vm_heap vm" using ensure_shadow_ok [of api "frame_of ?pa" vm] e by simp
    have 3: "vm_heap vm3 = vm_heap vm \<and> breakpoint_tbl (vm_tm vm3) = breakpoint_tbl (vm_tm vm)"
      using set_int3_tm [OF s] ensure_shadow_bp [OF e] h by simp
    show ?thesis
    proof (cases d)
      case None
      then show ?thesis
        using assms False 3 by (simp add: inject_trap_def pa e s Let_def tm_int3traps_at_pa_def)
    next
      case (Some b)
      then have "register_trap p ?pa (Some b) vm3 = Inr (ok, vm')"
        using assms False by (simp add: inject_trap_def pa e s Let_def)
      from register_trap_traps [OF this] 3 show ?thesis by (simp add: tm_int3traps_at_pa_def)
    qed
  qed
  then show "vm_heap vm' = vm_heap vm"
    and "tm_int3traps_at_pa (vm_tm vm') x =
      tm_int3traps_at_pa (vm_tm vm) x @ (if ok \<and> x = ?pa then [p] else [])" by simp_all
qed

text \<open>A frame that has a shadow keeps it.\<close>

lemma tm_add_int3trap_remapped: "tm_add_int3trap h tm p = Inr tm' \<Longrightarrow> remapped_tbl tm' = remapped_tbl tm"
  by (auto simp: tm_add_int3trap_def rbind_eq_Inr Let_def)

lemma tm_set_doubletrap_remapped: "tm_set_doubletrap tm pa b = Inr tm' \<Longrightarrow> remapped_tbl tm' = remapped_tbl tm"
  by (auto simp: tm_set_doubletrap_def split: option.splits)

lemma register_trap_remapped:
  "register_trap p pa d vm = Inr (ok, vm') \<Longrightarrow> remapped_tbl (vm_tm vm') = remapped_tbl (vm_tm vm)"
  by (cases d) (auto simp: register_trap_def rbind_eq_Inr
      dest!: tm_add_int3trap_remapped tm_set_doubletrap_remapped)

lemma ensure_shadow_remapped:
  assumes "ensure_shadow api f vm = Inr (r, vm')" and "remapped_tbl (vm_tm vm) g = Some rm"
  shows "remapped_tbl (vm_tm vm') g = Some rm"
  using assms create_shadow_page_frame [of api f vm]
  by (auto simp: ensure_shadow_def tm_find_remapped_def tm_add_remapped_def rbind_eq_Inr
      split: option.splits prod.splits if_splits)

lemma inject_trap_remapped:
  assumes "inject_trap api p vm = Inr (ok, vm')" and "remapped_tbl (vm_tm vm) g = Some rm"
  shows "remapped_tbl (vm_tm vm') g = Some rm"
proof -
  obtain pa where pa: "read_pa (vm_heap vm) p = Inr pa"
    using assms by (auto simp: inject_trap_def rbind_eq_Inr)
  show ?thesis
  proof (cases "tm_trap_exist (vm_tm vm) pa")
    case True
    then show ?thesis using assms register_trap_remapped by (fastforce simp: inject_trap_def pa)
  next
    case False
    obtain r vm1 where e: "ensure_shadow api (frame_of pa) vm = Inr (r, vm1)"
      using assms False by (auto simp: inject_trap_def pa Let_def rbind_eq_Inr)
    obtain d vm3 where s: "set_int3 api r pa (ensure_memtrap api (frame_of pa) vm1) = (d, vm3)" by fastforce
    have "remapped_tbl (vm_tm (ensure_memtrap api (frame_of pa) vm1)) = remapped_tbl (vm_tm vm1)"
      by (simp add: ensure_memtrap_def tm_add_memtrap_def Let_def split: prod.splits option.splits)
    then have "remapped_tbl (vm_tm vm3) g = Some rm"
      using set_int3_tm [OF s] ensure_shadow_remapped [OF e assms(2)] by simp
    then show ?thesis
      using assms(1) False register_trap_remapped [of p pa d vm3 ok vm']
      by (cases d) (auto simp: inject_trap_def pa e s Let_def)
  qed
qed

text \<open>Bytes of the guest's memory can be read and written.\<close>

definition memory_works :: "'w vmi_api \<Rightarrow> bool" where
  "memory_works api \<longleftrightarrow> (\<forall>pa w. fst (vmi_read_8_pa api pa w) \<noteq> None) \<and>
     (\<forall>pa b w. fst (vmi_write_8_pa api pa b w))"

lemma memory_works_read:
  assumes "memory_works api"
  obtains b u where "vmi_read_8_pa api pa w = (Some b, u)"
proof -
  have "fst (vmi_read_8_pa api pa w) \<noteq> None" using assms by (simp add: memory_works_def)
  then show thesis using that by (cases "vmi_read_8_pa api pa w") auto
qed

lemma memory_works_write:
  assumes "memory_works api"
  obtains u where "vmi_write_8_pa api pa b w = (True, u)"
proof -
  have "fst (vmi_write_8_pa api pa b w)" using assms by (simp add: memory_works_def)
  then show thesis using that by (cases "vmi_write_8_pa api pa b w") auto
qed

lemma memory_works_lift:
  assumes "memory_works api"
  shows "memory_works (lift_api api)"
proof -
  have "fst (vmi_read_8_pa (lift_api api) pa w) \<noteq> None" for pa w
    by (rule memory_works_read [OF assms, of pa "mw_hyp w"]) (simp add: lift_api_def on_hyp_def)
  moreover have "fst (vmi_write_8_pa (lift_api api) pa b w)" for pa b w
    by (rule memory_works_write [OF assms, of pa b "mw_hyp w"]) (simp add: lift_api_def on_hyp_def)
  ultimately show ?thesis by (simp add: memory_works_def)
qed

lemma memory_works_set_int3:
  assumes "memory_works api"
  shows "fst (set_int3 api r pa vm) \<noteq> None"
proof -
  obtain b u where 1: "vmi_read_8_pa api pa (vm_world vm) = (Some b, u)" by (rule memory_works_read [OF assms])
  obtain x where "vmi_write_8_pa api (push_bit PAGE_OFFSET_BITS r + pa mod PAGESIZE) INT3_CHAR u = (True, x)"
    by (rule memory_works_write [OF assms])
  with 1 show ?thesis by (simp add: set_int3_def Let_def)
qed

text \<open>A trap that destroys itself and is alone at its address goes away with its breakpoint.\<close>

lemma drop_last_trap:
  assumes "memory_works api" and "tm_int3traps_at_pa (vm_tm vm) pa = [q]" and "vm_heap vm q = Some t"
    and "trap_pa t = pa" and "tm_find_remapped (vm_tm vm) (frame_of pa) \<noteq> None"
  shows "\<exists>vm'. drop_trap api q vm = Inr vm' \<and> vm_heap vm' = (vm_heap vm)(q := None) \<and>
    breakpoint_tbl (vm_tm vm') = (breakpoint_tbl (vm_tm vm))(pa := None)"
proof -
  obtain w where w: "breakpoint_tbl (vm_tm vm) pa = Some w" "w_traps w = [q]"
    using assms(2) by (auto simp: tm_int3traps_at_pa_def split: option.splits)
  have pa: "read_pa (vm_heap vm) q = Inr pa" using assms(3,4) by (simp add: read_pa_def)
  obtain tm where r: "tm_remove_int3trap (vm_heap vm) (vm_tm vm) q = Inr (tm, 0)"
    and tm: "breakpoint_tbl tm = (breakpoint_tbl (vm_tm vm))(pa := None)" "remapped_tbl tm = remapped_tbl (vm_tm vm)"
    using w by (simp add: tm_remove_int3trap_def pa Let_def)
  obtain b u where 1: "vmi_read_8_pa api pa (vm_world vm) = (Some b, u)" by (rule memory_works_read [OF assms(1)])
  obtain rm where 2: "remapped_tbl (vm_tm vm) (frame_of pa) = Some rm"
    using assms(5) by (auto simp: tm_find_remapped_def)
  obtain x where 3: "vmi_write_8_pa api (push_bit PAGE_OFFSET_BITS (rm_r rm) + (pa AND mask 12)) b u = (True, x)"
    by (rule memory_works_write [OF assms(1)])
  show ?thesis
    using assms(3)
    by (simp add: drop_trap_def r pa remove_int3_def 1 2 3 tm_find_remapped_def free_trap_def tm)
qed

section \<open>One trap at an address\<close>

text \<open>
  The entry of a call: its trap runs the callback, which leaves \<open>x\<close>, and a trap with \<open>x\<close> is
  put on the return address.
\<close>

lemma single_trap_entry:
  assumes ready: "cpu_ready (e_vcpu ev) idx vm" and mw: "memory_works api"
    and traps: "tm_int3traps_at_pa (vm_tm vm) (int3_pa ev) = [p]"
    and t: "vm_heap vm p = Some t" "trap_cb t = Some cb" "trap_ret_cb t = Some rc" "\<not> self_destroy t"
      "length (trap_name t) < 1017"
    and cb: "run_cb cb p ev (vm\<lparr>vm_regs := (vm_regs vm)[e_vcpu ev := Some (e_regs ev)]\<rparr>) = Some (Inr (Some x, vm1))"
    and vm1: "vm_tm vm1 = vm_tm vm" "vm_heap vm1 = vm_heap vm" "vm_fresh vm1 = vm_fresh vm" "vm_step vm1 = vm_step vm"
    and fresh: "p \<noteq> vm_fresh vm"
    and ret: "vmi_read_addr api (r_cr3 (e_regs ev)) (r_rsp (e_regs ev)) (vm_world vm1) = Some ret"
      "pa = vmi_pagetable_lookup api (r_cr3 (e_regs ev)) ret (vm_world vm1)" "pa \<noteq> int3_pa ev"
    and frame: "cpu_same (vm\<lparr>vm_regs := (vm_regs vm)[e_vcpu ev := Some (e_regs ev)]\<rparr>) vm1"
  shows "\<exists>r vm2 vm3. inject_return_trap api ev t x vm1 = Inr vm2 \<and> int3_cb api run_cb fr ev vm = Some (Inr (r, vm3)) \<and>
    vm_world vm3 = vm_world vm2 \<and>
    vm_heap vm3 = (vm_heap vm)(vm_fresh vm \<mapsto> \<lparr>trap_name = trap_name t @ ''_return'', trap_cb = Some rc,
      trap_ret_cb = None, trap_pa = pa, self_destroy = True, trap_extra = Some x\<rparr>) \<and>
    (\<forall>a. tm_int3traps_at_pa (vm_tm vm3) a =
      tm_int3traps_at_pa (vm_tm vm) a @ (if a = pa then [vm_fresh vm] else [])) \<and>
    (\<forall>f rm. remapped_tbl (vm_tm vm) f = Some rm \<longrightarrow> remapped_tbl (vm_tm vm3) f = Some rm)"
proof -
  let ?vm = "vm\<lparr>vm_regs := (vm_regs vm)[e_vcpu ev := Some (e_regs ev)]\<rparr>"
  let ?t = "\<lparr>trap_name = trap_name t @ ''_return'', trap_cb = Some rc,
      trap_ret_cb = None, trap_pa = pa, self_destroy = True, trap_extra = Some x\<rparr>"
  let ?a = "vm1\<lparr>vm_heap := (vm_heap vm1)(vm_fresh vm1 \<mapsto> ?t), vm_fresh := vm_fresh vm1 + 1\<rparr>"
  have "vm_heap ?a (vm_fresh vm1) \<noteq> None" by simp
  from inject_trap_returns [OF this, of api] memory_works_set_int3 [OF mw]
  obtain vm2 where i: "inject_trap api (vm_fresh vm1) ?a = Inr (True, vm2)" by fastforce
  have rt: "inject_return_trap api ev t x vm1 = Inr vm2"
    using i t(3,5) ret(1) by (simp add: inject_return_trap_def Let_def alloc_trap_def ret(2))
  note tr = inject_trap_traps [OF i]
  have rm2: "remapped_tbl (vm_tm vm) f = Some rm \<Longrightarrow> remapped_tbl (vm_tm vm2) f = Some rm" for f rm
    using inject_trap_remapped [OF i] vm1 by simp
  have h2: "vm_heap vm2 = (vm_heap vm)(vm_fresh vm \<mapsto> ?t)" using tr(1) vm1 by simp
  have t2: "tm_int3traps_at_pa (vm_tm vm2) a =
      tm_int3traps_at_pa (vm_tm vm) a @ (if a = pa then [vm_fresh vm] else [])" for a
    using tr(2) [of a] vm1 by (simp add: pa_of_def)
  have "run_trap_cb api run_cb ev p ?vm = Some (Inr vm2)"
    using t cb rt vm1 by (simp add: run_trap_cb_def read_trap_def)
  then have n0: "int3_node api run_cb ev (int3_pa ev) 0 ?vm = Some (Inr (Some (False, vm2)))"
    using traps t fresh by (simp add: int3_node_def Let_def read_trap_def h2)
  have n1: "int3_node api run_cb ev (int3_pa ev) (Suc 0) vm2 = Some (Inr None)"
    using traps t2 ret(3) by (simp add: int3_node_def Let_def)
  have l1: "int3_loop api run_cb fr ev (int3_pa ev) (Suc 0) vm2 = Some (Inr vm2)"
    by (subst int3_loop.simps) (simp add: n1)
  have l0: "int3_loop api run_cb fr ev (int3_pa ev) 0 ?vm = Some (Inr vm2)"
    by (subst int3_loop.simps) (simp add: n0 l1)
  obtain wr where wr: "breakpoint_tbl (vm_tm vm) (int3_pa ev) = Some wr"
    using traps by (auto simp: tm_int3traps_at_pa_def split: option.splits)
  have s: "save_regs ev vm = Inr ?vm"
    using ready by (intro save_regs_ok) (auto simp: cpu_ready_def)
  have "cpu_ready (e_vcpu ev) idx vm2"
    using cpu_ready_regs [OF ready] frame inject_return_trap_cpu [OF rt] cpu_ready_same by blast
  from arm_step_ready [OF this, of Singlestep_cb] show ?thesis
    using rt s l0 wr traps h2 t2 rm2
    by (simp add: int3_cb_def Let_def tm_check_doubletrap_def del: fun_upd_apply)
qed

text \<open>The return of a call: the trap runs its callback and goes away.\<close>

lemma single_trap_return:
  assumes ready: "cpu_ready (e_vcpu ev) idx vm" and mw: "memory_works api" and fr: "fr \<noteq> Undefined"
    and traps: "tm_int3traps_at_pa (vm_tm vm) (int3_pa ev) = [q]"
    and t: "vm_heap vm q = Some t" "trap_cb t = Some cb" "trap_ret_cb t = None" "self_destroy t"
      "trap_pa t = int3_pa ev"
    and cb: "run_cb cb q ev (vm\<lparr>vm_regs := (vm_regs vm)[e_vcpu ev := Some (e_regs ev)]\<rparr>) = Some (Inr (y, vm1))"
    and vm1: "vm_tm vm1 = vm_tm vm" "vm_heap vm1 = vm_heap vm"
    and shadow: "tm_find_remapped (vm_tm vm) (frame_of (int3_pa ev)) \<noteq> None"
    and frame: "cpu_same (vm\<lparr>vm_regs := (vm_regs vm)[e_vcpu ev := Some (e_regs ev)]\<rparr>) vm1"
  shows "\<exists>r vm2 vm3. drop_trap api q vm1 = Inr vm2 \<and> int3_cb api run_cb fr ev vm = Some (Inr (r, vm3)) \<and>
    vm_world vm3 = vm_world vm2 \<and> vm_heap vm3 = (vm_heap vm)(q := None) \<and>
    (\<forall>a. tm_int3traps_at_pa (vm_tm vm3) a =
      (if a = int3_pa ev then [] else tm_int3traps_at_pa (vm_tm vm) a))"
proof -
  let ?vm = "vm\<lparr>vm_regs := (vm_regs vm)[e_vcpu ev := Some (e_regs ev)]\<rparr>"
  obtain vm2 where d: "drop_trap api q vm1 = Inr vm2" "vm_heap vm2 = (vm_heap vm)(q := None)"
    "breakpoint_tbl (vm_tm vm2) = (breakpoint_tbl (vm_tm vm))(int3_pa ev := None)"
    using drop_last_trap [OF mw, of vm1 "int3_pa ev" q t] traps t vm1 shadow by auto
  have "run_trap_cb api run_cb ev q ?vm = Some (Inr vm1)"
    using t cb vm1 by (cases y) (simp_all add: run_trap_cb_def read_trap_def)
  then have n0: "int3_node api run_cb ev (int3_pa ev) 0 ?vm = Some (Inr (Some (True, vm2)))"
    using traps t d(1) vm1 by (simp add: int3_node_def Let_def read_trap_def)
  have "int3_node api run_cb ev (int3_pa ev) 0 vm2 = Some (Inr None)"
    by (simp add: int3_node_def Let_def tm_int3traps_at_pa_def d(3))
  then have l1: "int3_loop api run_cb fr ev (int3_pa ev) 0 vm2 = Some (Inr vm2)"
    by (subst int3_loop.simps) simp
  have l0: "int3_loop api run_cb fr ev (int3_pa ev) 0 ?vm = Some (Inr vm2)"
    by (subst int3_loop.simps) (use fr l1 in \<open>cases fr; simp add: n0\<close>)
  obtain wr where wr: "breakpoint_tbl (vm_tm vm) (int3_pa ev) = Some wr"
    using traps by (auto simp: tm_int3traps_at_pa_def split: option.splits)
  have s: "save_regs ev vm = Inr ?vm"
    using ready by (intro save_regs_ok) (auto simp: cpu_ready_def)
  have "cpu_ready (e_vcpu ev) idx vm2"
    using cpu_ready_regs [OF ready] frame drop_trap_cpu [OF d(1)] cpu_ready_same by blast
  from arm_step_ready [OF this, of Singlestep_cb] show ?thesis
    using d s l0 wr traps
    by (simp add: int3_cb_def Let_def tm_check_doubletrap_def tm_int3traps_at_pa_def del: fun_upd_apply)
      (simp add: tm_int3traps_at_pa_def)
qed

section \<open>A call from its entry to its return\<close>

text \<open>
  The state of a machine whose CPU \<open>n\<close> is about to hit a breakpoint: the CPU's callbacks are armed,
  and no callback is running.
\<close>

definition quiet :: "nat \<Rightarrow> (mon_cb, params_t, 'h mon_world) vm_t \<Rightarrow> bool" where
  "quiet n vm \<longleftrightarrow> (\<exists>idx. cpu_ready n idx vm) \<and> \<not> mw_lock (vm_world vm)"

text \<open>The trap that is put on a return address, with the parameters of its call.\<close>

definition return_trap ::
  "mon_cb \<Rightarrow> params_t \<Rightarrow> u64 \<Rightarrow> tptr \<Rightarrow> (mon_cb, params_t, 'h mon_world) vm_t \<Rightarrow> bool" where
  "return_trap cb x pa q vm \<longleftrightarrow> tm_int3traps_at_pa (vm_tm vm) pa = [q] \<and>
     (\<exists>t. vm_heap vm q = Some t \<and> trap_cb t = Some cb \<and> trap_ret_cb t = None \<and> self_destroy t \<and>
       trap_pa t = pa \<and> trap_extra t = Some x)"

lemma call_entry:
  assumes "quiet (e_vcpu ev) vm" and "memory_works api"
    and "tm_int3traps_at_pa (vm_tm vm) (int3_pa ev) = [p]"
    and "vm_heap vm p = Some t" and "trap_cb t = Some cb" and "trap_ret_cb t = Some rc" and "\<not> self_destroy t"
    and "length (trap_name t) < 1017" and "p \<noteq> vm_fresh vm"
    and ret: "vmi_read_addr api (r_cr3 (e_regs ev)) (r_rsp (e_regs ev)) (mw_hyp (vm_world vm)) = Some ret"
      "pa = vmi_pagetable_lookup api (r_cr3 (e_regs ev)) ret (mw_hyp (vm_world vm))"
      "tm_int3traps_at_pa (vm_tm vm) pa = []"
    and run: "run_callback (mc_env m ev) (mc_noret m) (mc_out m) (event_context m ev (mw_hyp (vm_world vm)))
      cb (trap_extra t) (mw_filters (vm_world vm)) = Some (Inr (Some x, fs, []))"
  shows "\<exists>r vm'. monitored_int3 api m fr ev vm = Some (Inr (r, vm')) \<and>
    return_trap rc x pa (vm_fresh vm) vm' \<and> mw_effects (vm_world vm') = mw_effects (vm_world vm) \<and>
    mw_filters (vm_world vm') = fs \<and> quiet (e_vcpu ev) vm' \<and>
    vm_heap vm' p = Some t \<and> tm_int3traps_at_pa (vm_tm vm') (int3_pa ev) = [p] \<and>
    (\<forall>f. tm_find_remapped (vm_tm vm) f \<noteq> None \<longrightarrow> tm_find_remapped (vm_tm vm') f \<noteq> None)"
proof -
  let ?w = "(vm_world vm)\<lparr>mw_filters := fs\<rparr>"
  let ?vm = "vm\<lparr>vm_regs := (vm_regs vm)[e_vcpu ev := Some (e_regs ev)]\<rparr>"
  obtain idx where ready: "cpu_ready (e_vcpu ev) idx vm" and l: "\<not> mw_lock (vm_world vm)"
    using assms(1) by (auto simp: quiet_def)
  have cb: "monitor_run_cb m cb p ev ?vm = Some (Inr (Some x, ?vm\<lparr>vm_world := ?w\<rparr>))"
    using l run assms(4) by (simp add: monitor_run_cb_free read_trap_def)
  have ne: "pa \<noteq> int3_pa ev" using assms(3) ret(3) by auto
  obtain r vm2 vm3 where r: "inject_return_trap (lift_api api) ev t x (?vm\<lparr>vm_world := ?w\<rparr>) = Inr vm2"
    "int3_cb (lift_api api) (monitor_run_cb m) fr ev vm = Some (Inr (r, vm3))"
    "vm_world vm3 = vm_world vm2"
    "vm_heap vm3 = (vm_heap vm)(vm_fresh vm \<mapsto> \<lparr>trap_name = trap_name t @ ''_return'', trap_cb = Some rc,
      trap_ret_cb = None, trap_pa = pa, self_destroy = True, trap_extra = Some x\<rparr>)"
    "\<forall>a. tm_int3traps_at_pa (vm_tm vm3) a = tm_int3traps_at_pa (vm_tm vm) a @ (if a = pa then [vm_fresh vm] else [])"
    "\<forall>f rm. remapped_tbl (vm_tm vm) f = Some rm \<longrightarrow> remapped_tbl (vm_tm vm3) f = Some rm"
    using single_trap_entry [where vm = vm and ev = ev and run_cb = "monitor_run_cb m" and ?vm1.0 = "?vm\<lparr>vm_world := ?w\<rparr>",
        OF ready memory_works_lift [OF assms(2)] assms(3-8) cb, of ret pa fr] assms(9) ret(1,2) ne
    by (auto simp: lift_api_def)
  have "own (vm_world vm3) = own ?w" using inject_return_trap_own [OF r(1)] r(3) by simp
  moreover have "cpu_ready (e_vcpu ev) idx vm3" using int3_cb_ready [OF monitor_cb_frame ready refl r(2)] by blast
  ultimately show ?thesis
    using r(2,4-6) l assms(3,4,9) ret(3) ne
    by (intro exI [of _ r] exI [of _ vm3])
      (auto simp: monitored_int3_def return_trap_def own_def quiet_def tm_find_remapped_def)
qed

lemma call_return:
  assumes "quiet (e_vcpu ev) vm" and "memory_works api" and "fr \<noteq> Undefined"
    and "return_trap rc x (int3_pa ev) q vm"
    and "tm_find_remapped (vm_tm vm) (frame_of (int3_pa ev)) \<noteq> None"
    and run: "run_callback (mc_env m ev) (mc_noret m) (mc_out m) (event_context m ev (mw_hyp (vm_world vm)))
      rc (Some x) (mw_filters (vm_world vm)) = Some (Inr (None, fs, es))"
  shows "\<exists>r vm'. monitored_int3 api m fr ev vm = Some (Inr (r, vm')) \<and>
    mw_effects (vm_world vm') = mw_effects (vm_world vm) @ es \<and> mw_filters (vm_world vm') = fs \<and>
    quiet (e_vcpu ev) vm' \<and> vm_heap vm' = (vm_heap vm)(q := None) \<and>
    (\<forall>a. tm_int3traps_at_pa (vm_tm vm') a =
      (if a = int3_pa ev then [] else tm_int3traps_at_pa (vm_tm vm) a))"
proof -
  let ?w = "(vm_world vm)\<lparr>mw_filters := fs, mw_effects := mw_effects (vm_world vm) @ es\<rparr>"
  let ?vm = "vm\<lparr>vm_regs := (vm_regs vm)[e_vcpu ev := Some (e_regs ev)]\<rparr>"
  obtain idx where ready: "cpu_ready (e_vcpu ev) idx vm" and l: "\<not> mw_lock (vm_world vm)"
    using assms(1) by (auto simp: quiet_def)
  obtain t where t: "vm_heap vm q = Some t" "trap_cb t = Some rc" "trap_ret_cb t = None" "self_destroy t"
    "trap_pa t = int3_pa ev" "trap_extra t = Some x" and traps: "tm_int3traps_at_pa (vm_tm vm) (int3_pa ev) = [q]"
    using assms(4) by (auto simp: return_trap_def)
  have cb: "monitor_run_cb m rc q ev ?vm = Some (Inr (None, ?vm\<lparr>vm_world := ?w\<rparr>))"
    using l run t by (simp add: monitor_run_cb_free read_trap_def)
  obtain r vm2 vm3 where r: "drop_trap (lift_api api) q (?vm\<lparr>vm_world := ?w\<rparr>) = Inr vm2"
    "int3_cb (lift_api api) (monitor_run_cb m) fr ev vm = Some (Inr (r, vm3))"
    "vm_world vm3 = vm_world vm2" "vm_heap vm3 = (vm_heap vm)(q := None)"
    "\<forall>a. tm_int3traps_at_pa (vm_tm vm3) a = (if a = int3_pa ev then [] else tm_int3traps_at_pa (vm_tm vm) a)"
    using single_trap_return [where vm = vm and ev = ev and run_cb = "monitor_run_cb m" and ?vm1.0 = "?vm\<lparr>vm_world := ?w\<rparr>",
        OF ready memory_works_lift [OF assms(2)] assms(3) traps t(1-5) cb] assms(5) by auto
  have "own (vm_world vm3) = own ?w" using drop_trap_own [OF r(1)] r(3) by simp
  moreover have "cpu_ready (e_vcpu ev) idx vm3" using int3_cb_ready [OF monitor_cb_frame ready refl r(2)] by blast
  ultimately show ?thesis
    using r(2,4,5) l by (intro exI [of _ r] exI [of _ vm3]) (auto simp: monitored_int3_def own_def quiet_def)
qed

section \<open>The two properties\<close>


text \<open>
  Property C1. A write to a file that a policy names, from the breakpoint at the entry of the system call
  to the one at its return. The entry returns, reports nothing and leaves a trap with the parameters of
  the call on the return address. The breakpoint there, in whatever state the other events have left
  the machine, returns too: it writes exactly the record of the access, if the call succeeded, with the
  name the file had at the entry and the policy that matched it first, and the trap is gone.
\<close>

theorem write_call_reported:
  assumes "quiet (e_vcpu ev) vm" and "memory_works api"
    and "tm_int3traps_at_pa (vm_tm vm) (int3_pa ev) = [p]" and "vm_heap vm p = Some t"
    and "trap_cb t = Some Modified_writefile" and "trap_ret_cb t = Some Modified_writefile_ret"
    and "\<not> self_destroy t" and "length (trap_name t) < 1017" and "p \<noteq> vm_fresh vm"
    and "vmi_read_addr api (r_cr3 (e_regs ev)) (r_rsp (e_regs ev)) (mw_hyp (vm_world vm)) = Some ret"
    and "pa = vmi_pagetable_lookup api (r_cr3 (e_regs ev)) ret (mw_hyp (vm_world vm))"
    and "tm_int3traps_at_pa (vm_tm vm) pa = []"
    and "ctx = event_context m ev (mw_hyp (vm_world vm))" and "hd_pm (mc_win m) = VMI_PM_IA32E"
    and "handle_filename ctx (rg_rcx (cx_regs ctx)) = Inr (obj, len, name)" and "name \<noteq> []" and "len \<le> 1024"
    and "filters_view (mw_filters (vm_world vm)) vs" and "mw_filters (vm_world vm) File_modified \<noteq> None"
    and "short_path name" and "split_path name = Some xs"
    and "first_match (vs File_modified) xs = Inr i" and "i \<ge> 0"
  shows "\<exists>r vm1 x. monitored_int3 api m fr ev vm = Some (Inr (r, vm1)) \<and>
    return_trap Modified_writefile_ret x pa (vm_fresh vm) vm1 \<and>
    mw_effects (vm_world vm1) = mw_effects (vm_world vm) \<and> filters_view (mw_filters (vm_world vm1)) vs \<and>
    quiet (e_vcpu ev) vm1 \<and>
    (\<forall>f. tm_find_remapped (vm_tm vm) f \<noteq> None \<longrightarrow> tm_find_remapped (vm_tm vm1) f \<noteq> None) \<and>
    (\<forall>ev2 vm2 q ctx2 es fr2. fr2 \<noteq> Undefined \<and> quiet (e_vcpu ev2) vm2 \<and> return_trap Modified_writefile_ret x pa q vm2 \<and>
      int3_pa ev2 = pa \<and> tm_find_remapped (vm_tm vm2) (frame_of pa) \<noteq> None \<and>
      ctx2 = event_context m ev2 (mw_hyp (vm_world vm2)) \<and>
      (if 0 \<le> sint (ucast (rg_rax (cx_regs ctx2)) :: u32)
       then send_output (mc_env m ev2) (mc_out m) ctx2 MON_MODIFY_CONTENT i name [] obj
       else Some (Inr [])) = Some (Inr es) \<longrightarrow>
      (\<exists>r2 vm3. monitored_int3 api m fr2 ev2 vm2 = Some (Inr (r2, vm3)) \<and>
        mw_effects (vm_world vm3) = mw_effects (vm_world vm2) @ es \<and>
        vm_heap vm3 q = None \<and> tm_int3traps_at_pa (vm_tm vm3) pa = []))"
proof -
  have pm: "hd_pm (cx_hdlr ctx) = VMI_PM_IA32E" using assms(13,14) by (simp add: event_context_def)
  obtain y fs where run: "run_callback (mc_env m ev) (mc_noret m) (mc_out m) ctx Modified_writefile
      (trap_extra t) (mw_filters (vm_world vm)) = Some (Inr (y, fs, []))" "filters_view fs vs" "y \<noteq> None"
    "\<And>env ctx fs. run_callback env (mc_noret m) (mc_out m) ctx Modified_writefile_ret y fs =
      (if 0 \<le> sint (ucast (rg_rax (cx_regs ctx)) :: u32)
       then tbind (send_output env (mc_out m) ctx MON_MODIFY_CONTENT i name [] obj) (\<lambda>es. Some (Inr (None, fs, es)))
       else Some (Inr (None, fs, [])))"
    using write_reported [OF assms(18,19) pm assms(15-17,20-22), of "mc_env m ev" "mc_noret m" "mc_out m" "trap_extra t"]
      assms(23) by auto
  then obtain x where x: "y = Some x" by blast
  note entry = call_entry [OF assms(1-12) run(1) [unfolded x assms(13)], of fr]
  have later: "\<exists>r2 vm3. monitored_int3 api m fr2 ev2 vm2 = Some (Inr (r2, vm3)) \<and>
        mw_effects (vm_world vm3) = mw_effects (vm_world vm2) @ es \<and>
        vm_heap vm3 q = None \<and> tm_int3traps_at_pa (vm_tm vm3) pa = []"
    if q: "quiet (e_vcpu ev2) vm2" "return_trap Modified_writefile_ret x pa q vm2" "int3_pa ev2 = pa"
      "tm_find_remapped (vm_tm vm2) (frame_of pa) \<noteq> None" "ctx2 = event_context m ev2 (mw_hyp (vm_world vm2))"
      "(if 0 \<le> sint (ucast (rg_rax (cx_regs ctx2)) :: u32)
       then send_output (mc_env m ev2) (mc_out m) ctx2 MON_MODIFY_CONTENT i name [] obj
       else Some (Inr [])) = Some (Inr es)" "fr2 \<noteq> Undefined" for ev2 vm2 q ctx2 es fr2
  proof -
    have "run_callback (mc_env m ev2) (mc_noret m) (mc_out m) (event_context m ev2 (mw_hyp (vm_world vm2)))
        Modified_writefile_ret (Some x) (mw_filters (vm_world vm2)) = Some (Inr (None, mw_filters (vm_world vm2), es))"
      using q(5,6) run(4) [of "mc_env m ev2" ctx2] by (auto simp: x split: if_splits)
    from call_return [OF q(1) assms(2) q(7) _ _ this, where q = q] q(2-4) show ?thesis by fastforce
  qed
  show ?thesis using entry run(2) later by blast
qed

end
