(* ===== verification/Monitor_Traps.thy ===== *)
theory Monitor_Traps
  imports Monitor_Calls
begin

text \<open>
  From a table of policies to the traps of a machine: \<open>hfm_set_policies\<close> leaves each monitor the
  filter with its patterns, and at each address the traps of the system calls the monitors need.
\<close>

section \<open>Trapping one system call\<close>

text \<open>The address a symbol is trapped at, 0 if it is not found.\<close>

definition symbol_pa :: "'w vmi_api \<Rightarrow> string \<Rightarrow> 'w \<Rightarrow> u64" where
  "symbol_pa api name w =
     (let v = vmi_translate_ksym2v api name w in if v = 0 then 0 else vmi_translate_kv2p api v w)"

text \<open>The kernel's symbols stay where they are.\<close>

definition symbols_at :: "'w vmi_api \<Rightarrow> (string \<Rightarrow> u64) \<Rightarrow> bool" where
  "symbols_at api ks \<longleftrightarrow> (\<forall>name w. symbol_pa api name w = ks name)"

text \<open>Every trap has been handed out.\<close>

definition traps_below :: "('cb, 'x, 'w) vm_t \<Rightarrow> bool" where
  "traps_below vm \<longleftrightarrow> (\<forall>p. vm_heap vm p \<noteq> None \<longrightarrow> p < vm_fresh vm)"

definition syscall_trap :: "u64 \<Rightarrow> call \<Rightarrow> (mon_cb, params_t) trap_t" where
  "syscall_trap pa c = (case c of (name, cb, ret_cb) \<Rightarrow>
     \<lparr>trap_name = take 1024 name, trap_cb = Some cb, trap_ret_cb = ret_cb, trap_pa = pa,
      self_destroy = False, trap_extra = None\<rparr>)"

definition calls_at :: "(string \<Rightarrow> u64) \<Rightarrow> u64 \<Rightarrow> call list \<Rightarrow> call list" where
  "calls_at ks a cs = (if a = 0 then [] else filter (\<lambda>c. ks (fst c) = a) cs)"

text \<open>
  \<open>vm'\<close> has the traps of \<open>vm\<close> and after them, at each address, those of the calls \<open>cs\<close>.
\<close>

definition traps_added ::
  "(string \<Rightarrow> u64) \<Rightarrow> call list \<Rightarrow> (mon_cb, params_t, 'w) vm_t \<Rightarrow> (mon_cb, params_t, 'w) vm_t \<Rightarrow> bool" where
  "traps_added ks cs vm vm' \<longleftrightarrow> vm_heap vm \<subseteq>\<^sub>m vm_heap vm' \<and> vm_fresh vm \<le> vm_fresh vm' \<and> traps_below vm' \<and>
     (\<forall>a. \<exists>qs. tm_int3traps_at_pa (vm_tm vm') a = tm_int3traps_at_pa (vm_tm vm) a @ qs \<and>
       map (vm_heap vm') qs = map (\<lambda>c. Some (syscall_trap a c)) (calls_at ks a cs))"

lemma traps_added_Nil: "traps_below vm \<Longrightarrow> traps_added ks [] vm vm"
  by (simp add: traps_added_def calls_at_def)

lemma map_heap_mono:
  assumes "map h qs = map (\<lambda>c. Some (f c)) cs" and "h \<subseteq>\<^sub>m h'"
  shows "map h' qs = map (\<lambda>c. Some (f c)) cs"
proof -
  have "h' q = h q" if "q \<in> set qs" for q
  proof -
    have "h q \<in> set (map (\<lambda>c. Some (f c)) cs)" using that assms(1) [symmetric] by simp
    then show ?thesis using assms(2) by (auto simp: map_le_def dom_def)
  qed
  then have "map h' qs = map h qs" by simp
  then show ?thesis using assms(1) by simp
qed

lemma traps_added_trans:
  assumes "traps_added ks cs vm vm1" and "traps_added ks ds vm1 vm2"
  shows "traps_added ks (cs @ ds) vm vm2"
proof -
  have "\<exists>qs. tm_int3traps_at_pa (vm_tm vm2) a = tm_int3traps_at_pa (vm_tm vm) a @ qs \<and>
      map (vm_heap vm2) qs = map (\<lambda>c. Some (syscall_trap a c)) (calls_at ks a (cs @ ds))" for a
  proof -
    obtain qs where qs: "tm_int3traps_at_pa (vm_tm vm1) a = tm_int3traps_at_pa (vm_tm vm) a @ qs"
      "map (vm_heap vm1) qs = map (\<lambda>c. Some (syscall_trap a c)) (calls_at ks a cs)"
      using assms(1) by (auto simp: traps_added_def)
    obtain rs where rs: "tm_int3traps_at_pa (vm_tm vm2) a = tm_int3traps_at_pa (vm_tm vm1) a @ rs"
      "map (vm_heap vm2) rs = map (\<lambda>c. Some (syscall_trap a c)) (calls_at ks a ds)"
      using assms(2) by (auto simp: traps_added_def)
    have "map (vm_heap vm2) qs = map (\<lambda>c. Some (syscall_trap a c)) (calls_at ks a cs)"
      using map_heap_mono [OF qs(2)] assms(2) by (simp add: traps_added_def)
    then show ?thesis
      using qs(1) rs by (intro exI [of _ "qs @ rs"]) (simp add: calls_at_def)
  qed
  then show ?thesis using assms by (auto simp: traps_added_def intro: map_le_trans)
qed

lemma register_trap_fresh: "register_trap p pa d vm = Inr (ok, vm') \<Longrightarrow> vm_fresh vm' = vm_fresh vm"
  by (auto simp: register_trap_def rbind_eq_Inr)

lemma create_shadow_page_fresh: "create_shadow_page api f vm = (r, vm') \<Longrightarrow> vm_fresh vm' = vm_fresh vm"
  by (auto simp: create_shadow_page_def Let_def split: prod.splits if_splits)

lemma ensure_shadow_fresh: "ensure_shadow api f vm = Inr (r, vm') \<Longrightarrow> vm_fresh vm' = vm_fresh vm"
  by (auto simp: ensure_shadow_def rbind_eq_Inr split: option.splits prod.splits if_splits
      dest: create_shadow_page_fresh)

lemma set_int3_fresh: "set_int3 api r pa vm = (d, vm') \<Longrightarrow> vm_fresh vm' = vm_fresh vm"
  by (auto simp: set_int3_def Let_def split: prod.splits option.splits if_splits)

lemma ensure_memtrap_fresh [simp]: "vm_fresh (ensure_memtrap api f vm) = vm_fresh vm"
  by (simp add: ensure_memtrap_def Let_def split: prod.splits)

lemma inject_trap_fresh:
  assumes "inject_trap api p vm = Inr (ok, vm')"
  shows "vm_fresh vm' = vm_fresh vm"
proof -
  obtain pa where pa: "read_pa (vm_heap vm) p = Inr pa"
    using assms by (auto simp: inject_trap_def rbind_eq_Inr)
  show ?thesis
  proof (cases "tm_trap_exist (vm_tm vm) pa")
    case True
    then show ?thesis using assms register_trap_fresh by (fastforce simp: inject_trap_def pa)
  next
    case False
    obtain r vm1 where e: "ensure_shadow api (frame_of pa) vm = Inr (r, vm1)"
      using assms False by (auto simp: inject_trap_def pa Let_def rbind_eq_Inr)
    obtain d vm3 where s: "set_int3 api r pa (ensure_memtrap api (frame_of pa) vm1) = (d, vm3)" by fastforce
    have "vm_fresh vm3 = vm_fresh vm" using set_int3_fresh [OF s] ensure_shadow_fresh [OF e] by simp
    then show ?thesis
      using assms False register_trap_fresh [of p pa d vm3 ok vm']
      by (cases d) (auto simp: inject_trap_def pa e s Let_def)
  qed
qed

lemma monitor_syscall_traps:
  assumes "symbols_at api ks" and "memory_works api" and "traps_below vm"
  shows "\<exists>vm'. hfm_monitor_syscall api name (Some cb) ret_cb vm = Inr (True, vm') \<and>
    traps_added ks [(name, cb, ret_cb)] vm vm'"
proof -
  let ?vm = "vm\<lparr>vm_world := vmi_pause_vm api (vm_world vm)\<rparr>"
  let ?f = "vmi_translate_ksym2v api name (vm_world ?vm)" and ?pa = "ks name"
  have pa: "symbol_pa api name (vm_world ?vm) = ?pa" using assms(1) by (simp add: symbols_at_def)
  show ?thesis
  proof (cases "?pa = 0")
    case True
    then have "hfm_monitor_syscall api name (Some cb) ret_cb vm =
        Inr (True, ?vm\<lparr>vm_world := vmi_resume_vm api (vm_world ?vm)\<rparr>)"
      using pa by (auto simp: hfm_monitor_syscall_def symbol_pa_def Let_def split: if_splits)
    then show ?thesis using True assms(3) by (auto simp: traps_added_def calls_at_def traps_below_def)
  next
    case False
    let ?t = "syscall_trap ?pa (name, cb, ret_cb)" and ?p = "vm_fresh vm"
    let ?a = "?vm\<lparr>vm_heap := (vm_heap vm)(?p \<mapsto> ?t), vm_fresh := ?p + 1\<rparr>"
    have "vm_heap ?a ?p \<noteq> None" by simp
    from inject_trap_returns [OF this, of api] memory_works_set_int3 [OF assms(2)]
    obtain vm1 where i: "inject_trap api ?p ?a = Inr (True, vm1)" by fastforce
    have tr0: "?f \<noteq> 0" "vmi_translate_kv2p api ?f (vm_world ?vm) = ?pa"
      using pa False by (auto simp: symbol_pa_def Let_def split: if_splits)
    let ?vm' = "vm1\<lparr>vm_world := vmi_resume_vm api (vm_world vm1)\<rparr>"
    have run: "hfm_monitor_syscall api name (Some cb) ret_cb vm = Inr (True, ?vm')"
      using tr0 False i by (simp add: hfm_monitor_syscall_def Let_def alloc_trap_def syscall_trap_def)
    have h: "vm_heap vm1 = (vm_heap vm)(?p \<mapsto> ?t)" using inject_trap_traps(1) [OF i] by simp
    have none: "vm_heap vm ?p = None" using assms(3) by (force simp: traps_below_def)
    have tr: "tm_int3traps_at_pa (vm_tm vm1) a =
        tm_int3traps_at_pa (vm_tm vm) a @ (if a = ?pa then [?p] else [])" for a
      using inject_trap_traps(2) [OF i, of a] by (simp add: pa_of_def syscall_trap_def)
    have "traps_added ks [(name, cb, ret_cb)] vm ?vm'"
      unfolding traps_added_def
    proof (intro conjI allI)
      show "vm_heap vm \<subseteq>\<^sub>m vm_heap ?vm'" using none by (auto simp: h map_le_def dom_def)
      show "vm_fresh vm \<le> vm_fresh ?vm'" using inject_trap_fresh [OF i] by simp
      show "traps_below ?vm'"
        using assms(3) inject_trap_fresh [OF i] by (auto simp: traps_below_def h less_Suc_eq)
      show "\<exists>qs. tm_int3traps_at_pa (vm_tm ?vm') a = tm_int3traps_at_pa (vm_tm vm) a @ qs \<and>
          map (vm_heap ?vm') qs = map (\<lambda>c. Some (syscall_trap a c)) (calls_at ks a [(name, cb, ret_cb)])" for a
        using False by (auto simp: tr h calls_at_def)
    qed
    with run show ?thesis by blast
  qed
qed

lemma monitor_calls_traps:
  assumes "symbols_at api ks" and "memory_works api" and "traps_below vm"
  shows "\<exists>vm'. monitor_calls api cs vm = Inr vm' \<and> traps_added ks cs vm vm'"
  using assms(3)
proof (induction cs arbitrary: vm)
  case Nil
  then show ?case by (simp add: monitor_calls_def traps_added_Nil)
next
  case (Cons c cs)
  obtain name cb ret_cb where c: "c = (name, cb, ret_cb)" by (cases c)
  obtain vm1 where 1: "hfm_monitor_syscall api name (Some cb) ret_cb vm = Inr (True, vm1)"
    "traps_added ks [c] vm vm1"
    using monitor_syscall_traps [OF assms(1,2) Cons.prems] unfolding c by blast
  then have "traps_below vm1" by (simp add: traps_added_def)
  from Cons.IH [OF this] obtain vm2 where 2: "monitor_calls api cs vm1 = Inr vm2" "traps_added ks cs vm1 vm2"
    by blast
  have "monitor_calls api (c # cs) vm = Inr vm2" using 1(1) 2(1) by (simp add: monitor_calls_def c)
  with traps_added_trans [OF 1(2) 2(2)] show ?case by auto
qed

section \<open>Setting the policies\<close>

text \<open>A filter with room for one more pattern takes a policy.\<close>

lemma filter_add_returns:
  assumes "filter_view f v" and "short_path s" and "length (v @ parsed_patterns [(s, pid)]) \<le> MAX_PATTERNS"
  shows "\<exists>f' r. filter_add f s pid = Inr (f', r)"
proof (cases "split_path s")
  case None
  then show ?thesis using ff.add_invalid [OF assms(1,2)] by simp
next
  case (Some ps)
  then show ?thesis using ff.add_pattern [OF assms(1,2) Some, of pid] assms(3) by auto
qed

lemma plugin_add_policy_traps:
  assumes "symbols_at api ks" and "memory_works api" and "traps_below (mv_vm v)" and "filters_view fs vs"
    and "short_path (pol_path pol)"
    and "length (vs p @ parsed_patterns [(pol_path pol, pol_id pol)]) \<le> MAX_PATTERNS"
  shows "\<exists>fs' v'. plugin_add_policy api p calls pol (fs, v) = Inr (fs', v') \<and> traps_below (mv_vm v')"
proof -
  let ?f = "case fs p of None \<Rightarrow> filter_init | Some f \<Rightarrow> f"
  have "filter_view ?f (vs p)" using assms(4) by (simp add: filters_view_def)
  then obtain f' r where f': "filter_add ?f (pol_path pol) (pol_id pol) = Inr (f', r)"
    using filter_add_returns assms(5,6) by blast
  obtain vm where "monitor_calls api (calls (mv_winver v)) (mv_vm v) = Inr vm" "traps_below vm"
    using monitor_calls_traps [OF assms(1-3), of "calls (mv_winver v)"] by (auto simp: traps_added_def)
  then show ?thesis using f' assms(3) by (simp add: plugin_add_policy_def Let_def)
qed

lemma set_policies_returns:
  assumes "symbols_at api ks" and "memory_works api" and "traps_below (mv_vm v)" and "filters_view fs vs"
    and "\<forall>pol \<in> set ps. short_path (pol_path pol)"
    and "\<forall>p. length (vs p @ parsed_patterns (rules p ps)) \<le> MAX_PATTERNS"
  shows "\<exists>s. foldm (mon_add_policy api) ps (fs, v) = Inr s"
  using assms(3-6)
proof (induction ps arbitrary: fs v vs)
  case (Cons pol ps)
  show ?case
  proof (cases "plugin_of (pol_type pol)")
    case None
    then show ?thesis using Cons.IH [OF Cons.prems(1,2)] Cons.prems(3,4) by (simp add: mon_add_policy_plugin)
  next
    case (Some p)
    let ?new = "parsed_patterns [(pol_path pol, pol_id pol)]" and ?vs = "\<lambda>q. if q = p then vs p @ parsed_patterns [(pol_path pol, pol_id pol)] else vs q"
    have rules: "parsed_patterns (rules q (pol # ps)) = (if q = p then ?new else []) @ parsed_patterns (rules q ps)" for q
      using Some by (simp add: parsed_append del: parsed_patterns.simps(2))
    have l: "length (vs p @ ?new) \<le> MAX_PATTERNS"
      using Cons.prems(4) [rule_format, of p] by (simp add: rules del: parsed_patterns.simps rules_simps)
    have sp: "short_path (pol_path pol)" using Cons.prems(3) by simp
    obtain fs1 v1 where a: "plugin_add_policy api p (\<lambda>w. plugin_calls w p) pol (fs, v) = Inr (fs1, v1)"
      "traps_below (mv_vm v1)"
      using plugin_add_policy_traps [OF assms(1,2) Cons.prems(1,2) sp l] by blast
    have eq: "?vs = vs(p := vs p @ ?new)" by (simp add: fun_eq_iff del: parsed_patterns.simps)
    have "filters_view fs1 ?vs" unfolding eq by (rule plugin_add_policy_view [OF a(1) Cons.prems(2) sp])
    moreover have "?vs q @ parsed_patterns (rules q ps) = vs q @ parsed_patterns (rules q (pol # ps))" for q
      unfolding rules by simp
    then have "\<forall>q. length (?vs q @ parsed_patterns (rules q ps)) \<le> MAX_PATTERNS"
      using Cons.prems(4) by metis
    ultimately obtain s where "foldm (mon_add_policy api) ps (fs1, v1) = Inr s"
      using Cons.IH [OF a(2)] Cons.prems(3) by fastforce
    moreover have "mon_add_policy api pol (fs, v) = Inr (fs1, v1)"
      using a(1) Some by (simp add: mon_add_policy_plugin)
    ultimately show ?thesis by simp
  qed
qed simp

text \<open>
  Property C21. Setting a table of policies that fits into the filters returns. Each monitor then has its
  patterns in the order of the table, the flags say which monitors have been set up, and at each
  address the breakpoint's traps are followed by exactly those of the system calls there that a
  monitor needs for the first time, in the order in which the table needs them; no other trap is changed.
\<close>

theorem set_policies_traps:
  assumes "symbols_at api ks" and "memory_works api" and "traps_below (mv_vm v)" and "filters_view fs vs"
    and "\<forall>pol \<in> set ps. short_path (pol_path pol)"
    and "\<forall>p. length (vs p @ parsed_patterns (rules p ps)) \<le> 128"
  shows "\<exists>fs' v'. hfm_set_policies api (Some ps) (fs, v) = Inr (fs', v') \<and>
    filters_view fs' (\<lambda>p. vs p @ parsed_patterns (rules p ps)) \<and>
    mv_init v' = (\<lambda>p. mv_init v p \<or> (\<exists>pol \<in> set ps. plugin_of (pol_type pol) = Some p)) \<and>
    vm_heap (mv_vm v) \<subseteq>\<^sub>m vm_heap (mv_vm v') \<and>
    (\<forall>a. \<exists>qs. tm_int3traps_at_pa (vm_tm (mv_vm v')) a = tm_int3traps_at_pa (vm_tm (mv_vm v)) a @ qs \<and>
      map (vm_heap (mv_vm v')) qs =
        map (\<lambda>c. Some (syscall_trap a c)) (calls_at ks a (new_calls (mv_winver v) (mv_init v) ps)))"
proof -
  obtain fs' v' where s: "foldm (mon_add_policy api) ps (fs, v) = Inr (fs', v')"
    using set_policies_returns [OF assms(1-5)] assms(6) by (auto simp: MAX_PATTERNS_def)
  then have set: "hfm_set_policies api (Some ps) (fs, v) = Inr (fs', v')" by (simp add: hfm_set_policies_def)
  note calls = set_policies_calls [OF set]
  have "traps_added ks (new_calls (mv_winver v) (mv_init v) ps) (mv_vm v) (mv_vm v')"
    using monitor_calls_traps [OF assms(1-3), of "new_calls (mv_winver v) (mv_init v) ps"] calls by simp
  with set calls add_policies_view [OF s assms(4,5)] show ?thesis
    by (intro exI [of _ fs'] exI [of _ v']) (simp add: traps_added_def)
qed

section \<open>The trap of a write\<close>

lemma calls_named_write:
  "filter (\<lambda>c. fst c = ''NtWriteFile'') (plugin_calls w p) =
    (if p = File_modified then [(''NtWriteFile'', Modified_writefile, Some Modified_writefile_ret)] else [])"
  by (cases p) (simp_all add: plugin_calls_def created_calls_def deleted_calls_def modified_calls_def
      attr_calls_def access_calls_def)

lemma new_calls_write:
  "filter (\<lambda>c. fst c = ''NtWriteFile'') (new_calls w i ps) =
    (if \<not> i File_modified \<and> (\<exists>pol \<in> set ps. plugin_of (pol_type pol) = Some File_modified)
     then [(''NtWriteFile'', Modified_writefile, Some Modified_writefile_ret)] else [])"
proof (induction ps arbitrary: i)
  case (Cons pol ps)
  then show ?case
    by (cases "plugin_of (pol_type pol)") (auto simp: calls_named_write)
qed simp

text \<open>
  With a policy for written files, the trap at \<open>NtWriteFile\<close> is the only one there and as
  \<open>write_call_reported\<close> wants it, if the address is that of no other symbol that is trapped.
\<close>

lemma write_call_trapped:
  assumes "map (vm_heap vm) qs =
      map (\<lambda>c. Some (syscall_trap a c)) (calls_at ks a (new_calls w (\<lambda>_. False) ps))"
    and "pol \<in> set ps" and "pol_type pol = MON_MODIFY_CONTENT"
    and "a \<noteq> 0" and "\<forall>c \<in> set (new_calls w (\<lambda>_. False) ps). ks (fst c) = a \<longleftrightarrow> fst c = ''NtWriteFile''"
  shows "\<exists>p t. qs = [p] \<and> vm_heap vm p = Some t \<and> trap_cb t = Some Modified_writefile \<and>
    trap_ret_cb t = Some Modified_writefile_ret \<and> \<not> self_destroy t \<and> length (trap_name t) < 1017"
proof -
  have "calls_at ks a (new_calls w (\<lambda>_. False) ps) =
      filter (\<lambda>c. fst c = ''NtWriteFile'') (new_calls w (\<lambda>_. False) ps)"
    using assms(4,5) by (auto simp: calls_at_def intro!: filter_cong)
  also have "\<dots> = [(''NtWriteFile'', Modified_writefile, Some Modified_writefile_ret)]"
  proof -
    have "\<exists>pol \<in> set ps. plugin_of (pol_type pol) = Some File_modified"
      using assms(2,3) by (intro bexI [of _ pol]) (simp_all add: plugin_of_def)
    then show ?thesis by (simp add: new_calls_write)
  qed
  finally show ?thesis using assms(1) by (auto simp: syscall_trap_def map_eq_Cons_conv)
qed

end
