(* ===== verification/Monitor_Calls_Demo.thy ===== *)
theory Monitor_Calls_Demo
  imports Monitor_Traps Monitor_Demo
begin

text \<open>
  A write in the guest of \<open>Monitor_Demo\<close>: \<open>NtWriteFile\<close> is trapped at \<open>0x1234\<close> and returns to
  \<open>0x1300\<close>; both lie in frame 1, whose shadow is frame 16. The hypervisor has no state of its own.
\<close>

definition call_api :: "unit vmi_api" where
  "call_api = \<lparr>
     vmi_read_8_pa = (\<lambda>pa w. (Some 0x90, w)), vmi_write_8_pa = (\<lambda>pa b w. (True, w)),
     vmi_read_pa = (\<lambda>a n w. (replicate n 0x90, w)), vmi_write_pa = (\<lambda>a bs w. (length bs, w)),
     vmi_slat_change_gfn = (\<lambda>idx gfn new w. (True, w)), vmi_set_mem_event = (\<lambda>gfn acc idx w. (True, w)),
     xc_domain_setmaxmem = (\<lambda>m w. (0, w)),
     xc_domain_increase_reservation_exact = (\<lambda>g w. (0, g, w)),
     xc_domain_populate_physmap_exact = (\<lambda>g w. (0, 17, w)),
     xc_domain_decrease_reservation_exact = (\<lambda>f w. w),
     vmi_pause_vm = (\<lambda>w. w), vmi_resume_vm = (\<lambda>w. w),
     vmi_translate_ksym2v = (\<lambda>s w. 0xFFFFF80000001234), vmi_translate_kv2p = (\<lambda>v w. 0x1234),
     vmi_read_addr = (\<lambda>dtb a w. Some 0x7FFE1300), vmi_pagetable_lookup = (\<lambda>dtb a w. 0x1300)\<rparr>"

lemma call_memory: "memory_works call_api"
  by (simp add: memory_works_def call_api_def)

definition call_machine :: "unit machine_t" where
  "call_machine = \<lparr>mc_env = (\<lambda>_. mon_env0), mc_noret = None, mc_out = mon_console, mc_win = mon_win,
     mc_regs = (\<lambda>ev. demo_regs\<lparr>rg_rcx := 4, rg_gs_base := 0x9000, rg_r8 := 0xF150\<rparr>),
     mc_guest = (\<lambda>_ _. mon_guest)\<rparr>"

text \<open>The breakpoint at \<open>offset\<close> in frame 1, hit with the stack at \<open>rsp\<close>.\<close>

definition call_event :: "u64 \<Rightarrow> u64 \<Rightarrow> event_t" where
  "call_event offset rsp = \<lparr>e_vcpu = 0, e_regs = \<lparr>r_cr3 = 0x1000, r_rsp = rsp\<rparr>, e_gfn = 1, e_offset = offset,
     e_insn_length = 1, e_write = False\<rparr>"

lemma call_event_simps [simp]:
  "e_vcpu (call_event offset rsp) = 0" "int3_pa (call_event 0x234 rsp) = 0x1234" "int3_pa (call_event 0x300 rsp) = 0x1300"
  "event_context call_machine (call_event offset rsp) h = mon_ctx rsp 0xF150"
  by (simp_all add: call_event_def int3_pa_def push_bit_eq_mult event_context_def call_machine_def mon_ctx_def)

definition call_trap :: "(mon_cb, params_t) trap_t" where
  "call_trap = \<lparr>trap_name = ''NtWriteFile'', trap_cb = Some Modified_writefile,
     trap_ret_cb = Some Modified_writefile_ret, trap_pa = 0x1234, self_destroy = False, trap_extra = None\<rparr>"

definition call_vm :: "filter_t \<Rightarrow> (mon_cb, params_t, unit mon_world) vm_t" where
  "call_vm f = \<lparr>
     vm_tm = \<lparr>remapped_tbl = [1 \<mapsto> \<lparr>rm_o = 1, rm_r = 16\<rparr>],
       breakpoint_tbl = [0x1234 \<mapsto> \<lparr>w_pa = 0x1234, w_doubletrap = 0, w_traps = [2]\<rparr>],
       breakpoint_gfn_tbl = [1 \<mapsto> [2]], memaccess_tbl = [1 \<mapsto> ()]\<rparr>,
     vm_heap = [2 \<mapsto> call_trap], vm_fresh = 4, vm_memsize = 0x10000, vm_altp2m_idx = 1, vm_interrupted = 0,
     vm_regs = replicate 16 None, vm_step = replicate 16 (Some Singlestep_cb),
     vm_world = \<lparr>mw_hyp = (), mw_lock = False, mw_filters = (\<lambda>_. Some f), mw_effects = []\<rparr>\<rparr>"

lemma call_ready: "cpu_ready 0 1 (call_vm f)"
  by (simp add: cpu_ready_def call_vm_def)

lemma call_quiet: "quiet 0 (call_vm f)"
  using call_ready by (auto simp: quiet_def call_vm_def)

theorem write_call_reported_witness:
  "\<exists>f r vm1 es r2 vm3. monitored_int3 call_api call_machine NullNext (call_event 0x234 0xF000) (call_vm f) = Some (Inr (r, vm1)) \<and>
     mw_effects (vm_world vm1) = [] \<and>
     send_output mon_env0 mon_console (mon_ctx 0xF008 0xF150) MON_MODIFY_CONTENT 7 mon_name [] 0x1000 = Some (Inr es) \<and>
     monitored_int3 call_api call_machine NullNext (call_event 0x300 0xF008) vm1 = Some (Inr (r2, vm3)) \<and>
     mw_effects (vm_world vm3) = es \<and> tm_int3traps_at_pa (vm_tm vm3) 0x1300 = []"
proof -
  let ?e = "call_event 0x234 0xF000" and ?e2 = "call_event 0x300 0xF008"
  obtain f where f: "filters_view (\<lambda>_. Some f) (\<lambda>_. [([''C:'', ''*''], 7)])" using mon_filters by blast
  let ?vm = "call_vm f"
  have w: "mw_filters (vm_world ?vm) = (\<lambda>_. Some f)" "mw_effects (vm_world ?vm) = []" "vm_fresh ?vm = 4"
    by (simp_all add: call_vm_def)
  have traps: "tm_int3traps_at_pa (vm_tm ?vm) (int3_pa ?e) = [2]" "vm_heap ?vm 2 = Some call_trap"
    "tm_int3traps_at_pa (vm_tm ?vm) 0x1300 = []" "tm_find_remapped (vm_tm ?vm) (frame_of 0x1300) \<noteq> None"
    by (simp_all add: call_vm_def tm_int3traps_at_pa_def tm_find_remapped_def frame_of_def PAGE_OFFSET_BITS_def)
  have h: "handle_filename (mon_ctx 0xF000 0xF150) (rg_rcx (cx_regs (mon_ctx 0xF000 0xF150))) = Inr (0x1000, 8, mon_name)"
    by (simp add: mon_filename)
  have t: "trap_cb call_trap = Some Modified_writefile" "trap_ret_cb call_trap = Some Modified_writefile_ret"
    "\<not> self_destroy call_trap" "length (trap_name call_trap) < 1017" "trap_extra call_trap = None"
    by (simp_all add: call_trap_def)
  have api: "vmi_read_addr call_api c s w = Some 0x7FFE1300" "vmi_pagetable_lookup call_api c a w = 0x1300" for c s a w
    by (simp_all add: call_api_def)
  have m: "hd_pm (mc_win call_machine) = VMI_PM_IA32E" "mc_env call_machine ev = mon_env0" "mc_out call_machine = mon_console" for ev
    using mon_regs(7) by (simp_all add: call_machine_def mon_ctx_def)
  have q: "quiet (e_vcpu ?e) ?vm" by (simp add: call_quiet)
  have ln: "length mon_name < STR_BUFF" by (simp add: mon_name_def demo_path_def STR_BUFF_def)
  obtain es where es: "send_output mon_env0 mon_console (mon_ctx 0xF008 0xF150) MON_MODIFY_CONTENT 7 mon_name [] 0x1000 = Some (Inr es)"
    using mon_send [OF ln] by blast
  obtain r vm1 x where 1: "monitored_int3 call_api call_machine NullNext ?e ?vm = Some (Inr (r, vm1))"
    "return_trap Modified_writefile_ret x 0x1300 4 vm1" "mw_effects (vm_world vm1) = []" "quiet 0 vm1"
    "\<forall>f. tm_find_remapped (vm_tm ?vm) f \<noteq> None \<longrightarrow> tm_find_remapped (vm_tm vm1) f \<noteq> None"
    and later: "\<And>ev2 vm2 q ctx2 es. quiet (e_vcpu ev2) vm2 \<Longrightarrow> return_trap Modified_writefile_ret x 0x1300 q vm2 \<Longrightarrow>
      int3_pa ev2 = 0x1300 \<Longrightarrow> tm_find_remapped (vm_tm vm2) (frame_of 0x1300) \<noteq> None \<Longrightarrow>
      ctx2 = event_context call_machine ev2 (mw_hyp (vm_world vm2)) \<Longrightarrow>
      (if 0 \<le> sint (ucast (rg_rax (cx_regs ctx2)) :: u32)
       then send_output (mc_env call_machine ev2) (mc_out call_machine) ctx2 MON_MODIFY_CONTENT 7 mon_name [] 0x1000
       else Some (Inr [])) = Some (Inr es) \<Longrightarrow>
      \<exists>r2 vm3. monitored_int3 call_api call_machine NullNext ev2 vm2 = Some (Inr (r2, vm3)) \<and>
        mw_effects (vm_world vm3) = mw_effects (vm_world vm2) @ es \<and>
        vm_heap vm3 q = None \<and> tm_int3traps_at_pa (vm_tm vm3) 0x1300 = []"
    using write_call_reported [OF q call_memory traps(1,2) t(1-4) _ api(1) api(2) [symmetric] traps(3) refl m(1),
      of "0x1000" 8 mon_name "\<lambda>_. [([''C:'', ''*''], 7)]" "[''C:'', ''f.txt'']" 7 NullNext]
      f w h mon_name_path by fastforce
  have "\<exists>r2 vm3. monitored_int3 call_api call_machine NullNext ?e2 vm1 = Some (Inr (r2, vm3)) \<and>
        mw_effects (vm_world vm3) = mw_effects (vm_world vm1) @ es \<and>
        vm_heap vm3 4 = None \<and> tm_int3traps_at_pa (vm_tm vm3) 0x1300 = []"
    by (rule later [OF _ 1(2) _ _ refl]) (use 1 traps(4) es in \<open>simp_all add: m\<close>)
  with 1 es show ?thesis by (intro exI [of _ f]) auto
qed


section \<open>Policies on a new machine\<close>

text \<open>A kernel with two of the symbols, and a table with a policy for writes and one for created files.\<close>

definition kernel_symbols :: "string \<Rightarrow> u64" where
  "kernel_symbols name = (if name = ''NtWriteFile'' then 0x1234 else if name = ''ZwWriteFile'' then 0x1300 else 0)"

definition symbols_api :: "unit vmi_api" where
  "symbols_api = call_api\<lparr>vmi_translate_ksym2v := (\<lambda>name w. kernel_symbols name), vmi_translate_kv2p := (\<lambda>v w. v)\<rparr>"

definition write_policies :: "policy_t list" where
  "write_policies =
     [\<lparr>pol_id = 3, pol_path = ''/home/*/a'', pol_type = MON_MODIFY_CONTENT, pol_options = 0, pol_severity = WARNING\<rparr>,
      \<lparr>pol_id = 4, pol_path = ''/b'', pol_type = MON_CREATE, pol_options = 0, pol_severity = WARNING\<rparr>]"

lemma symbols_api_at: "symbols_at symbols_api kernel_symbols" "memory_works symbols_api"
  by (simp_all add: symbols_at_def symbol_pa_def symbols_api_def Let_def memory_works_def call_api_def)

lemma write_policies_short:
  "\<forall>pol \<in> set write_policies. short_path (pol_path pol)"
  "length (parsed_patterns (rules p write_policies)) \<le> 128"
proof -
  show "\<forall>pol \<in> set write_policies. short_path (pol_path pol)" by code_simp
  show "length (parsed_patterns (rules p write_policies)) \<le> 128"
    by (auto simp: write_policies_def split: option.split)
qed

lemma write_policies_calls:
  "new_calls w (\<lambda>_. False) write_policies = modified_calls @ created_calls"
  by (simp add: write_policies_def plugin_of_def plugin_calls_def)

theorem set_policies_traps_witness:
  "\<exists>fs v' p t. hfm_set_policies symbols_api (Some write_policies) (\<lambda>_. None, blind_vm) = Inr (fs, v') \<and>
     tm_int3traps_at_pa (vm_tm (mv_vm v')) 0x1234 = [p] \<and> vm_heap (mv_vm v') p = Some t \<and>
     trap_cb t = Some Modified_writefile \<and> trap_ret_cb t = Some Modified_writefile_ret \<and>
     tm_int3traps_at_pa (vm_tm (mv_vm v')) 0x5678 = []"
proof -
  have b: "traps_below (mv_vm blind_vm)" "mv_init blind_vm = (\<lambda>_. False)"
    "tm_int3traps_at_pa (vm_tm (mv_vm blind_vm)) a = []" for a
    by (simp_all add: blind_vm_def traps_below_def tm_int3traps_at_pa_def tm_init_def)
  obtain fs v' where s: "hfm_set_policies symbols_api (Some write_policies) (\<lambda>_. None, blind_vm) = Inr (fs, v')"
    and t: "\<And>a. map (vm_heap (mv_vm v')) (tm_int3traps_at_pa (vm_tm (mv_vm v')) a) =
      map (\<lambda>c. Some (syscall_trap a c))
        (calls_at kernel_symbols a (new_calls (mv_winver blind_vm) (\<lambda>_. False) write_policies))"
    using set_policies_traps [OF symbols_api_at b(1) no_filters write_policies_short(1)] write_policies_short(2)
    by (fastforce simp: b(2,3))
  have "tm_int3traps_at_pa (vm_tm (mv_vm v')) 0x5678 = []"
    using t [of "0x5678"] by (simp add: write_policies_calls calls_at_def modified_calls_def created_calls_def kernel_symbols_def)
  moreover have "write_policies ! 0 \<in> set write_policies" "pol_type (write_policies ! 0) = MON_MODIFY_CONTENT"
    by (simp_all add: write_policies_def)
  moreover have "\<forall>c \<in> set (new_calls w (\<lambda>_. False) write_policies). kernel_symbols (fst c) = 0x1234 \<longleftrightarrow> fst c = ''NtWriteFile''" for w
    by (simp add: write_policies_calls modified_calls_def created_calls_def kernel_symbols_def)
  moreover have "(0x1234 :: u64) \<noteq> 0" by simp
  ultimately show ?thesis using s write_call_trapped [OF t [of "0x1234"]] by blast
qed

end
