(* ===== verification/Cleaner_Files.thy ===== *)
theory Cleaner_Files
  imports CString
begin

text \<open>
  The file tools of the cleaner (\<open>src/fcleaner/fileutil.c\<close> and \<open>filewatch.c\<close>): the check for
  duplicates, the symbolic link that replaces one, and the thread that follows a growing file. The
  file system is a map from names to nodes; reading may be refused by a predicate, and regular files
  are read without errors. MD5 is a parameter: a state, its update and its final digest.
\<close>

datatype node = Regular "u8 list" | Symlink string | Directory bool

type_synonym fsys = "string \<Rightarrow> node option"

definition BUFF_LEN :: nat where "BUFF_LEN = 1024"

text \<open>\<open>stat\<close> follows links, at most 40 of them. A directory has some size.\<close>

fun follow :: "nat \<Rightarrow> fsys \<Rightarrow> string \<Rightarrow> node option" where
  "follow 0 fs f = None"
| "follow (Suc n) fs f = (case fs f of
       Some (Symlink g) \<Rightarrow> follow n fs g
     | r \<Rightarrow> r)"

definition stat_node :: "fsys \<Rightarrow> string \<Rightarrow> node option" where
  "stat_node fs f = follow 41 fs f"

definition get_file_size :: "fsys \<Rightarrow> string \<Rightarrow> int" where
  "get_file_size fs f = (case stat_node fs f of
       None \<Rightarrow> - 1
     | Some (Regular bs) \<Rightarrow> int (length bs)
     | Some _ \<Rightarrow> 4096)"

text \<open>\<open>fopen (f, "rb")\<close>; a directory can be opened, but nothing is read from it.\<close>

definition fopen_read :: "(string \<Rightarrow> bool) \<Rightarrow> fsys \<Rightarrow> string \<Rightarrow> u8 list option" where
  "fopen_read may fs f = (if may f then (case stat_node fs f of
       None \<Rightarrow> None | Some (Regular bs) \<Rightarrow> Some bs | Some _ \<Rightarrow> Some []) else None)"

text \<open>\<open>fread (buff, 1, n, fp)\<close>: what was read, and the rest of the file.\<close>

definition fread :: "nat \<Rightarrow> u8 list \<Rightarrow> u8 list \<times> u8 list" where
  "fread n fp = (take n fp, drop n fp)"

section \<open>Checksums\<close>

record 'c md5_api =
  MD5_Init :: 'c
  MD5_Update :: "'c \<Rightarrow> u8 list \<Rightarrow> 'c"
  MD5_Final :: "'c \<Rightarrow> u8 list"

function checksum_loop :: "'c md5_api \<Rightarrow> 'c \<Rightarrow> u8 list \<Rightarrow> 'c" where
  "checksum_loop md5 c fp =
     (case fread BUFF_LEN fp of (data, fp') \<Rightarrow>
      if data = [] then c else checksum_loop md5 (MD5_Update md5 c data) fp')"
  by pat_completeness auto
termination
  by (relation "measure (\<lambda>(md5, c, fp). length fp)") (auto simp: fread_def BUFF_LEN_def)

declare checksum_loop.simps [simp del]

definition hex2 :: "u8 \<Rightarrow> string" where
  "hex2 b = [''0123456789abcdef'' ! (unat b div 16), ''0123456789abcdef'' ! (unat b mod 16)]"

text \<open>The text of the checksum, or \<open>None\<close> for the answer -1.\<close>

definition get_checksum :: "'c md5_api \<Rightarrow> (string \<Rightarrow> bool) \<Rightarrow> fsys \<Rightarrow> string \<Rightarrow> string option" where
  "get_checksum md5 may fs f = (case fopen_read may fs f of
       None \<Rightarrow> None
     | Some fp \<Rightarrow> Some (concat (map hex2 (MD5_Final md5 (checksum_loop md5 (MD5_Init md5) fp)))))"

section \<open>Duplicates\<close>

fun memcmp :: "u8 list \<Rightarrow> u8 list \<Rightarrow> int" where
  "memcmp (a # as) (b # bs) = (if a = b then memcmp as bs else uint a - uint b)"
| "memcmp _ _ = 0"

function cmp_loop :: "u8 list \<Rightarrow> u8 list \<Rightarrow> int" where
  "cmp_loop fp1 fp2 =
     (case (fread BUFF_LEN fp1, fread BUFF_LEN fp2) of ((buff1, fp1'), (buff2, fp2')) \<Rightarrow>
      let cmp = memcmp buff1 buff2 in
      if length buff1 \<noteq> length buff2 then int (length buff1) - int (length buff2)
      else if cmp \<noteq> 0 then cmp
      else if 0 < length buff1 then cmp_loop fp1' fp2' else 0)"
  by pat_completeness auto
termination
  by (relation "measure (\<lambda>(fp1, fp2). length fp1)")
    (auto simp: fread_def BUFF_LEN_def min_def intro!: diff_less split: if_splits)

declare cmp_loop.simps [simp del]

text \<open>Files that cannot be opened compare as equal.\<close>

definition cmp_file_content :: "(string \<Rightarrow> bool) \<Rightarrow> fsys \<Rightarrow> string \<Rightarrow> string \<Rightarrow> int" where
  "cmp_file_content may fs file1 file2 =
     (case (fopen_read may fs file1, fopen_read may fs file2) of
        (Some fp1, Some fp2) \<Rightarrow> cmp_loop fp1 fp2
      | _ \<Rightarrow> 0)"

definition util_checkdup :: "'c md5_api \<Rightarrow> (string \<Rightarrow> bool) \<Rightarrow> fsys \<Rightarrow> string \<Rightarrow> string \<Rightarrow> int" where
  "util_checkdup md5 may fs file1 file2 =
     (let size1 = get_file_size fs file1; size2 = get_file_size fs file2 in
      if size1 = - 1 \<or> size2 = - 1 then 0
      else if size1 \<noteq> size2 then 0
      else case get_checksum md5 may fs file1 of None \<Rightarrow> 0 | Some cs1 \<Rightarrow>
        (case get_checksum md5 may fs file2 of None \<Rightarrow> 0 | Some cs2 \<Rightarrow>
          if cs1 \<noteq> cs2 then 0
          else if cmp_file_content may fs file1 file2 = 0 then 1 else 0))"

section \<open>Links\<close>

text \<open>\<open>remove\<close> deletes a name, of a directory only if it is empty.\<close>

definition remove_name :: "fsys \<Rightarrow> string \<Rightarrow> fsys" where
  "remove_name fs f = (case fs f of Some (Directory False) \<Rightarrow> fs | _ \<Rightarrow> fs(f := None))"

definition symlink :: "string \<Rightarrow> string \<Rightarrow> fsys \<Rightarrow> fsys" where
  "symlink target f fs = (if fs f = None then fs(f \<mapsto> Symlink target) else fs)"

definition util_create_symlink :: "string \<Rightarrow> string \<Rightarrow> fsys \<Rightarrow> int \<times> fsys" where
  "util_create_symlink filename slname fs =
     (let fs = (if stat_node fs slname \<noteq> None then remove_name fs slname else fs)
      in (0, symlink filename slname fs))"

section \<open>Following a file\<close>

record filewatch_t =
  fw_on_recv :: "string option"
  fw_stop :: bool

definition filewatch_init :: "bool \<Rightarrow> bool \<Rightarrow> filewatch_t option" where
  "filewatch_init calloc_ok fopen_ok =
     (if \<not> calloc_ok then None
      else if \<not> fopen_ok then None
      else Some \<lparr>fw_on_recv = None, fw_stop = False\<rparr>)"

definition filewatch_set_cb :: "filewatch_t option \<Rightarrow> string option \<Rightarrow> filewatch_t option result" where
  "filewatch_set_cb fw on_recv = (case fw of None \<Rightarrow> Inl NullDeref | Some w \<Rightarrow> Inr (Some (w\<lparr>fw_on_recv := on_recv\<rparr>)))"

definition filewatch_stop :: "filewatch_t option \<Rightarrow> filewatch_t option result" where
  "filewatch_stop fw = (case fw of None \<Rightarrow> Inl NullDeref | Some w \<Rightarrow> Inr (Some (w\<lparr>fw_stop := True\<rparr>)))"

text \<open>
  \<open>getline\<close> at a position of a text: the line with its newline, \<open>None\<close> at the end of the file. One
  round of the loop of \<open>_watch_file\<close> prints the line and moves the position; the callback is not called.
\<close>

definition getline :: "string \<Rightarrow> nat \<Rightarrow> string option" where
  "getline text pos =
     (let s = drop pos text; l = takeWhile (\<lambda>c. c \<noteq> CHR 0x0A) s in
      if s = [] then None else Some (take (length l + 1) s))"

definition watch_round :: "string \<Rightarrow> nat \<Rightarrow> string list \<Rightarrow> nat \<times> string list" where
  "watch_round text latest_pos out = (case getline text latest_pos of
       None \<Rightarrow> (latest_pos, out)
     | Some line \<Rightarrow> (latest_pos + length line, out @ [line]))"

text \<open>The loop over the contents the file has in the rounds, until the stop flag is seen.\<close>

fun watch_file :: "(string \<times> bool) list \<Rightarrow> nat \<Rightarrow> string list \<Rightarrow> nat \<times> string list" where
  "watch_file [] latest_pos out = (latest_pos, out)"
| "watch_file ((text, stop) # rounds) latest_pos out =
     (if stop then (latest_pos, out)
      else case watch_round text latest_pos out of (latest_pos, out) \<Rightarrow> watch_file rounds latest_pos out)"

section \<open>Properties\<close>

lemma memcmp_0: "length xs = length ys \<Longrightarrow> memcmp xs ys = 0 \<longleftrightarrow> xs = ys"
  by (induction xs ys rule: list_induct2) (auto simp: word_uint_eq_iff)

lemma cmp_loop_0: "cmp_loop xs ys = 0 \<longleftrightarrow> xs = ys"
proof (induction xs ys rule: cmp_loop.induct)
  case (1 xs ys)
  let ?a = "take BUFF_LEN xs" and ?b = "take BUFF_LEN ys"
  have split: "xs = ys \<longleftrightarrow> ?a = ?b \<and> drop BUFF_LEN xs = drop BUFF_LEN ys"
    by (metis append_take_drop_id)
  have nil: "?a = [] \<Longrightarrow> drop BUFF_LEN xs = []" "?b = [] \<Longrightarrow> drop BUFF_LEN ys = []"
    by (simp_all add: BUFF_LEN_def)
  show ?case
  proof (cases "length ?a = length ?b \<and> memcmp ?a ?b = 0 \<and> 0 < length ?a")
    case True
    then have "?a = ?b" using memcmp_0 [of ?a ?b] by blast
    have "cmp_loop (drop BUFF_LEN xs) (drop BUFF_LEN ys) = 0 \<longleftrightarrow> drop BUFF_LEN xs = drop BUFF_LEN ys"
      by (rule "1.IH" [of _ _ ?a _ ?b]) (use True \<open>?a = ?b\<close> in \<open>auto simp: fread_def\<close>)
    then show ?thesis using True split \<open>?a = ?b\<close>
      by (subst cmp_loop.simps) (simp add: fread_def Let_def)
  next
    case False
    then consider "length ?a \<noteq> length ?b" | "length ?a = length ?b" "memcmp ?a ?b \<noteq> 0" | "?a = []" "?b = []"
      by (metis length_0_conv neq0_conv)
    then show ?thesis
    proof cases
      case 1
      then have "xs \<noteq> ys" by auto
      with 1 show ?thesis by (subst cmp_loop.simps) (simp add: fread_def Let_def del: length_take)
    next
      case 2
      then have "xs \<noteq> ys" using memcmp_0 [of ?a ?b] by auto
      with 2 show ?thesis by (subst cmp_loop.simps) (simp add: fread_def Let_def del: length_take)
    next
      case 3
      then have "xs = ys" by (auto simp: BUFF_LEN_def)
      with 3 show ?thesis by (subst cmp_loop.simps) (auto simp: fread_def Let_def)
    qed
  qed
qed

text \<open>
  Property C39. Two files are reported as duplicates exactly when both can be read and have the same
  contents, whatever MD5 computes: equal checksums are never taken for equal contents, and equal
  contents always have equal checksums.
\<close>

theorem checkdup_iff:
  assumes "stat_node fs file1 = Some (Regular bs1)" and "stat_node fs file2 = Some (Regular bs2)"
  shows "util_checkdup md5 may fs file1 file2 = (if may file1 \<and> may file2 \<and> bs1 = bs2 then 1 else 0)"
  using assms cmp_loop_0 [of bs1 bs2]
  by (auto simp: util_checkdup_def get_file_size_def get_checksum_def fopen_read_def cmp_file_content_def Let_def)

definition last_byte_md5 :: "u8 md5_api" where
  "last_byte_md5 = \<lparr>MD5_Init = 0, MD5_Update = (\<lambda>c bs. last (c # bs)), MD5_Final = replicate 16\<rparr>"

text \<open>Even with a digest that only looks at the last byte.\<close>

theorem checkdup_iff_witness:
  "util_checkdup last_byte_md5 (\<lambda>_. True) [''a'' \<mapsto> Regular [1, 2], ''b'' \<mapsto> Symlink ''a''] ''a'' ''b'' = 1 \<and>
   util_checkdup last_byte_md5 (\<lambda>_. True) [''a'' \<mapsto> Regular [1, 2], ''b'' \<mapsto> Regular [3, 2]] ''a'' ''b'' = 0"
proof -
  let ?fs = "[''a'' \<mapsto> Regular [1, 2], ''b'' \<mapsto> Symlink ''a''] :: fsys"
  let ?gs = "[''a'' \<mapsto> Regular [1, 2], ''b'' \<mapsto> Regular [3, 2]] :: fsys"
  have f: "stat_node ?fs ''a'' = Some (Regular [1, 2])" "stat_node ?fs ''b'' = Some (Regular [1, 2])"
    and g: "stat_node ?gs ''a'' = Some (Regular [1, 2])" "stat_node ?gs ''b'' = Some (Regular [3, 2])"
    by (simp_all add: stat_node_def numeral_eq_Suc)
  show ?thesis
    using checkdup_iff [OF f, of last_byte_md5 "\<lambda>_. True"] checkdup_iff [OF g, of last_byte_md5 "\<lambda>_. True"] by simp
qed

lemma watch_round_pos:
  assumes "concat out = take pos text" and "pos \<le> length text" and "watch_round text pos out = (pos', out')"
  shows "concat out' = take pos' text \<and> pos' \<le> length text \<and> (pos < length text \<longrightarrow> pos < pos')"
proof (cases "drop pos text = []")
  case True
  then show ?thesis using assms by (auto simp: watch_round_def getline_def Let_def)
next
  case False
  let ?n = "length (takeWhile (\<lambda>c. c \<noteq> CHR 0x0A) (drop pos text)) + 1"
  have "take (pos + length (take ?n (drop pos text))) text = take pos text @ take ?n (drop pos text)"
    by (simp add: take_add min_def)
  then show ?thesis using assms False by (auto simp: watch_round_def getline_def Let_def)
qed

text \<open>The contents of a file that only grows.\<close>

fun growing :: "string \<Rightarrow> (string \<times> bool) list \<Rightarrow> bool" where
  "growing t [] \<longleftrightarrow> True"
| "growing t ((u, _) # rounds) \<longleftrightarrow> take (length t) u = t \<and> growing u rounds"

definition last_text :: "string \<Rightarrow> (string \<times> bool) list \<Rightarrow> string" where
  "last_text t rounds = last (t # map fst rounds)"

lemma growing_prefix: "growing t rounds \<Longrightarrow> take (length t) (last_text t rounds) = t"
proof (induction t rounds rule: growing.induct)
  case (2 t u s rounds)
  then have u: "take (length t) u = t" and l: "take (length u) (last_text u rounds) = u" by auto
  have "last_text t ((u, s) # rounds) = last_text u rounds" by (simp add: last_text_def)
  moreover have "length t \<le> length u" using u by (metis length_take min.cobounded1 min.cobounded2 nat_le_linear)
  then have "take (length t) (last_text u rounds) = take (length t) (take (length u) (last_text u rounds))"
    by (simp add: min_def)
  ultimately show ?case using u l by simp
qed (simp add: last_text_def)

text \<open>
  While a file only grows, what the watcher has printed is always the beginning of the
  file up to the position it has reached: no byte is lost and none is printed twice (but a line that
  is written in pieces is printed in pieces).
\<close>

theorem watch_no_loss:
  assumes "growing t rounds" and "concat out = take pos t" and "pos \<le> length t"
    and "watch_file rounds pos out = (pos', out')"
  shows "concat out' = take pos' (last_text t rounds) \<and> pos' \<le> length (last_text t rounds) \<and> pos \<le> pos'"
  using assms
proof (induction t rounds arbitrary: pos out rule: growing.induct)
  case (2 t u s rounds)
  have l: "last_text t ((u, s) # rounds) = last_text u rounds" by (simp add: last_text_def)
  have u: "take (length t) u = t" using 2 by simp
  have tu: "length t \<le> length u" by (metis u length_take min.cobounded1 min.cobounded2 nat_le_linear)
  have c: "concat out = take pos u" using 2(3,4) u by (metis min.absorb2 take_take min.commute)
  show ?case
  proof (cases s)
    case True
    have "take pos (last_text u rounds) = take pos (take (length u) (last_text u rounds))"
      using 2(4) tu by (simp add: min_def)
    moreover have p: "take (length u) (last_text u rounds) = u" using 2(2) growing_prefix by auto
    moreover have "length u \<le> length (last_text u rounds)"
      using p by (metis length_take min.cobounded1 min.cobounded2 nat_le_linear)
    ultimately show ?thesis using True 2(4,5) c tu l by auto
  next
    case False
    obtain p1 o1 where r: "watch_round u pos out = (p1, o1)" by fastforce
    have w: "concat o1 = take p1 u \<and> p1 \<le> length u \<and> (pos < length u \<longrightarrow> pos < p1)"
      using watch_round_pos [OF c _ r] 2(4) tu by simp
    have "pos \<le> p1" using w r by (auto simp: watch_round_def split: option.splits)
    then show ?thesis using 2(1) [of o1 p1] 2(2,5) w r False l by auto
  qed
qed (simp add: last_text_def)

theorem watch_no_loss_witness:
  "watch_file [(''ab'' @ [CHR 0x0A] @ ''c'', False), (''ab'' @ [CHR 0x0A] @ ''c'', False), (''ab'' @ [CHR 0x0A] @ ''cd'', False)] 0 [] =
     (5, [''ab'' @ [CHR 0x0A], ''c'', ''d'']) \<and>
   concat [''ab'' @ [CHR 0x0A], ''c'', ''d''] = take 5 (''ab'' @ [CHR 0x0A] @ ''cd'')"
proof -
  let ?r = "[(''ab'' @ [CHR 0x0A] @ ''c'', False), (''ab'' @ [CHR 0x0A] @ ''c'', False), (''ab'' @ [CHR 0x0A] @ ''cd'', False)]"
  have w: "watch_file ?r 0 [] = (5, [''ab'' @ [CHR 0x0A], ''c'', ''d''])"
    by (simp add: watch_round_def getline_def)
  have g: "growing [] ?r" by simp
  have "last_text [] ?r = ''ab'' @ [CHR 0x0A] @ ''cd''" by (simp add: last_text_def)
  with watch_no_loss [OF g _ _ w] w show ?thesis by simp
qed

text \<open>
  A link is made, and nothing else changed, unless a link that leads nowhere is in its place: that one
  is neither removed nor replaced, and the answer is the same.
\<close>

theorem create_symlink_effect:
  "util_create_symlink filename slname fs =
    (0, if fs slname = None \<or> stat_node fs slname \<noteq> None \<and> fs slname \<noteq> Some (Directory False)
        then fs(slname \<mapsto> Symlink filename) else fs)"
  by (auto simp: util_create_symlink_def remove_name_def symlink_def stat_node_def numeral_eq_Suc Let_def
    split: option.splits node.splits bool.splits)

end
