(* ===== verification/Cleaner_Watch.thy ===== *)
theory Cleaner_Watch
  imports Cleaner_Files
begin

text \<open>
  The thread that follows a file (\<open>src/fcleaner/filewatch.c\<close>) beside its owner, who starts it, asks
  it to stop and frees the watch; and \<open>main\<close> of the cleaner, which does nothing yet. The thread's
  steps are the test of the stop flag and one round of the loop; each reads the watch through the
  pointer it was given.
\<close>

datatype watch_pc = Not_started | Testing | Reading | Ended

record watch_state =
  ws_fw :: "filewatch_t option"
  ws_freed :: bool
  ws_pc :: watch_pc
  ws_pos :: nat
  ws_text :: string
  ws_out :: "string list"

section \<open>Operations of the owner\<close>

text \<open>The answer of \<open>pthread_create\<close> is not looked at. The thread starts at the beginning of the file.\<close>

definition filewatch_start :: "bool \<Rightarrow> watch_state \<Rightarrow> watch_state" where
  "filewatch_start created s =
     (if ws_fw s = None then s else if created then s\<lparr>ws_pc := Testing, ws_pos := 0\<rparr> else s)"

definition stop_watch :: "watch_state \<Rightarrow> watch_state result" where
  "stop_watch s =
     (if ws_freed s then Inl UseAfterFree
      else rbind (filewatch_stop (ws_fw s)) (\<lambda>fw. Inr (s\<lparr>ws_fw := fw\<rparr>)))"

definition filewatch_destroy :: "watch_state \<Rightarrow> watch_state result" where
  "filewatch_destroy s =
     (if ws_fw s = None then Inl NullDeref
      else if ws_freed s then Inl UseAfterFree else Inr (s\<lparr>ws_freed := True\<rparr>))"

section \<open>Steps of the thread\<close>

definition watch_step :: "watch_state \<Rightarrow> watch_state result" where
  "watch_step s = (case ws_pc s of
       Testing \<Rightarrow>
         if ws_freed s then Inl UseAfterFree
         else (case ws_fw s of None \<Rightarrow> Inl NullDeref
           | Some fw \<Rightarrow> Inr (s\<lparr>ws_pc := (if fw_stop fw then Ended else Reading)\<rparr>))
     | Reading \<Rightarrow>
         if ws_freed s then Inl UseAfterFree
         else (case watch_round (ws_text s) (ws_pos s) (ws_out s) of (pos, out) \<Rightarrow>
           Inr (s\<lparr>ws_pc := Testing, ws_pos := pos, ws_out := out\<rparr>))
     | _ \<Rightarrow> Inr s)"

text \<open>The thread and whoever writes the file, in any order.\<close>

inductive watch_run :: "watch_state \<Rightarrow> watch_state \<Rightarrow> bool" where
  Thread: "watch_step s = Inr s' \<Longrightarrow> watch_run s s'"
| Written: "watch_run s (s\<lparr>ws_text := text\<rparr>)"
| Stop: "stop_watch s = Inr s' \<Longrightarrow> watch_run s s'"

inductive_cases watch_runE: "watch_run s s'"

text \<open>\<open>main\<close> of \<open>src/fcleaner/main.c\<close>.\<close>

definition cleaner_main :: "string list \<Rightarrow> int" where
  "cleaner_main argv = 0"

section \<open>Stopping\<close>

definition watching :: "watch_state \<Rightarrow> bool" where
  "watching s \<longleftrightarrow> ws_fw s \<noteq> None \<and> \<not> ws_freed s \<and> ws_pc s \<noteq> Not_started"

lemma watching_run: "watch_run s s' \<Longrightarrow> watching s \<Longrightarrow> watching s'"
  by (erule watch_runE)
    (auto simp: watching_def watch_step_def stop_watch_def filewatch_stop_def rbind_eq_Inr
      split: watch_pc.splits option.splits prod.splits if_splits)

lemma stopped_step:
  assumes "ws_fw s = Some fw" and "fw_stop fw" and "\<not> ws_freed s"
  shows "ws_pc s = Testing \<Longrightarrow> watch_step s = Inr (s\<lparr>ws_pc := Ended\<rparr>)"
    and "ws_pc s = Ended \<Longrightarrow> watch_step s = Inr s"
    and "ws_pc s = Reading \<Longrightarrow> \<exists>s'. watch_step s = Inr s' \<and> ws_pc s' = Testing \<and>
      ws_fw s' = ws_fw s \<and> ws_freed s' = ws_freed s \<and> length (ws_out s') \<le> length (ws_out s) + 1"
  using assms by (auto simp: watch_step_def watch_round_def split: option.splits)

text \<open>
  Until the watch is freed the thread never reads a bad pointer, and a stopped thread ends with its
  next two steps, after at most one more line.
\<close>

theorem watch_stops:
  assumes "watch_run\<^sup>*\<^sup>* s s'" and "watching s"
  shows "\<exists>s1. stop_watch s' = Inr s1 \<and> (\<exists>s2 s3. watch_step s1 = Inr s2 \<and> watch_step s2 = Inr s3 \<and>
    ws_pc s3 = Ended \<and> length (ws_out s3) \<le> length (ws_out s') + 1)"
proof -
  have "watching s'" using assms by (induction rule: rtranclp_induct) (auto intro: watching_run)
  then obtain fw where fw: "ws_fw s' = Some fw" "\<not> ws_freed s'" "ws_pc s' \<noteq> Not_started"
    by (auto simp: watching_def)
  define s1 where "s1 = s'\<lparr>ws_fw := Some (fw\<lparr>fw_stop := True\<rparr>)\<rparr>"
  have 1: "stop_watch s' = Inr s1" using fw by (simp add: stop_watch_def filewatch_stop_def s1_def)
  have f: "ws_fw s1 = Some (fw\<lparr>fw_stop := True\<rparr>)" "fw_stop (fw\<lparr>fw_stop := True\<rparr>)" "\<not> ws_freed s1"
    "ws_pc s1 = ws_pc s'" "ws_out s1 = ws_out s'"
    using fw by (simp_all add: s1_def)
  have "\<exists>s2 s3. watch_step s1 = Inr s2 \<and> watch_step s2 = Inr s3 \<and> ws_pc s3 = Ended \<and>
      length (ws_out s3) \<le> length (ws_out s') + 1"
  proof (cases "ws_pc s'")
    case Testing
    then have "watch_step s1 = Inr (s1\<lparr>ws_pc := Ended\<rparr>)" using stopped_step(1) [OF f(1-3)] f(4) by simp
    moreover have "watch_step (s1\<lparr>ws_pc := Ended\<rparr>) = Inr (s1\<lparr>ws_pc := Ended\<rparr>)" by (simp add: watch_step_def)
    ultimately show ?thesis using f(5) by auto
  next
    case Reading
    then obtain s2 where 2: "watch_step s1 = Inr s2" "ws_pc s2 = Testing" "ws_fw s2 = ws_fw s1" "\<not> ws_freed s2"
      "length (ws_out s2) \<le> length (ws_out s') + 1"
      using stopped_step(3) [OF f(1-3)] f(3-5) by auto
    have "watch_step s2 = Inr (s2\<lparr>ws_pc := Ended\<rparr>)"
      using stopped_step(1) [OF _ f(2) 2(4,2)] 2(3) f(1) by simp
    with 2 show ?thesis by auto
  next
    case Ended
    then show ?thesis using stopped_step(2) [OF f(1-3)] f(4,5) by auto
  qed (use fw in simp)
  with 1 show ?thesis by blast
qed

text \<open>
  Nothing waits for the thread: when the owner stops and then frees the watch, the thread's next step reads
  freed memory, unless it had ended before.
\<close>

theorem destroy_races:
  assumes "watching s" and "stop_watch s = Inr s1"
  shows "\<exists>s2. filewatch_destroy s1 = Inr s2 \<and> (watch_step s2 = Inl UseAfterFree \<longleftrightarrow> ws_pc s \<noteq> Ended)"
  using assms
  by (cases "ws_pc s") (auto simp: watching_def stop_watch_def filewatch_stop_def filewatch_destroy_def
      watch_step_def rbind_eq_Inr split: option.splits)

text \<open>Once the thread has ended, freeing the watch is safe.\<close>

theorem destroy_after_end:
  assumes "watching s" and "ws_pc s = Ended"
  shows "\<exists>s'. filewatch_destroy s = Inr s' \<and> watch_step s' = Inr s'"
  using assms by (auto simp: watching_def filewatch_destroy_def watch_step_def)

definition watch0 :: watch_state where
  "watch0 = \<lparr>ws_fw = filewatch_init True True, ws_freed = False, ws_pc = Not_started, ws_pos = 0,
     ws_text = ''ab'', ws_out = []\<rparr>"

lemma watch0_watching: "watching (filewatch_start True watch0)"
  by (simp add: watching_def filewatch_start_def watch0_def filewatch_init_def)

theorem watch_stops_witness:
  "\<exists>s1 s2 s3. stop_watch (filewatch_start True watch0) = Inr s1 \<and> watch_step s1 = Inr s2 \<and>
     watch_step s2 = Inr s3 \<and> ws_pc s3 = Ended"
  using watch_stops [OF rtranclp.rtrancl_refl watch0_watching] by blast

theorem destroy_races_witness:
  "\<exists>s1 s2. stop_watch (filewatch_start True watch0) = Inr s1 \<and> filewatch_destroy s1 = Inr s2 \<and>
     watch_step s2 = Inl UseAfterFree"
proof -
  obtain s1 where s1: "stop_watch (filewatch_start True watch0) = Inr s1"
    using watch_stops [OF rtranclp.rtrancl_refl watch0_watching] by blast
  have "ws_pc (filewatch_start True watch0) \<noteq> Ended"
    by (simp add: filewatch_start_def watch0_def filewatch_init_def)
  with destroy_races [OF watch0_watching s1] s1 show ?thesis by blast
qed

end
