(* ===== verification/Fnmatch_Threads.thy ===== *)
theory Fnmatch_Threads
  imports Fnmatch_Correct
begin

text \<open>
  The matcher of \<open>src/monitors/fnmatch.c\<close> round by round, as threads run it: the cursor of a pattern is
  shared by all machines, because the filters are static variables, while the lock around a callback is
  one per machine. The recursion of \<open>_match\<close> is a number of pending calls. A thread alone gets the
  answer of \<open>fn_match\<close>; two threads on one pattern may get any.
\<close>

section \<open>Rounds\<close>

datatype match_ctl = Idle | Matching | Returned bool

text \<open>The path of a thread is its own, and so is the path's cursor. Cursors have eight bits.\<close>

record match_thread =
  mt_exp :: nodelist
  mt_cur :: nat
  mt_calls :: nat
  mt_ctl :: match_ctl

definition node_next :: "nat \<Rightarrow> nat" where "node_next i = (i + 1) mod 256"
definition node_back :: "nat \<Rightarrow> nat" where "node_back i = (i + 255) mod 256"

text \<open>
  One pass over the label \<open>TailRecursive\<close>, or one return: the first component is the cursor of the
  pattern. An idle thread enters \<open>fn_match\<close>, which resets both cursors.
\<close>

definition match_round :: "nodelist \<Rightarrow> nat \<times> match_thread \<Rightarrow> (nat \<times> match_thread) result" where
  "match_round pat s = (case s of (p, t) \<Rightarrow> (case mt_ctl t of
       Idle \<Rightarrow> Inr (0, t\<lparr>mt_cur := 0, mt_calls := 0, mt_ctl := Matching\<rparr>)
     | Returned m \<Rightarrow>
         if mt_calls t = 0 then Inr (p, t)
         else if m then Inr (p, t\<lparr>mt_calls := mt_calls t - 1\<rparr>)
         else Inr (node_back p, t\<lparr>mt_calls := mt_calls t - 1, mt_ctl := Matching\<rparr>)
     | Matching \<Rightarrow>
         let e = mt_cur t; exp = mt_exp t in
         if node_cnt exp \<le> e \<and> node_cnt pat \<le> p then Inr (p, t\<lparr>mt_ctl := Returned True\<rparr>)
         else if node_cnt exp \<le> e then Inr (p, t\<lparr>mt_ctl := Returned False\<rparr>)
         else if node_cnt pat \<le> p then Inr (p, t\<lparr>mt_ctl := Returned False\<rparr>)
         else if nodetypes pat ! p = NODE_DOUBLE_STAR
         then Inr (node_next p, t\<lparr>mt_cur := node_next e, mt_calls := mt_calls t + 1\<rparr>)
         else rbind (match_cur_node pat exp p e) (\<lambda>m.
           if \<not> m then Inr (p, t\<lparr>mt_ctl := Returned False\<rparr>)
           else Inr (node_next p, t\<lparr>mt_cur := node_next e\<rparr>))))"

definition idle :: "nodelist \<Rightarrow> match_thread" where
  "idle exp = \<lparr>mt_exp = exp, mt_cur = 0, mt_calls = 0, mt_ctl = Idle\<rparr>"

inductive match_step :: "nodelist \<Rightarrow> nat \<times> match_thread \<Rightarrow> nat \<times> match_thread \<Rightarrow> bool" for pat where
  Round: "match_round pat s = Inr s' \<Longrightarrow> match_step pat s s'"

section \<open>One thread\<close>

lemma match_nodes_bounds:
  "match_nodes pat exp p e = Inr (m, p', e') \<Longrightarrow> p \<le> node_cnt pat \<Longrightarrow> e \<le> node_cnt exp \<Longrightarrow>
   p \<le> p' \<and> p' \<le> node_cnt pat \<and> e \<le> e' \<and> e' \<le> node_cnt exp"
proof (induction pat exp p e arbitrary: m p' e' rule: match_nodes.induct)
  case (1 pat exp p e)
  show ?case
  proof (cases "node_cnt exp \<le> e \<or> node_cnt pat \<le> p")
    case True
    then show ?thesis using "1.prems" match_nodes_end [OF True] by simp
  next
    case False
    then have c: "\<not> (node_cnt exp \<le> e \<and> node_cnt pat \<le> p)" "\<not> node_cnt exp \<le> e" "\<not> node_cnt pat \<le> p" by auto
    show ?thesis
    proof (cases "nodetypes pat ! p = NODE_DOUBLE_STAR")
      case True
      obtain m1 p1 e1 where r: "match_nodes pat exp (p + 1) (e + 1) = Inr (m1, p1, e1)"
        and k: "(if m1 then Inr (True, p1, e1) else match_nodes pat exp (p1 - 1) e1) = Inr (m, p', e')"
        using "1.prems"(1) False True by (subst (asm) match_nodes.simps) (auto simp: rbind_eq_Inr)
      have b: "p + 1 \<le> p1 \<and> p1 \<le> node_cnt pat \<and> e + 1 \<le> e1 \<and> e1 \<le> node_cnt exp"
        using "1.IH"(1) [OF c True r] c by simp
      show ?thesis
      proof (cases m1)
        case False
        then show ?thesis using "1.IH"(2) [OF c True r refl refl False, of m p' e'] k b by fastforce
      qed (use k b in simp)
    next
      case False
      obtain b where m: "match_cur_node pat exp p e = Inr b"
        and k: "(if \<not> b then Inr (False, p, e) else match_nodes pat exp (p + 1) (e + 1)) = Inr (m, p', e')"
        using "1.prems"(1) c False by (subst (asm) match_nodes.simps) (auto simp: rbind_eq_Inr)
      show ?thesis
      proof (cases b)
        case True
        then show ?thesis using "1.IH"(3) [OF c False m, of m p' e'] k c by simp
      qed (use k "1.prems" in simp)
    qed
  qed
qed

lemma node_moves [simp]: "i < 255 \<Longrightarrow> node_next i = i + 1" "0 < i \<Longrightarrow> i < 256 \<Longrightarrow> node_back i = i - 1"
  by (simp_all add: node_next_def node_back_def mod_if)

lemma match_nodes_rounds:
  "match_nodes pat exp p e = Inr (m, p', e') \<Longrightarrow> p \<le> node_cnt pat \<Longrightarrow> e \<le> node_cnt exp \<Longrightarrow>
   node_cnt pat < 255 \<Longrightarrow> node_cnt exp < 255 \<Longrightarrow>
   (match_step pat)\<^sup>*\<^sup>* (p, \<lparr>mt_exp = exp, mt_cur = e, mt_calls = k, mt_ctl = Matching\<rparr>)
     (p', \<lparr>mt_exp = exp, mt_cur = e', mt_calls = k, mt_ctl = Returned m\<rparr>)"
proof (induction pat exp p e arbitrary: m p' e' k rule: match_nodes.induct)
  case (1 pat exp p e)
  let ?t = "\<lambda>e k c. \<lparr>mt_exp = exp, mt_cur = e, mt_calls = k, mt_ctl = c\<rparr>"
  have step: "match_round pat s = Inr s' \<Longrightarrow> (match_step pat)\<^sup>*\<^sup>* s' s'' \<Longrightarrow> (match_step pat)\<^sup>*\<^sup>* s s''" for s s' s''
    by (erule converse_rtranclp_into_rtranclp [rotated]) (rule match_step.Round)
  show ?case
  proof (cases "node_cnt exp \<le> e \<or> node_cnt pat \<le> p")
    case True
    then show ?thesis
      using "1.prems"(1) match_nodes_end [OF True]
      by (intro step [OF _ rtranclp.rtrancl_refl]) (auto simp: match_round_def Let_def)
  next
    case False
    then have c: "\<not> (node_cnt exp \<le> e \<and> node_cnt pat \<le> p)" "\<not> node_cnt exp \<le> e" "\<not> node_cnt pat \<le> p" by auto
    have lt: "p < 255" "e < 255" using c "1.prems" by auto
    show ?thesis
    proof (cases "nodetypes pat ! p = NODE_DOUBLE_STAR")
      case True
      obtain m1 p1 e1 where r: "match_nodes pat exp (p + 1) (e + 1) = Inr (m1, p1, e1)"
        and f: "(if m1 then Inr (True, p1, e1) else match_nodes pat exp (p1 - 1) e1) = Inr (m, p', e')"
        using "1.prems"(1) c True by (subst (asm) match_nodes.simps) (auto simp: rbind_eq_Inr)
      have b: "p + 1 \<le> p1" "p1 \<le> node_cnt pat" "e1 \<le> node_cnt exp"
        using match_nodes_bounds [OF r] c by auto
      have call: "match_round pat (p, ?t e k Matching) = Inr (p + 1, ?t (e + 1) (k + 1) Matching)"
        using c True lt by (simp add: match_round_def Let_def)
      have rec: "(match_step pat)\<^sup>*\<^sup>* (p + 1, ?t (e + 1) (k + 1) Matching) (p1, ?t e1 (k + 1) (Returned m1))"
        using "1.IH"(1) [OF c True r, of "k + 1"] c "1.prems" by simp
      have rest: "(match_step pat)\<^sup>*\<^sup>* (p1, ?t e1 (k + 1) (Returned m1)) (p', ?t e' k (Returned m))"
      proof (cases m1)
        case True
        then show ?thesis using f by (intro step [OF _ rtranclp.rtrancl_refl]) (auto simp: match_round_def)
      next
        case False
        have "match_round pat (p1, ?t e1 (k + 1) (Returned m1)) = Inr (p1 - 1, ?t e1 k Matching)"
          using False b "1.prems" by (simp add: match_round_def)
        moreover have "(match_step pat)\<^sup>*\<^sup>* (p1 - 1, ?t e1 k Matching) (p', ?t e' k (Returned m))"
          using "1.IH"(2) [OF c True r refl refl False, of m p' e' k] f b "1.prems" False by simp
        ultimately show ?thesis by (rule step)
      qed
      from step [OF call rtranclp_trans [OF rec rest]] show ?thesis .
    next
      case False
      obtain b where m: "match_cur_node pat exp p e = Inr b"
        and f: "(if \<not> b then Inr (False, p, e) else match_nodes pat exp (p + 1) (e + 1)) = Inr (m, p', e')"
        using "1.prems"(1) c False by (subst (asm) match_nodes.simps) (auto simp: rbind_eq_Inr)
      show ?thesis
      proof (cases b)
        case True
        have "match_round pat (p, ?t e k Matching) = Inr (p + 1, ?t (e + 1) k Matching)"
          using c False lt m True by (simp add: match_round_def Let_def)
        moreover have "(match_step pat)\<^sup>*\<^sup>* (p + 1, ?t (e + 1) k Matching) (p', ?t e' k (Returned m))"
          using "1.IH"(3) [OF c False m, of m p' e' k] f c "1.prems" True by simp
        ultimately show ?thesis by (rule step)
      next
        case nb: False
        then show ?thesis
          using f c False m by (intro step [OF _ rtranclp.rtrancl_refl]) (auto simp: match_round_def Let_def)
      qed
    qed
  qed
qed

text \<open>The rounds are deterministic, and a thread that has returned stays as it is.\<close>

definition returned :: "nat \<times> match_thread \<Rightarrow> bool" where
  "returned s \<longleftrightarrow> mt_calls (snd s) = 0 \<and> (\<exists>m. mt_ctl (snd s) = Returned m)"

lemma match_step_det: "match_step pat s a \<Longrightarrow> match_step pat s b \<Longrightarrow> a = b"
  by (simp add: match_step.simps)

lemma returned_stays: "(match_step pat)\<^sup>*\<^sup>* s t \<Longrightarrow> returned s \<Longrightarrow> t = s"
  by (induction rule: rtranclp_induct)
    (auto simp: match_step.simps match_round_def returned_def split: prod.splits)

lemma returned_unique:
  "(match_step pat)\<^sup>*\<^sup>* s a \<Longrightarrow> returned a \<Longrightarrow> (match_step pat)\<^sup>*\<^sup>* s b \<Longrightarrow> returned b \<Longrightarrow> a = b"
proof (induction rule: converse_rtranclp_induct)
  case base
  then show ?case using returned_stays by blast
next
  case (step s s1)
  show ?case
  proof (cases "s = b")
    case True
    then show ?thesis
      using returned_stays [OF converse_rtranclp_into_rtranclp [OF step.hyps]] step.prems by simp
  next
    case False
    then obtain s2 where "match_step pat s s2" "(match_step pat)\<^sup>*\<^sup>* s2 b"
      using step.prems(2) by (blast elim: converse_rtranclpE)
    then show ?thesis using match_step_det [OF step.hyps(1)] step.IH step.prems by blast
  qed
qed


section \<open>Two threads on one pattern\<close>

text \<open>The schedule says whose round is next, \<open>True\<close> for the first thread.\<close>

fun match_threads ::
  "nodelist \<Rightarrow> bool list \<Rightarrow> nat \<times> match_thread \<times> match_thread \<Rightarrow> (nat \<times> match_thread \<times> match_thread) result" where
  "match_threads pat [] s = Inr s"
| "match_threads pat (b # bs) (p, t, u) =
     (if b then rbind (match_round pat (p, t)) (\<lambda>(p, t). match_threads pat bs (p, t, u))
      else rbind (match_round pat (p, u)) (\<lambda>(p, u). match_threads pat bs (p, t, u)))"

definition first_answer :: "string \<Rightarrow> string \<Rightarrow> string \<Rightarrow> bool list \<Rightarrow> match_ctl option result" where
  "first_answer pattern path other sched =
     rbind (fn_translate pattern True) (\<lambda>P. rbind (fn_translate path False) (\<lambda>X.
     rbind (fn_translate other False) (\<lambda>Y. case (P, X, Y) of
       (Some P, Some X, Some Y) \<Rightarrow>
         rbind (match_threads P sched (0, idle X, idle Y)) (\<lambda>(_, t, _).
           Inr (if mt_calls t = 0 then Some (mt_ctl t) else None))
     | _ \<Rightarrow> Inr None)))"

text \<open>
  The path \<open>/a/b\<close> is the pattern itself, and is found; when another machine's thread
  starts to match a path with the same pattern in between, it is not.
\<close>

theorem shared_pattern_misses:
  "first_answer ''/a/b'' ''/a/b'' ''/c'' [True, True, True, True] = Inr (Some (Returned True)) \<and>
   first_answer ''/a/b'' ''/a/b'' ''/c'' [True, True, False, True] = Inr (Some (Returned False))"
  by code_simp

text \<open>And the path \<open>/a/a/b\<close>, which the pattern does not name, is found.\<close>

theorem shared_pattern_invents:
  "first_answer ''/a/b'' ''/a/a/b'' ''/c'' [True, True, True] = Inr (Some (Returned False)) \<and>
   first_answer ''/a/b'' ''/a/a/b'' ''/c'' [True, True, False, True, True, True] = Inr (Some (Returned True))"
  by code_simp


end
