(* ===== verification/Spec2Isabelle.thy ===== *)
theory Spec2Isabelle
  imports Prelude Simulation CString Fnmatch_Correct File_Filter Policy_Table Hashtable_Map
    Hfm_Int3_Examples Program Guest_Extract Windows_Props Monitor_Demo Monitor_Calls_Demo Cleaner_Watch Fnmatch_Threads
begin

text \<open>
  HFM, a hypervisor-based file monitor: verification library.

  THE PROGRAM. \<open>hfm\<close> runs in the control domain of Xen and watches the files of Windows guests
  without an agent in them. It puts breakpoints at the entry of the kernel's file functions, in a
  shadow copy of the code pages that only an altp2m view shows (\<open>hfm.c\<close>, \<open>trapmngr.c\<close>,
  \<open>xen_helper.c\<close>). When a breakpoint is hit, the callback of a monitor (\<open>monitors/\<close>) reads the
  arguments of the call from the guest's memory (\<open>context.c\<close>, with the structure offsets of a Rekall
  profile, \<open>rekall.c\<close>), finds the file's name, matches it with the patterns of its policies
  (\<open>file_filter.c\<close>, \<open>fnmatch.c\<close>), and writes a record (\<open>monitor_util.c\<close>, \<open>outputs/\<close>), possibly with
  the file's contents out of the page cache; some callbacks wait for the return of the call with a
  second, temporary breakpoint. Policies come from a text file (\<open>policy.c\<close>), settings from a
  configuration file and the command line (\<open>config.c\<close>, \<open>main.c\<close>); one thread per machine listens for
  events, another watches over restarts (\<open>multiwatch.c\<close>). \<open>fcleaner/\<close> is a separate program for the
  extracted files, of which the parts exist and the main function does not. Paths below are
  relative to \<open>src/src/\<close>.

  CONVENTIONS. Undefined behaviour of C is a value: an operation that can run into it returns
  \<open>ub + 'a\<close> (\<open>Prelude\<close>), with \<open>Inl\<close> for a null or freed pointer, an index out of bounds, a division
  by zero or a read of nothing; a claim that an operation gives \<open>Inr\<close> is a claim that it is safe.
  Machine integers have their width (\<open>u8\<close> to \<open>u64\<close>; \<open>int\<close> of C is \<open>int\<close> where it cannot overflow).
  A C string is a list of characters without NUL, a buffer is a list of its bytes with the NULs
  (\<open>CString\<close>). A hash table of GLib is a map and its iteration order a parameter, a linked list is a
  list. Static variables are arguments and results. A loop over guest memory that nothing bounds is a
  \<open>partial_function\<close>, where \<open>None\<close> is a loop that does not end, and the property says exactly when
  it ends; no definition has a fuel but the resolution of links in \<open>Cleaner_Files\<close>, whose 41 is the
  bound of the operating system. What is not in the repository is a parameter: libvmi, libxc and libxl
  (\<open>vmi_api\<close> and its laws in \<open>Vmi\<close>, \<open>guest_t\<close> and \<open>win_api\<close> for reads, \<open>hfm_env\<close> for the calls of the
  lifecycle), the parser of GLib (\<open>keyfile\<close>), json-c (\<open>rekall_lookup\<close> gets the parsed profile), MD5,
  the clock, the Elasticsearch client (it gets the query).

  THEORIES AND CODE.

  \<open>Prelude\<close>, \<open>CString\<close>, \<open>Simulation\<close>: results, arrays, the C string functions; the locales
  \<open>rel_simulation\<close>, \<open>simulation\<close> and \<open>total_simulation\<close> are the contract between a component and its
  abstract specification, interpreted by the hash table and the trap manager.

  \<open>Fnmatch\<close> (\<open>monitors/fnmatch.c\<close>): node lists, \<open>fn_translate\<close>, the matcher. \<open>Fnmatch_Translate\<close> has the
  specification \<open>split_path\<close>, \<open>Fnmatch_Match\<close> what one component matches, \<open>Fnmatch_Correct\<close> the
  comparison of the matcher with \<open>path_glob\<close>: it is exact without \<open>**\<close>, and which answers are wrong with it.
  \<open>Fnmatch_Threads\<close>: the matcher round by round, with the cursor of the pattern shared; alone a thread
  gets the answer of \<open>fn_match\<close>, beside the thread of another machine it may miss or invent a match.
  \<open>File_Filter\<close> (\<open>monitors/file_filter.c\<close>): the locale \<open>path_filter\<close> is the interface of the monitors to
  a filter, interpreted on its operations; a view lists the patterns with their ids.

  \<open>Policy\<close>, \<open>Policy_Table\<close> (\<open>policy.c\<close>): the parser of policy files from bytes to the table, the files that
  crash it, the round trip, and that the last valid statement of an id counts.

  \<open>Trapmngr\<close>, \<open>Trap_Registry\<close> (\<open>trapmngr.c\<close>): the tables of traps by address and by frame simulate one
  list of traps. \<open>Vmi\<close> (libvmi's laws, \<open>xen_helper.c\<close> for frames), \<open>Hfm_Traps\<close> (\<open>hfm.c\<close>: shadow pages,
  \<open>_inject_trap\<close>, \<open>_remove_int3\<close>, \<open>hfm_monitor_syscall\<close>, \<open>_destroy_traps\<close>). \<open>Hfm_Shadow\<close> and
  \<open>Hfm_Shadow_Props\<close>: the invariant \<open>shadow_inv\<close> of memory, frame map and tables; the guest sees its own
  code with breakpoints at the traps only. \<open>Hfm_Events\<close>, \<open>Hfm_Events_Props\<close>, \<open>Hfm_Int3\<close>,
  \<open>Hfm_Int3_Examples\<close> (\<open>hfm.c\<close>: \<open>_int3_cb\<close>, \<open>_pre_mem_cb\<close>, \<open>_post_mem_cb\<close>, \<open>_singlestep_cb\<close>): the guest's own
  breakpoints are passed on, the virtual CPUs go back to the shadow view, and what goes wrong. The
  callbacks of the monitors are a parameter \<open>run_cb\<close> there; it is instantiated in \<open>Monitor_Events\<close>.

  \<open>Win_Offsets\<close> (\<open>include/win_offsets.h\<close>, \<open>rekall.c\<close>, \<open>win_fill_offsets\<close> of \<open>win.c\<close>): the tables of offsets.
  \<open>Guest\<close>, \<open>Guest_Props\<close> (\<open>context.c\<close>: reads, processes, strings, names of files, security identifiers),
  \<open>Guest_Handles\<close> (\<open>hfm_fileobj_from_handle\<close>; a handle table is a tree of pages), \<open>Guest_Extract\<close>
  (\<open>hfm_extract_file\<close>), \<open>Windows\<close>, \<open>Windows_Props\<close> (\<open>win.c\<close>: processes, objects, drives), \<open>Guest_Demo\<close> (a
  small guest for the witnesses).

  \<open>Monitor_Util\<close> (\<open>monitors/monitor_util.c\<close>, the path of a create call), \<open>Monitors\<close> (the callbacks of
  \<open>file_created.c\<close>, \<open>file_deleted.c\<close>, \<open>file_modified.c\<close>, \<open>attr_changed.c\<close>, \<open>access_changed.c\<close>),
  \<open>Monitor_Policies\<close> (\<open>monitor.c\<close>, the \<open>*_add_policy\<close> and \<open>*_close\<close> functions, \<open>hfm_set_policies\<close>, and
  \<open>run_callback\<close>, which callback a trap runs). \<open>Monitor_Policies_Props\<close>: the filters after a table of
  policies is set, the calls that are trapped, and how often it can be set. \<open>Monitor_Props\<close>: which
  accesses are reported, followed from the entry of a call to its record. \<open>Monitor_Demo\<close>: their witnesses.
  \<open>Monitor_Events\<close>, \<open>Monitor_Calls\<close>: \<open>_int3_cb\<close> with the monitors as its callbacks, each between
  \<open>hfm_lock_and_get_vmi\<close> and \<open>hfm_release_vmi\<close>. The state of the hypervisor is extended by what the
  program itself keeps (\<open>mon_world\<close>: the lock, the filters, what was written), and libvmi acts on
  the former only (\<open>lift_api\<close>). The lock is free after every event, and a system call is followed from
  the breakpoint at its entry over the trap on its return address to the record; a list node read
  after it was freed may be anything but undefined there. \<open>Monitor_Traps\<close>: from a table of policies to
  the traps at each address, \<open>NtWriteFile\<close> among them. \<open>Monitor_Calls_Demo\<close>: their witnesses.
  \<open>Outputs\<close>, \<open>Outputs_Props\<close> (\<open>outputs/\<close>): the text of a record, and how it is read back.

  \<open>Log\<close> (\<open>log.c\<close>), \<open>Config\<close> (\<open>config.c\<close>), \<open>Lifecycle\<close>, \<open>Lifecycle_Props\<close>, \<open>Lifecycle_Total\<close> (\<open>hfm.c\<close>:
  \<open>hfm_init\<close>, \<open>hfm_close\<close>, \<open>hfm_restart_vmi\<close>, with the resources held after each error path;
  \<open>xen_helper.c\<close>), \<open>Multiwatch\<close>, \<open>Multiwatch_Props\<close> (\<open>multiwatch.c\<close>: state machine of the watched machines,
  steps of the monitoring and boot threads, safety by rule induction), \<open>Program\<close> (\<open>main.c\<close>; the locale
  \<open>vm_opener\<close> is the interface of \<open>_init_vms\<close> to \<open>hfm_init\<close>, interpreted on it).

  \<open>Hashtable\<close>, \<open>Hashtable_Map\<close> (\<open>fcleaner/hashtable.c\<close>): a finite map with ownership of the data.
  \<open>Cleaner_Files\<close> (\<open>fcleaner/fileutil.c\<close>, \<open>filewatch.c\<close>): duplicates, links, following a file;
  \<open>Cleaner_Watch\<close> (\<open>filewatch.c\<close>, \<open>fcleaner/main.c\<close>): the following thread beside its owner.

  WHAT THE PROPERTIES SAY TOGETHER. A policy file in the documented format gives the table it describes;
  setting the table gives each monitor a filter with the patterns of its kind and traps its system calls
  once; a filter answers with the first policy the matcher accepts, which is the intended meaning for
  patterns without \<open>**\<close>; a trap shows the guest nothing but a breakpoint that it never notices; a
  callback that runs finds the file behind the handle by a walk that is the guest's own, and reports the
  access with the policy, exactly when the call succeeded; the record can be read back from the output.
  Opening, closing and restarting a machine gives and takes every resource once. The findings in the
  manifest are where one of these needs a condition that the code does not check.

  NOT MODELLED. The handlers' threads beside each other, except for the watcher, the
  matcher and the file watch, whose interleavings are modelled: elsewhere the callbacks of one machine
  are taken as if no other machine ran, although they share the filters of the monitors. Sleeps. Log messages are
  modelled in the lifecycle and the main program and left out in the readers and the monitors. Memory
  that is only leaked is not tracked outside the hash table, the traps and the resources of a
  handler; nor is \<open>free (params)\<close> in the callbacks at a return, which a trap that runs once reaches once.
  The headers of \<open>include/\<close> are covered by the types and constants they declare.
\<close>

end
